(* ===== verification/GoPrelude.thy ===== *)
theory GoPrelude
  imports Main "HOL-Library.Word"
begin

text \<open>
  What the components share: Go strings as byte lists, the fragment of the Go standard
  library the sources call (\<^verbatim>\<open>strconv\<close>, \<^verbatim>\<open>strings\<close>), fallible results as sums with a
  sequencing operator, and the generic facts on lists and results that carry the component
  proofs.

  A Go \<^verbatim>\<open>string\<close> or \<^verbatim>\<open>[]byte\<close> is a sequence of bytes; it is modelled as \<^typ>\<open>string\<close>, whose
  characters are the 256 byte values. A Go \<^verbatim>\<open>(T, error)\<close> result is a value of \<^typ>\<open>'e + 'a\<close>,
  with \<^term>\<open>Inl e\<close> for a non-nil error.
\<close>

named_theorems go_simps \<open>unfolding equations shared by the component proofs\<close>
named_theorems go_bounds \<open>bounds on positions and lengths\<close>

subsection \<open>Fallible results\<close>

definition res_bind :: "'e + 'a \<Rightarrow> ('a \<Rightarrow> 'e + 'b) \<Rightarrow> 'e + 'b" where
  "res_bind m f = (case m of Inl e \<Rightarrow> Inl e | Inr x \<Rightarrow> f x)"

lemma res_bind_simps [simp]:
  "res_bind (Inl e) f = Inl e"
  "res_bind (Inr x) f = f x"
  by (simp_all add: res_bind_def)

lemma res_bind_Inr [simp]:
  "res_bind m f = Inr y \<longleftrightarrow> (\<exists>x. m = Inr x \<and> f x = Inr y)"
  by (cases m) simp_all

lemma res_bind_Inl:
  "res_bind m f = Inl e \<longleftrightarrow> m = Inl e \<or> (\<exists>x. m = Inr x \<and> f x = Inl e)"
  by (cases m) simp_all

lemma res_bind_cong [fundef_cong]:
  "m = m' \<Longrightarrow> (\<And>x. m' = Inr x \<Longrightarrow> f x = g x) \<Longrightarrow> res_bind m f = res_bind m' g"
  by (cases m') simp_all

definition map_res :: "('a \<Rightarrow> 'b) \<Rightarrow> 'e + 'a \<Rightarrow> 'e + 'b" where
  "map_res f m = res_bind m (\<lambda>x. Inr (f x))"

lemma map_res_simps [simp]:
  "map_res f (Inl e) = Inl e"
  "map_res f (Inr x) = Inr (f x)"
  by (simp_all add: map_res_def)

lemma map_res_Inr [simp]: "map_res f m = Inr y \<longleftrightarrow> (\<exists>x. m = Inr x \<and> y = f x)"
  by (cases m) auto

lemma map_res_Inl [simp]: "map_res f m = Inl e \<longleftrightarrow> m = Inl e"
  by (cases m) auto

text \<open>A loop that collects results and returns at the first error.\<close>

fun seq_res :: "('e + 'a) list \<Rightarrow> 'e + 'a list" where
  "seq_res [] = Inr []"
| "seq_res (m # ms) = res_bind m (\<lambda>x. map_res (\<lambda>xs. x # xs) (seq_res ms))"

lemma seq_res_Inr: "seq_res ms = Inr xs \<longleftrightarrow> ms = map Inr xs"
  by (induction ms arbitrary: xs) auto

subsection \<open>Bytes\<close>

text \<open>Byte ranges are compared as numbers, as Go compares \<^verbatim>\<open>byte\<close> values.\<close>

abbreviation byte_val :: "char \<Rightarrow> nat" where
  "byte_val c \<equiv> of_char c"

definition in_range :: "char \<Rightarrow> char \<Rightarrow> char \<Rightarrow> bool" where
  "in_range lo hi c \<longleftrightarrow> byte_val lo \<le> byte_val c \<and> byte_val c \<le> byte_val hi"

definition is_digit :: "char \<Rightarrow> bool" where
  "is_digit c \<longleftrightarrow> in_range CHR ''0'' CHR ''9'' c"

definition is_lower :: "char \<Rightarrow> bool" where
  "is_lower c \<longleftrightarrow> in_range CHR ''a'' CHR ''z'' c"

definition is_upper :: "char \<Rightarrow> bool" where
  "is_upper c \<longleftrightarrow> in_range CHR ''A'' CHR ''Z'' c"

subsection \<open>Index loops over a string\<close>

text \<open>The loop \<^verbatim>\<open>for i < len(s) && P(s[i]) { i++ }\<close>, which the sources write at many places.\<close>

function scan_while :: "(char \<Rightarrow> bool) \<Rightarrow> string \<Rightarrow> nat \<Rightarrow> nat" where
  "scan_while P s i = (if i < length s \<and> P (s ! i) then scan_while P s (Suc i) else i)"
  by pat_completeness auto
termination
  by (relation "measure (\<lambda>(P, s, i). length s - i)") auto

declare scan_while.simps [simp del]

lemma takeWhile_drop_step:
  "i < length s \<Longrightarrow> takeWhile P (drop i s) =
     (if P (s ! i) then s ! i # takeWhile P (drop (Suc i) s) else [])"
  by (subst Cons_nth_drop_Suc [symmetric]) auto

lemma scan_while_eq: "scan_while P s i = i + length (takeWhile P (drop i s))"
proof (induction P s i rule: scan_while.induct)
  case (1 P s i)
  then show ?case
    by (cases "i < length s") (auto simp: scan_while.simps [of P s i] takeWhile_drop_step)
qed

lemma scan_while_ge [go_bounds]: "i \<le> scan_while P s i"
  by (simp add: scan_while_eq)

lemma scan_while_le [go_bounds]: "i \<le> length s \<Longrightarrow> scan_while P s i \<le> length s"
  using length_takeWhile_le [of P "drop i s"] by (simp add: scan_while_eq)

lemma scan_while_moved:
  assumes "scan_while P s i \<noteq> i"
  shows "i < scan_while P s i \<and> scan_while P s i \<le> length s"
proof -
  from assms have "i < length s"
    by (cases "i < length s") (simp_all add: scan_while_eq)
  with assms scan_while_ge [of i P s] scan_while_le [of i s P] show ?thesis by simp
qed

subsection \<open>strings.Join\<close>

fun strings_Join :: "string \<Rightarrow> string list \<Rightarrow> string" where
  "strings_Join sep [] = []"
| "strings_Join sep [x] = x"
| "strings_Join sep (x # y # ys) = x @ sep @ strings_Join sep (y # ys)"

lemma strings_Join_Cons:
  "strings_Join sep (x # xs) = (if xs = [] then x else x @ sep @ strings_Join sep xs)"
  by (cases xs) simp_all

subsection \<open>Integers in decimal: strconv.Itoa and strconv.Atoi\<close>

definition digit_char :: "nat \<Rightarrow> char" where
  "digit_char n = char_of (48 + n)"

definition digit_val :: "char \<Rightarrow> nat" where
  "digit_val c = byte_val c - 48"

fun nat_digits :: "nat \<Rightarrow> string" where
  "nat_digits n =
     (if n < 10 then [digit_char n] else nat_digits (n div 10) @ [digit_char (n mod 10)])"

declare nat_digits.simps [simp del]

definition itoa :: "int \<Rightarrow> string" where
  "itoa z = (if z < 0 then CHR ''-'' # nat_digits (nat (- z)) else nat_digits (nat z))"

definition digits_val :: "string \<Rightarrow> nat" where
  "digits_val ds = foldl (\<lambda>a c. 10 * a + digit_val c) 0 ds"

definition int64_min :: int where "int64_min = - (2 ^ 63)"
definition int64_max :: int where "int64_max = 2 ^ 63 - 1"

definition in_int64 :: "int \<Rightarrow> bool" where
  "in_int64 z \<longleftrightarrow> int64_min \<le> z \<and> z \<le> int64_max"

text \<open>\<^verbatim>\<open>strconv.Atoi\<close>: an optional sign, then at least one digit; a value that does not fit
  \<^verbatim>\<open>int\<close> (64 bits) is an error.\<close>

definition atoi :: "string \<Rightarrow> int option" where
  "atoi s =
     (let neg = (s \<noteq> [] \<and> hd s = CHR ''-'');
          signed = (s \<noteq> [] \<and> (hd s = CHR ''-'' \<or> hd s = CHR ''+''));
          ds = (if signed then tl s else s);
          z = (if neg then - int (digits_val ds) else int (digits_val ds))
      in if ds \<noteq> [] \<and> list_all is_digit ds \<and> in_int64 z then Some z else None)"

lemma byte_val_digit_char: "n < 10 \<Longrightarrow> byte_val (digit_char n) = 48 + n"
  by (simp add: digit_char_def)

lemma is_digit_digit_char [simp]: "n < 10 \<Longrightarrow> is_digit (digit_char n)"
  by (simp add: is_digit_def in_range_def byte_val_digit_char)

lemma digit_val_digit_char [simp]: "n < 10 \<Longrightarrow> digit_val (digit_char n) = n"
  by (simp add: digit_val_def byte_val_digit_char)

lemma nat_digits_ne [simp]: "nat_digits n \<noteq> []"
  by (subst nat_digits.simps) simp

lemma nat_digits_all [simp]: "list_all is_digit (nat_digits n)"
proof (induction n rule: nat_digits.induct)
  case (1 n)
  then show ?case by (subst nat_digits.simps) simp
qed

lemma digits_val_snoc: "digits_val (ds @ [c]) = 10 * digits_val ds + digit_val c"
  by (simp add: digits_val_def)

lemma digits_val_nat_digits [simp]: "digits_val (nat_digits n) = n"
proof (induction n rule: nat_digits.induct)
  case (1 n)
  show ?case
  proof (cases "n < 10")
    case True
    then show ?thesis by (subst nat_digits.simps) (simp add: digits_val_def)
  next
    case False
    with 1 show ?thesis by (subst nat_digits.simps) (simp add: digits_val_snoc)
  qed
qed

lemma is_digit_not_sign: "is_digit c \<Longrightarrow> c \<noteq> CHR ''-'' \<and> c \<noteq> CHR ''+''"
  by (auto simp: is_digit_def in_range_def)

lemma hd_nat_digits_digit: "is_digit (hd (nat_digits n))"
  using nat_digits_all [of n] nat_digits_ne [of n] by (cases "nat_digits n") simp_all

text \<open>\<^verbatim>\<open>Atoi\<close> reads back what \<^verbatim>\<open>Itoa\<close> prints.\<close>

lemma itoa_nat_inj: "itoa (int i) = itoa (int j) \<Longrightarrow> i = j"
proof -
  assume "itoa (int i) = itoa (int j)"
  then have "digits_val (nat_digits i) = digits_val (nat_digits j)" by (simp add: itoa_def)
  then show "i = j" by simp
qed

lemma atoi_itoa: "in_int64 z \<Longrightarrow> atoi (itoa z) = Some z"
  using is_digit_not_sign [OF hd_nat_digits_digit [of "nat z"]]
  by (auto simp: atoi_def itoa_def Let_def)

lemma atoi_in_int64: "atoi s = Some z \<Longrightarrow> in_int64 z"
  by (auto simp: atoi_def Let_def split: if_splits)

subsection \<open>First appearances\<close>

text \<open>The elements of a list in order of first appearance.\<close>

definition add_new :: "'a list \<Rightarrow> 'a \<Rightarrow> 'a list" where
  "add_new ps n = (if n \<in> set ps then ps else ps @ [n])"

definition firsts :: "'a list \<Rightarrow> 'a list" where
  "firsts ns = foldl add_new [] ns"

lemma foldl_add_new_set: "set (foldl add_new ps ns) = set ps \<union> set ns"
  by (induction ns arbitrary: ps) (auto simp: add_new_def)

lemma foldl_add_new_distinct: "distinct ps \<Longrightarrow> distinct (foldl add_new ps ns)"
  by (induction ns arbitrary: ps) (auto simp: add_new_def)

lemma set_firsts [simp]: "set (firsts ns) = set ns"
  by (simp add: firsts_def foldl_add_new_set)

lemma distinct_firsts [simp]: "distinct (firsts ns)"
  by (simp add: firsts_def foldl_add_new_distinct)

lemma firsts_Nil [simp]: "firsts [] = []"
  by (simp add: firsts_def)

text \<open>The elements of a list whose key was not seen before.\<close>

fun first_by :: "('a \<Rightarrow> 'b) \<Rightarrow> 'b set \<Rightarrow> 'a list \<Rightarrow> 'a list" where
  "first_by f seen [] = []"
| "first_by f seen (x # xs) =
     (if f x \<in> seen then first_by f seen xs else x # first_by f (insert (f x) seen) xs)"

lemma first_by_keys: "f ` set (first_by f seen xs) = f ` set xs - seen"
  by (induction xs arbitrary: seen) auto

lemma first_by_distinct: "distinct (map f (first_by f seen xs))"
proof (induction xs arbitrary: seen)
  case (Cons x xs)
  then show ?case using first_by_keys [of f "insert (f x) seen" xs] by auto
qed simp

lemma set_first_by: "set (first_by f seen xs) \<subseteq> set xs"
  by (induction xs arbitrary: seen) auto

end
