(* ===== verification/ChTypes.thy ===== *)
theory ChTypes
  imports GoPrelude
begin

text \<open>
  The ClickHouse type system of \<^verbatim>\<open>internal/ch/types.go\<close> and \<^verbatim>\<open>internal/ch/zero.go\<close>: the type
  tree, its canonical spelling (\<^verbatim>\<open>String\<close>), its identity (\<^verbatim>\<open>Key\<close>), the wrappers that are
  stripped from it (\<^verbatim>\<open>Unwrap\<close>, \<^verbatim>\<open>Payload\<close>), and the literal inference binds for a parameter
  of it (\<^verbatim>\<open>ZeroLiteral\<close>).
\<close>

subsection \<open>The type tree\<close>

text \<open>
  One constructor per struct of the source. \<^verbatim>\<open>Enum.Labels\<close> and \<^verbatim>\<open>Enum.Values\<close> are parallel
  slices that are only ever extended together, so they are one list of pairs; \<^verbatim>\<open>Values\<close> keeps
  its 16-bit width. \<^verbatim>\<open>Tuple.Names\<close> is \<^term>\<open>[]\<close> where the source has nil.
\<close>

datatype chtype =
    Scalar string
  | FixedString int
  | Decimal int int
  | DateTime string
  | DateTime64 int string
  | Nullable chtype
  | LowCardinality chtype
  | Array chtype
  | Map chtype chtype
  | Enum int "(string \<times> 16 word) list"
  | Tuple "string list" "chtype list"
  | Unsupported string

subsection \<open>The canonical spelling\<close>

text \<open>\<^verbatim>\<open>quote\<close>: a single-quoted literal with backslash and quote escaped.\<close>

definition quote_char :: "char \<Rightarrow> string" where
  "quote_char c =
     (if c = CHR 0x5C then [CHR 0x5C, CHR 0x5C]
      else if c = CHR 0x27 then [CHR 0x5C, CHR 0x27] else [c])"

lemma quote_char_simps [simp]:
  "quote_char (CHR 0x5C) = [CHR 0x5C, CHR 0x5C]"
  "quote_char (CHR 0x27) = [CHR 0x5C, CHR 0x27]"
  "c \<noteq> CHR 0x5C \<Longrightarrow> c \<noteq> CHR 0x27 \<Longrightarrow> quote_char c = [c]"
  by (simp_all add: quote_char_def)

definition quote :: "string \<Rightarrow> string" where
  "quote s = CHR 0x27 # concat (map quote_char s) @ [CHR 0x27]"

text \<open>The items that the loops of \<^verbatim>\<open>Enum.String\<close> and \<^verbatim>\<open>Tuple.String\<close> write, with \<^verbatim>\<open>", "\<close>
  before every one but the first.\<close>

definition enum_item :: "string \<times> 16 word \<Rightarrow> string" where
  "enum_item lv = quote (fst lv) @ '' = '' @ itoa (sint (snd lv))"

fun tuple_items :: "string list \<Rightarrow> string list \<Rightarrow> string list" where
  "tuple_items ns [] = []"
| "tuple_items [] (e # es) = e # tuple_items [] es"
| "tuple_items (n # ns) (e # es) = (if n \<noteq> [] then n @ '' '' @ e else e) # tuple_items ns es"

fun type_string :: "chtype \<Rightarrow> string" where
  "type_string (Scalar name) = name"
| "type_string (FixedString n) = ''FixedString('' @ itoa n @ '')''"
| "type_string (Decimal p s) = ''Decimal('' @ itoa p @ '', '' @ itoa s @ '')''"
| "type_string (DateTime tz) =
     (if tz = [] then ''DateTime'' else ''DateTime('' @ quote tz @ '')'')"
| "type_string (DateTime64 p tz) =
     (if tz = [] then ''DateTime64('' @ itoa p @ '')''
      else ''DateTime64('' @ itoa p @ '', '' @ quote tz @ '')'')"
| "type_string (Nullable t) = ''Nullable('' @ type_string t @ '')''"
| "type_string (LowCardinality t) = ''LowCardinality('' @ type_string t @ '')''"
| "type_string (Array t) = ''Array('' @ type_string t @ '')''"
| "type_string (Map k v) = ''Map('' @ type_string k @ '', '' @ type_string v @ '')''"
| "type_string (Enum bits lvs) =
     ''Enum'' @ itoa bits @ ''('' @ strings_Join '', '' (map enum_item lvs) @ '')''"
| "type_string (Tuple names elems) =
     ''Tuple('' @ strings_Join '', '' (tuple_items names (map type_string elems)) @ '')''"
| "type_string (Unsupported raw) = raw"

definition chKey :: "chtype \<Rightarrow> string" where
  "chKey t = ''ch:'' @ type_string t"

subsection \<open>Stripping wrappers\<close>

text \<open>\<^verbatim>\<open>Unwrap\<close> and \<^verbatim>\<open>Payload\<close> loop while the outermost constructor is a wrapper.\<close>

fun Unwrap :: "chtype \<Rightarrow> chtype" where
  "Unwrap (LowCardinality t) = Unwrap t"
| "Unwrap t = t"

fun Payload :: "chtype \<Rightarrow> chtype" where
  "Payload (LowCardinality t) = Payload t"
| "Payload (Nullable t) = Payload t"
| "Payload t = t"

definition IsNullable :: "chtype \<Rightarrow> bool" where
  "IsNullable t = (case Unwrap t of Nullable _ \<Rightarrow> True | _ \<Rightarrow> False)"

definition IsIdentifier :: "chtype \<Rightarrow> bool" where
  "IsIdentifier t = (case t of Scalar name \<Rightarrow> name = ''Identifier'' | _ \<Rightarrow> False)"

subsection \<open>Zero literals\<close>

datatype zero_error = EnumNoLabels chtype | NoValueFor string | NoLiteralFor string

definition scalarZero :: "string \<Rightarrow> zero_error + string" where
  "scalarZero name =
     (if name = ''String'' then Inr []
      else if name \<in> set [''Bool'', ''Boolean''] then Inr ''false''
      else if name \<in> set [''Int8'', ''Int16'', ''Int32'', ''Int64'', ''Int128'', ''Int256'',
           ''UInt8'', ''UInt16'', ''UInt32'', ''UInt64'', ''UInt128'', ''UInt256'',
           ''Float32'', ''Float64''] then Inr ''0''
      else if name \<in> set [''Date'', ''Date32''] then Inr ''1970-01-01''
      else if name \<in> set [''DateTime'', ''DateTime64''] then Inr ''1970-01-01 00:00:00''
      else if name = ''UUID'' then Inr ''00000000-0000-0000-0000-000000000000''
      else if name = ''IPv4'' then Inr ''0.0.0.0''
      else if name = ''IPv6'' then Inr ''::''
      else Inl (NoLiteralFor name))"

fun ZeroLiteral :: "chtype \<Rightarrow> zero_error + string" where
  "ZeroLiteral (Nullable t) = ZeroLiteral t"
| "ZeroLiteral (LowCardinality t) = ZeroLiteral t"
| "ZeroLiteral (Array t) = Inr ''[]''"
| "ZeroLiteral (Map k v) = Inr ''{}''"
| "ZeroLiteral (FixedString n) = Inr []"
| "ZeroLiteral (Decimal p s) = Inr ''0''"
| "ZeroLiteral (DateTime tz) = Inr ''1970-01-01 00:00:00''"
| "ZeroLiteral (DateTime64 p tz) = Inr ''1970-01-01 00:00:00''"
| "ZeroLiteral (Enum bits lvs) =
     (case lvs of [] \<Rightarrow> Inl (EnumNoLabels (Enum bits lvs)) | lv # _ \<Rightarrow> Inr (fst lv))"
| "ZeroLiteral (Tuple names elems) =
     map_res (\<lambda>parts. ''('' @ strings_Join '','' parts @ '')'') (seq_res (map ZeroLiteral elems))"
| "ZeroLiteral (Scalar name) = scalarZero name"
| "ZeroLiteral (Unsupported raw) = Inl (NoValueFor raw)"

end
