(* ===== verification/ChParse.thy ===== *)
theory ChParse
  imports ChTypes
begin

text \<open>
  The recursive-descent parser of \<^verbatim>\<open>internal/ch/parse.go\<close>, which turns a ClickHouse type name
  into a \<^typ>\<open>chtype\<close>. The parser state is the source string and a byte position; every method
  takes the state and returns the new one. The mutual recursion of the source between
  \<^verbatim>\<open>parseType\<close> and \<^verbatim>\<open>parseTuple\<close> is cut by fuel (one unit per nesting level and per list
  item); \<open>ParseFuel\<close> marks running out, and \<open>Parse_fuel_ok\<close> shows that \<open>Parse\<close> never does.
\<close>

subsection \<open>State, errors and lexical helpers\<close>

record chparser =
  cp_src :: string
  cp_pos :: nat

datatype ch_errmsg =
    UnexpectedTrailing string
  | Expected char
  | ExpectedTypeName
  | TrailingBackslash
  | UnterminatedString
  | ExpectedNumber
  | BadNumber string
  | EnumOutOfRange int int string
  | UnbalancedParens
  | ParseFuel

text \<open>\<^verbatim>\<open>errf\<close> reports the source, the offset and what was wrong.\<close>

datatype ch_error = ChError string nat ch_errmsg

definition errf :: "chparser \<Rightarrow> ch_errmsg \<Rightarrow> ch_error" where
  "errf p m = ChError (cp_src p) (cp_pos p) m"

definition is_space_byte :: "char \<Rightarrow> bool" where
  "is_space_byte c \<longleftrightarrow> c = CHR '' '' \<or> c = CHR 0x09 \<or> c = CHR 0x0A"

definition skipSpace :: "chparser \<Rightarrow> chparser" where
  "skipSpace p = p\<lparr>cp_pos := scan_while is_space_byte (cp_src p) (cp_pos p)\<rparr>"

text \<open>\<^verbatim>\<open>peek\<close> moves past blanks and returns the next byte, or 0 at the end.\<close>

definition ch_peek :: "chparser \<Rightarrow> char \<times> chparser" where
  "ch_peek p =
     (let q = skipSpace p
      in (if cp_pos q \<ge> length (cp_src q) then CHR 0x00 else cp_src q ! cp_pos q, q))"

definition accept :: "char \<Rightarrow> chparser \<Rightarrow> bool \<times> chparser" where
  "accept c p =
     (case ch_peek p of (b, q) \<Rightarrow>
        if b = c then (True, q\<lparr>cp_pos := cp_pos q + 1\<rparr>) else (False, q))"

definition expect :: "char \<Rightarrow> chparser \<Rightarrow> ch_error + chparser" where
  "expect c p = (case accept c p of (ok, q) \<Rightarrow> if ok then Inr q else Inl (errf q (Expected c)))"

definition isIdentByte :: "char \<Rightarrow> bool" where
  "isIdentByte c \<longleftrightarrow> c = CHR ''_'' \<or> is_lower c \<or> is_upper c \<or> is_digit c"

definition parseIdent :: "chparser \<Rightarrow> ch_error + string \<times> chparser" where
  "parseIdent p =
     (let q = skipSpace p;
          start = cp_pos q;
          r = q\<lparr>cp_pos := scan_while isIdentByte (cp_src q) start\<rparr>
      in if cp_pos r = start then Inl (errf r ExpectedTypeName)
         else Inr (take (cp_pos r - start) (drop start (cp_src r)), r))"

subsection \<open>String and integer literals\<close>

definition unescape_byte :: "char \<Rightarrow> char" where
  "unescape_byte c =
     (if c = CHR ''n'' then CHR 0x0A
      else if c = CHR ''t'' then CHR 0x09
      else if c = CHR ''r'' then CHR 0x0D
      else if c = CHR ''0'' then CHR 0x00 else c)"

function string_loop :: "string \<Rightarrow> chparser \<Rightarrow> ch_error + string \<times> chparser" where
  "string_loop sb p =
     (if cp_pos p < length (cp_src p) then
        (let c = cp_src p ! cp_pos p in
         if c = CHR 0x5C then
           (if cp_pos p + 1 \<ge> length (cp_src p) then Inl (errf p TrailingBackslash)
            else string_loop (sb @ [unescape_byte (cp_src p ! (cp_pos p + 1))])
                   (p\<lparr>cp_pos := cp_pos p + 2\<rparr>))
         else if c = CHR 0x27 then Inr (sb, p\<lparr>cp_pos := cp_pos p + 1\<rparr>)
         else string_loop (sb @ [c]) (p\<lparr>cp_pos := cp_pos p + 1\<rparr>))
      else Inl (errf p UnterminatedString))"
  by pat_completeness auto
termination
  by (relation "measure (\<lambda>(sb, p). length (cp_src p) - cp_pos p)") auto

declare string_loop.simps [simp del]

definition parseString :: "chparser \<Rightarrow> ch_error + string \<times> chparser" where
  "parseString p = res_bind (expect (CHR 0x27) p) (string_loop [])"

definition after_sign :: "string \<Rightarrow> nat \<Rightarrow> nat" where
  "after_sign s i =
     (if i < length s \<and> (s ! i = CHR ''-'' \<or> s ! i = CHR ''+'') then i + 1 else i)"

definition parseInt :: "chparser \<Rightarrow> ch_error + int \<times> chparser" where
  "parseInt p =
     (let q = skipSpace p;
          start = cp_pos q;
          s = cp_src q;
          r = q\<lparr>cp_pos := scan_while is_digit s (after_sign s start)\<rparr>;
          lit = take (cp_pos r - start) (drop start s)
      in if cp_pos r = start then Inl (errf r ExpectedNumber)
         else case atoi lit of None \<Rightarrow> Inl (errf r (BadNumber lit)) | Some n \<Rightarrow> Inr (n, r))"

subsection \<open>Parenthesised arguments\<close>

definition parenInt :: "chparser \<Rightarrow> ch_error + int \<times> chparser" where
  "parenInt p =
     res_bind (expect CHR ''('' p) (\<lambda>p1.
     res_bind (parseInt p1) (\<lambda>(n, p2).
     map_res (\<lambda>p3. (n, p3)) (expect CHR '')'' p2)))"

definition parenString :: "chparser \<Rightarrow> ch_error + string \<times> chparser" where
  "parenString p =
     res_bind (expect CHR ''('' p) (\<lambda>p1.
     res_bind (parseString p1) (\<lambda>(s, p2).
     map_res (\<lambda>p3. (s, p3)) (expect CHR '')'' p2)))"

text \<open>The parsers that call \<^verbatim>\<open>parseType\<close> back take it as their first argument.\<close>

definition parseParenType ::
    "(chparser \<Rightarrow> ch_error + chtype \<times> chparser) \<Rightarrow> chparser \<Rightarrow> ch_error + chtype \<times> chparser" where
  "parseParenType pt p =
     res_bind (expect CHR ''('' p) (\<lambda>p1.
     res_bind (pt p1) (\<lambda>(t, p2).
     map_res (\<lambda>p3. (t, p3)) (expect CHR '')'' p2)))"

subsection \<open>Enums\<close>

definition enum_lo :: "int \<Rightarrow> int" where
  "enum_lo bits = (if bits = 8 then - 128 else - 32768)"

definition enum_hi :: "int \<Rightarrow> int" where
  "enum_hi bits = (if bits = 8 then 127 else 32767)"

text \<open>One round of the loop of \<^verbatim>\<open>parseEnum\<close> reads \<^verbatim>\<open>'label' = value\<close>.\<close>

definition parse_enum_item :: "int \<Rightarrow> chparser \<Rightarrow> ch_error + (string \<times> 16 word) \<times> chparser" where
  "parse_enum_item bits p =
     res_bind (parseString p) (\<lambda>(label, p1).
     res_bind (expect CHR ''='' p1) (\<lambda>p2.
     res_bind (parseInt p2) (\<lambda>(v, p3).
       if v < enum_lo bits \<or> v > enum_hi bits then Inl (errf p3 (EnumOutOfRange bits v label))
       else Inr ((label, word_of_int v), p3))))"

primrec enum_loop ::
    "nat \<Rightarrow> int \<Rightarrow> (string \<times> 16 word) list \<Rightarrow> chparser
      \<Rightarrow> ch_error + (string \<times> 16 word) list \<times> chparser" where
  "enum_loop 0 bits acc p = Inl (errf p ParseFuel)"
| "enum_loop (Suc n) bits acc p =
     res_bind (parse_enum_item bits p) (\<lambda>(lv, p1).
       case accept CHR '','' p1 of (again, p2) \<Rightarrow>
         if again then enum_loop n bits (acc @ [lv]) p2 else Inr (acc @ [lv], p2))"

definition parseEnum :: "nat \<Rightarrow> int \<Rightarrow> chparser \<Rightarrow> ch_error + chtype \<times> chparser" where
  "parseEnum n bits p =
     res_bind (expect CHR ''('' p) (\<lambda>p1.
     res_bind (enum_loop n bits [] p1) (\<lambda>(lvs, p2).
     map_res (\<lambda>p3. (Enum bits lvs, p3)) (expect CHR '')'' p2)))"

subsection \<open>Tuples\<close>

text \<open>One round of the loop of \<^verbatim>\<open>parseTuple\<close>: an identifier is a field name unless a
  parenthesis or a comma follows it, in which case the position is restored and the element
  type is read from the identifier on. An unnamed element has the name \<^term>\<open>[]\<close>.\<close>

definition parse_tuple_item ::
    "(chparser \<Rightarrow> ch_error + chtype \<times> chparser) \<Rightarrow> chparser
      \<Rightarrow> ch_error + (bool \<times> string \<times> chtype) \<times> chparser" where
  "parse_tuple_item pt p =
     res_bind (parseIdent p) (\<lambda>(ident, p1).
       case ch_peek p1 of (nxt, p2) \<Rightarrow>
         if nxt \<noteq> CHR ''('' \<and> nxt \<noteq> CHR '','' \<and> nxt \<noteq> CHR '')''
         then map_res (\<lambda>(elem, p3). ((True, ident, elem), p3)) (pt p2)
         else map_res (\<lambda>(elem, p3). ((False, [], elem), p3)) (pt (p2\<lparr>cp_pos := cp_pos p\<rparr>)))"

primrec tuple_loop ::
    "(chparser \<Rightarrow> ch_error + chtype \<times> chparser) \<Rightarrow> nat \<Rightarrow> bool \<Rightarrow> string list \<Rightarrow> chtype list
      \<Rightarrow> chparser \<Rightarrow> ch_error + (bool \<times> string list \<times> chtype list) \<times> chparser" where
  "tuple_loop pt 0 named names elems p = Inl (errf p ParseFuel)"
| "tuple_loop pt (Suc n) named names elems p =
     res_bind (parse_tuple_item pt p) (\<lambda>((isname, name, elem), p1).
       case accept CHR '','' p1 of (again, p2) \<Rightarrow>
         if again then tuple_loop pt n (named \<or> isname) (names @ [name]) (elems @ [elem]) p2
         else Inr ((named \<or> isname, names @ [name], elems @ [elem]), p2))"

definition parseTuple ::
    "(chparser \<Rightarrow> ch_error + chtype \<times> chparser) \<Rightarrow> nat \<Rightarrow> chparser
      \<Rightarrow> ch_error + chtype \<times> chparser" where
  "parseTuple pt n p =
     res_bind (expect CHR ''('' p) (\<lambda>p1.
     res_bind (tuple_loop pt n False [] [] p1) (\<lambda>((named, names, elems), p2).
     map_res (\<lambda>p3. (Tuple (if named then names else []) elems, p3)) (expect CHR '')'' p2)))"

subsection \<open>Skipping the arguments of an unsupported type\<close>

text \<open>
  How an operation moves the position: \<open>settles\<close> may skip blanks and stays inside the source,
  \<open>advances\<close> consumes at least one byte.
\<close>

definition settles :: "chparser \<Rightarrow> chparser \<Rightarrow> bool" where
  "settles p q \<longleftrightarrow> cp_src q = cp_src p \<and> cp_pos p \<le> cp_pos q \<and>
     (cp_pos p \<le> length (cp_src p) \<longrightarrow> cp_pos q \<le> length (cp_src p))"

definition advances :: "chparser \<Rightarrow> chparser \<Rightarrow> bool" where
  "advances p q \<longleftrightarrow> cp_src q = cp_src p \<and> cp_pos p < cp_pos q \<and> cp_pos q \<le> length (cp_src p)"

lemma settles_refl [intro, simp]: "settles p p"
  by (simp add: settles_def)

lemma settles_trans: "settles p q \<Longrightarrow> settles q r \<Longrightarrow> settles p r"
  by (auto simp: settles_def)

lemma advances_imp_settles: "advances p q \<Longrightarrow> settles p q"
  by (auto simp: settles_def advances_def)

lemma advances_settles: "advances p q \<Longrightarrow> settles q r \<Longrightarrow> advances p r"
  by (auto simp: settles_def advances_def)

lemma settles_advances: "settles p q \<Longrightarrow> advances q r \<Longrightarrow> advances p r"
  by (auto simp: settles_def advances_def)

lemma advances_trans: "advances p q \<Longrightarrow> advances q r \<Longrightarrow> advances p r"
  by (blast intro: advances_settles advances_imp_settles)

lemma advances_same_pos:
  "cp_src q = cp_src p \<Longrightarrow> advances (q\<lparr>cp_pos := cp_pos p\<rparr>) r = advances p r"
  by (simp add: advances_def)

lemma skipSpace_src [simp]: "cp_src (skipSpace p) = cp_src p"
  by (simp add: skipSpace_def)

lemma skipSpace_settles: "settles p (skipSpace p)"
  by (auto simp: settles_def skipSpace_def intro: scan_while_ge scan_while_le)

lemma ch_peek_settles: "ch_peek p = (c, q) \<Longrightarrow> settles p q"
  using skipSpace_settles [of p] by (auto simp: ch_peek_def Let_def)

lemma accept_settles: "accept c p = (False, q) \<Longrightarrow> settles p q"
  by (auto simp: accept_def split: prod.splits if_splits dest: ch_peek_settles)

lemma accept_advances: "accept c p = (True, q) \<Longrightarrow> c \<noteq> CHR 0x00 \<Longrightarrow> advances p q"
  using skipSpace_settles [of p]
  by (auto simp: accept_def ch_peek_def Let_def settles_def advances_def split: if_splits)

lemma accept_then:
  assumes "accept c p = (b, q)" "c \<noteq> CHR 0x00" "if b then advances q r else r = q"
  shows "settles p r"
proof (cases b)
  case True
  with assms have "advances p q" "advances q r" by (simp_all add: accept_advances)
  then show ?thesis by (rule advances_trans [THEN advances_imp_settles])
next
  case False
  with assms show ?thesis by (simp add: accept_settles)
qed

lemma expect_advances: "expect c p = Inr q \<Longrightarrow> c \<noteq> CHR 0x00 \<Longrightarrow> advances p q"
  by (auto simp: expect_def split: prod.splits if_splits dest: accept_advances)

lemma string_loop_advances: "string_loop sb p = Inr (s, q) \<Longrightarrow> advances p q"
proof (induction sb p rule: string_loop.induct)
  case (1 sb p)
  from 1(3) show ?case
    using 1(1) [OF _ refl] 1(2) [OF _ refl]
    by (subst (asm) string_loop.simps) (force simp: Let_def advances_def split: if_splits)
qed

lemma parseString_advances: "parseString p = Inr (s, q) \<Longrightarrow> advances p q"
  by (fastforce simp: parseString_def
      intro: advances_trans dest: expect_advances string_loop_advances)

function balanced_loop :: "nat \<Rightarrow> chparser \<Rightarrow> ch_error + chparser" where
  "balanced_loop depth p =
     (if cp_pos p < length (cp_src p) then
        (let c = cp_src p ! cp_pos p in
         if c = CHR 0x27 then
           (case parseString p of Inl e \<Rightarrow> Inl e | Inr (_, q) \<Rightarrow> balanced_loop depth q)
         else if c = CHR ''('' then balanced_loop (Suc depth) (p\<lparr>cp_pos := cp_pos p + 1\<rparr>)
         else if c = CHR '')'' then
           (if depth = 1 then Inr (p\<lparr>cp_pos := cp_pos p + 1\<rparr>)
            else balanced_loop (depth - 1) (p\<lparr>cp_pos := cp_pos p + 1\<rparr>))
         else balanced_loop depth (p\<lparr>cp_pos := cp_pos p + 1\<rparr>))
      else Inl (errf p UnbalancedParens))"
  by pat_completeness auto
termination
proof (relation "measure (\<lambda>(depth, p). length (cp_src p) - cp_pos p)", goal_cases)
  case (2 depth p c e x q)
  then show ?case
    by (auto simp: advances_def dest!: sym [of "(x, q)"] parseString_advances
        intro: diff_less_mono2)
qed auto

declare balanced_loop.simps [simp del]

definition skipBalanced :: "chparser \<Rightarrow> ch_error + chparser" where
  "skipBalanced p = res_bind (expect CHR ''('' p) (balanced_loop 1)"

subsection \<open>Types\<close>

definition decimalPrecision :: "string \<Rightarrow> int" where
  "decimalPrecision name =
     (if name = ''Decimal32'' then 9 else if name = ''Decimal64'' then 18
      else if name = ''Decimal128'' then 38 else 76)"

definition bare_type :: "string \<Rightarrow> chtype" where
  "bare_type name =
     (if name = ''DateTime'' then DateTime []
      else if name = ''DateTime64'' then DateTime64 3 []
      else Scalar name)"

definition parse_map :: "(chparser \<Rightarrow> ch_error + chtype \<times> chparser) \<Rightarrow> chparser
    \<Rightarrow> ch_error + chtype \<times> chparser" where
  "parse_map pt p =
     res_bind (expect CHR ''('' p) (\<lambda>p1.
     res_bind (pt p1) (\<lambda>(key, p2).
     res_bind (expect CHR '','' p2) (\<lambda>p3.
     res_bind (pt p3) (\<lambda>(val, p4).
     map_res (\<lambda>p5. (Map key val, p5)) (expect CHR '')'' p4)))))"

definition parse_decimal :: "chparser \<Rightarrow> ch_error + chtype \<times> chparser" where
  "parse_decimal p =
     res_bind (expect CHR ''('' p) (\<lambda>p1.
     res_bind (parseInt p1) (\<lambda>(prec, p2).
     res_bind (expect CHR '','' p2) (\<lambda>p3.
     res_bind (parseInt p3) (\<lambda>(scale, p4).
     map_res (\<lambda>p5. (Decimal prec scale, p5)) (expect CHR '')'' p4)))))"

definition parse_datetime64 :: "chparser \<Rightarrow> ch_error + chtype \<times> chparser" where
  "parse_datetime64 p =
     res_bind (expect CHR ''('' p) (\<lambda>p1.
     res_bind (parseInt p1) (\<lambda>(prec, p2).
     case accept CHR '','' p2 of (again, p3) \<Rightarrow>
     res_bind (if again then parseString p3 else Inr ([], p3)) (\<lambda>(tz, p4).
     map_res (\<lambda>p5. (DateTime64 prec tz, p5)) (expect CHR '')'' p4))))"

text \<open>The \<^verbatim>\<open>switch name\<close> of \<^verbatim>\<open>parseType\<close>, reached when an opening parenthesis follows the
  name; \<^verbatim>\<open>openIdx\<close> is the position at which \<^verbatim>\<open>parseType\<close> was entered.\<close>

definition parse_switch ::
    "(chparser \<Rightarrow> ch_error + chtype \<times> chparser) \<Rightarrow> nat \<Rightarrow> nat \<Rightarrow> string \<Rightarrow> chparser
      \<Rightarrow> ch_error + chtype \<times> chparser" where
  "parse_switch pt n openIdx name p =
     (if name = ''Nullable'' then map_res (\<lambda>(t, q). (Nullable t, q)) (parseParenType pt p)
      else if name = ''LowCardinality'' then
        map_res (\<lambda>(t, q). (LowCardinality t, q)) (parseParenType pt p)
      else if name = ''Array'' then map_res (\<lambda>(t, q). (Array t, q)) (parseParenType pt p)
      else if name = ''Map'' then parse_map pt p
      else if name = ''FixedString'' then map_res (\<lambda>(k, q). (FixedString k, q)) (parenInt p)
      else if name = ''Decimal'' then parse_decimal p
      else if name \<in> set [''Decimal32'', ''Decimal64'', ''Decimal128'', ''Decimal256''] then
        map_res (\<lambda>(scale, q). (Decimal (decimalPrecision name) scale, q)) (parenInt p)
      else if name = ''DateTime'' then map_res (\<lambda>(tz, q). (DateTime tz, q)) (parenString p)
      else if name = ''DateTime64'' then parse_datetime64 p
      else if name = ''Enum8'' then parseEnum n 8 p
      else if name = ''Enum16'' then parseEnum n 16 p
      else if name = ''Tuple'' then parseTuple pt n p
      else map_res (\<lambda>q. (Unsupported (take (cp_pos q - openIdx) (drop openIdx (cp_src q))), q))
             (skipBalanced p))"

primrec parseType :: "nat \<Rightarrow> chparser \<Rightarrow> ch_error + chtype \<times> chparser" where
  "parseType 0 p = Inl (errf p ParseFuel)"
| "parseType (Suc n) p =
     res_bind (parseIdent p) (\<lambda>(name, p1).
       case ch_peek p1 of (c, p2) \<Rightarrow>
         if c \<noteq> CHR ''('' then Inr (bare_type name, p2)
         else parse_switch (parseType n) n (cp_pos p) name p2)"

definition Parse :: "string \<Rightarrow> ch_error + chtype" where
  "Parse name =
     res_bind (parseType (length name + 1) \<lparr>cp_src = name, cp_pos = 0\<rparr>) (\<lambda>(t, p).
       let q = skipSpace p in
       if cp_pos q \<noteq> length (cp_src q)
       then Inl (errf q (UnexpectedTrailing (drop (cp_pos q) (cp_src q))))
       else Inr t)"

end
