(* ===== verification/ChParseFacts.thy ===== *)
theory ChParseFacts
  imports ChParse
begin

text \<open>
  Progress and termination of the ClickHouse type parser: every successful parse consumes at
  least one byte and stays inside the source, and the fuel of \<open>Parse\<close> is never used up. The
  parsers that call \<^verbatim>\<open>parseType\<close> back are verified once, against the contract of that call.
\<close>

subsection \<open>Progress of the leaf parsers\<close>

lemma balanced_loop_advances: "balanced_loop d p = Inr q \<Longrightarrow> advances p q"
proof (induction d p rule: balanced_loop.induct)
  case (1 d p)
  from 1(5) show ?case
    using 1(1) [OF _ refl] 1(2,3,4) [OF _ refl]
    by (subst (asm) balanced_loop.simps)
      (force simp: Let_def advances_def split: if_splits sum.splits
        dest!: parseString_advances)
qed

lemma skipBalanced_advances: "skipBalanced p = Inr q \<Longrightarrow> advances p q"
  by (fastforce simp: skipBalanced_def
      intro: advances_trans dest: expect_advances balanced_loop_advances)

lemma parseIdent_advances:
  assumes "parseIdent p = Inr (name, q)"
  shows "advances p q"
proof -
  let ?j = "scan_while isIdentByte (cp_src p) (cp_pos (skipSpace p))"
  from assms have "?j \<noteq> cp_pos (skipSpace p)" and q: "q = (skipSpace p)\<lparr>cp_pos := ?j\<rparr>"
    by (auto simp: parseIdent_def Let_def split: if_splits)
  with scan_while_moved have "advances (skipSpace p) q"
    by (simp add: advances_def)
  with skipSpace_settles show ?thesis by (rule settles_advances)
qed

lemma parseInt_advances:
  assumes "parseInt p = Inr (n, q)"
  shows "advances p q"
proof -
  let ?s = "cp_src p" and ?k = "cp_pos (skipSpace p)"
  let ?j = "scan_while is_digit ?s (after_sign ?s ?k)"
  from assms have ne: "?j \<noteq> ?k" and q: "q = (skipSpace p)\<lparr>cp_pos := ?j\<rparr>"
    by (auto simp: parseInt_def Let_def split: if_splits option.splits)
  have "?k < ?j \<and> ?j \<le> length ?s"
  proof (cases "after_sign ?s ?k = ?k")
    case True
    with ne scan_while_moved [of is_digit ?s ?k] show ?thesis by simp
  next
    case False
    then have "after_sign ?s ?k = ?k + 1" and "?k < length ?s"
      by (auto simp: after_sign_def split: if_splits)
    then show ?thesis
      using scan_while_ge [of "?k + 1" is_digit ?s] scan_while_le [of "?k + 1" ?s is_digit] by simp
  qed
  with q have "advances (skipSpace p) q" by (simp add: advances_def)
  with skipSpace_settles show ?thesis by (rule settles_advances)
qed

lemmas leaf_advances =
  expect_advances accept_advances parseString_advances parseIdent_advances parseInt_advances
  skipBalanced_advances

lemma parse_enum_item_advances: "parse_enum_item bits p = Inr (x, q) \<Longrightarrow> advances p q"
  by (auto simp: parse_enum_item_def advances_def dest!: leaf_advances split: if_splits)

lemma enum_loop_advances: "enum_loop n bits acc p = Inr (x, q) \<Longrightarrow> advances p q"
proof (induction n arbitrary: acc p)
  case (Suc n)
  from Suc.prems obtain lv p1 where p1: "parse_enum_item bits p = Inr (lv, p1)" by auto
  obtain b p2 where p2: "accept CHR '','' p1 = (b, p2)" by (cases "accept CHR '','' p1")
  from Suc.prems p1 p2 have
    rest: "(b \<and> (\<exists>acc. enum_loop n bits acc p2 = Inr (x, q))) \<or> (\<not> b \<and> q = p2)"
    by (auto split: if_splits)
  from p1 have "advances p p1" by (rule parse_enum_item_advances)
  moreover from p2 rest have "settles p1 q"
    by (auto intro!: accept_then [OF p2] dest: Suc.IH)
  ultimately show ?case by (rule advances_settles)
qed simp

lemma arg_parsers_advance:
  "parenInt p = Inr (k, q) \<Longrightarrow> advances p q"
  "parenString p = Inr (s, q) \<Longrightarrow> advances p q"
  "parse_decimal p = Inr (t, q) \<Longrightarrow> advances p q"
  "parseEnum n bits p = Inr (t, q) \<Longrightarrow> advances p q"
  by (auto simp: parenInt_def parenString_def parse_decimal_def parseEnum_def advances_def
      dest!: leaf_advances enum_loop_advances)

lemma parse_datetime64_advances:
  assumes "parse_datetime64 p = Inr (t, q)"
  shows "advances p q"
proof -
  from assms obtain p1 k p2 where
    p1: "expect CHR ''('' p = Inr p1" and p2: "parseInt p1 = Inr (k, p2)"
    by (auto simp: parse_datetime64_def)
  obtain b p3 where p3: "accept CHR '','' p2 = (b, p3)" by (cases "accept CHR '','' p2")
  from assms p1 p2 p3 obtain tz p4 where
    p4: "(if b then parseString p3 else Inr ([], p3)) = Inr (tz, p4)" and
    q: "expect CHR '')'' p4 = Inr q"
    by (auto simp: parse_datetime64_def)
  from p4 have "settles p2 p4"
    by (cases b) (auto intro!: accept_then [OF p3] dest: parseString_advances)
  with p1 p2 q show ?thesis
    by (auto simp: advances_def settles_def dest!: leaf_advances)
qed

text \<open>A result that, when it is a success, advances.\<close>

definition adv_res :: "chparser \<Rightarrow> ch_error + 'a \<times> chparser \<Rightarrow> bool" where
  "adv_res p r \<longleftrightarrow> (\<forall>x q. r = Inr (x, q) \<longrightarrow> advances p q)"

lemma adv_resI: "(\<And>x q. r = Inr (x, q) \<Longrightarrow> advances p q) \<Longrightarrow> adv_res p r"
  by (simp add: adv_res_def)

lemma adv_res_if: "adv_res p a \<Longrightarrow> adv_res p b \<Longrightarrow> adv_res p (if c then a else b)"
  by simp

subsection \<open>The contract of a type parser\<close>

text \<open>What \<^verbatim>\<open>parseParenType\<close>, the \<^verbatim>\<open>Map\<close> case and \<^verbatim>\<open>parseTuple\<close> rely on in the parser they
  call back: a successful call advances.\<close>

locale type_parser =
  fixes pt :: "chparser \<Rightarrow> ch_error + chtype \<times> chparser"
  assumes pt_advances: "pt p = Inr (t, q) \<Longrightarrow> advances p q"
begin

lemma parseParenType_advances: "parseParenType pt p = Inr (t, q) \<Longrightarrow> advances p q"
  by (auto simp: parseParenType_def advances_def dest!: leaf_advances pt_advances)

lemma parse_map_advances: "parse_map pt p = Inr (t, q) \<Longrightarrow> advances p q"
  by (auto simp: parse_map_def advances_def dest!: leaf_advances pt_advances)

lemma parse_tuple_item_advances:
  assumes "parse_tuple_item pt p = Inr (x, q)"
  shows "advances p q"
proof -
  from assms obtain ident p1 where p1: "parseIdent p = Inr (ident, p1)"
    by (auto simp: parse_tuple_item_def)
  obtain c p2 where p2: "ch_peek p1 = (c, p2)" by (cases "ch_peek p1")
  from assms p1 p2 obtain t where
    q: "pt p2 = Inr (t, q) \<or> pt (p2\<lparr>cp_pos := cp_pos p\<rparr>) = Inr (t, q)"
    by (auto simp: parse_tuple_item_def split: if_splits)
  from p1 p2 have adv: "advances p p2"
    by (blast intro: advances_settles dest: parseIdent_advances ch_peek_settles)
  from q show ?thesis
  proof
    assume "pt p2 = Inr (t, q)"
    with adv show ?thesis by (blast intro: advances_trans dest: pt_advances)
  next
    assume "pt (p2\<lparr>cp_pos := cp_pos p\<rparr>) = Inr (t, q)"
    then have "advances (p2\<lparr>cp_pos := cp_pos p\<rparr>) q" by (rule pt_advances)
    with adv show ?thesis by (simp add: advances_same_pos advances_def)
  qed
qed

lemma tuple_loop_advances:
  "tuple_loop pt n named names elems p = Inr (x, q) \<Longrightarrow> advances p q"
proof (induction n arbitrary: named names elems p)
  case (Suc n)
  from Suc.prems obtain i nm e p1 where p1: "parse_tuple_item pt p = Inr ((i, nm, e), p1)"
    by auto
  obtain b p2 where p2: "accept CHR '','' p1 = (b, p2)" by (cases "accept CHR '','' p1")
  from Suc.prems p1 p2 have
    rest: "(b \<and> (\<exists>nm ns es. tuple_loop pt n nm ns es p2 = Inr (x, q))) \<or> (\<not> b \<and> q = p2)"
    by (auto split: if_splits)
  from p1 have "advances p p1" by (rule parse_tuple_item_advances)
  moreover from p2 rest have "settles p1 q"
    by (auto intro!: accept_then [OF p2] dest: Suc.IH)
  ultimately show ?case by (rule advances_settles)
qed simp

lemma parseTuple_advances: "parseTuple pt n p = Inr (t, q) \<Longrightarrow> advances p q"
  by (auto simp: parseTuple_def advances_def dest!: leaf_advances tuple_loop_advances)

lemma parse_switch_advances: "adv_res p (parse_switch pt n openIdx name p)"
  unfolding parse_switch_def
  by (intro adv_res_if adv_resI)
    (auto dest: parseParenType_advances parse_map_advances parseTuple_advances
      arg_parsers_advance parse_datetime64_advances skipBalanced_advances)

end

lemma parseType_type_parser: "type_parser (parseType n)"
proof (induction n)
  case 0
  show ?case by unfold_locales simp
next
  case (Suc n)
  show ?case
  proof
    fix p t q
    assume ok: "parseType (Suc n) p = Inr (t, q)"
    then obtain name p1 where p1: "parseIdent p = Inr (name, p1)" by auto
    obtain c p2 where p2: "ch_peek p1 = (c, p2)" by (cases "ch_peek p1")
    from p1 p2 have adv: "advances p p2"
      by (blast intro: advances_settles dest: parseIdent_advances ch_peek_settles)
    from ok p1 p2 have "settles p2 q"
      using type_parser.parse_switch_advances [OF Suc.IH, of p2 n "cp_pos p" name]
      by (auto simp: adv_res_def advances_imp_settles split: if_splits)
    with adv show "advances p q" by (rule advances_settles)
  qed
qed

interpretation ch: type_parser "parseType n" for n
  by (rule parseType_type_parser)

subsection \<open>The fuel suffices\<close>

definition rem :: "chparser \<Rightarrow> nat" where
  "rem p = length (cp_src p) - cp_pos p"

definition fuel_ok :: "ch_error + 'a \<Rightarrow> bool" where
  "fuel_ok r \<longleftrightarrow> (\<forall>s k. r \<noteq> Inl (ChError s k ParseFuel))"

lemma fuel_ok_simps [simp]:
  "fuel_ok (Inr x)"
  "fuel_ok (Inl (errf p m)) \<longleftrightarrow> m \<noteq> ParseFuel"
  by (auto simp: fuel_ok_def errf_def)

lemma fuel_ok_bind:
  "fuel_ok m \<Longrightarrow> (\<And>x. m = Inr x \<Longrightarrow> fuel_ok (f x)) \<Longrightarrow> fuel_ok (res_bind m f)"
  by (cases m) (simp_all add: fuel_ok_def)

lemma fuel_ok_map [simp]: "fuel_ok (map_res f m) = fuel_ok m"
  by (cases m) (simp_all add: fuel_ok_def)

lemma advances_rem: "advances p q \<Longrightarrow> rem q < rem p"
  by (auto simp: advances_def rem_def)

lemma settles_rem: "settles p q \<Longrightarrow> rem q \<le> rem p"
  by (auto simp: settles_def rem_def)

lemma fuel_ok_expect [simp]: "fuel_ok (expect c p)"
  by (simp add: expect_def split: prod.split)

lemma fuel_ok_string_loop: "fuel_ok (string_loop sb p)"
proof (induction sb p rule: string_loop.induct)
  case (1 sb p)
  then show ?case by (subst string_loop.simps) (simp add: Let_def)
qed

lemma fuel_ok_leaf [simp]:
  "fuel_ok (parseString p)" "fuel_ok (parseInt p)" "fuel_ok (parseIdent p)"
  by (auto simp: parseString_def parseInt_def parseIdent_def Let_def
      intro!: fuel_ok_bind fuel_ok_string_loop split: option.split)

lemma fuel_ok_balanced_loop: "fuel_ok (balanced_loop d p)"
proof (induction d p rule: balanced_loop.induct)
  case (1 d p)
  show ?case
    using 1(1) [OF _ refl] 1(2,3,4) [OF _ refl] fuel_ok_leaf(1) [of p]
    by (subst balanced_loop.simps)
      (auto simp: Let_def fuel_ok_def errf_def split: sum.split)
qed

lemma fuel_ok_args [simp]:
  "fuel_ok (parenInt p)" "fuel_ok (parenString p)" "fuel_ok (parse_decimal p)"
  "fuel_ok (parse_datetime64 p)" "fuel_ok (skipBalanced p)" "fuel_ok (parse_enum_item bits p)"
  by (auto simp: parenInt_def parenString_def parse_decimal_def parse_datetime64_def
      skipBalanced_def parse_enum_item_def intro!: fuel_ok_bind fuel_ok_balanced_loop
      split: prod.split)

lemma fuel_ok_enum_loop: "rem p < n \<Longrightarrow> fuel_ok (enum_loop n bits acc p)"
proof (induction n arbitrary: acc p)
  case (Suc n)
  have "fuel_ok (enum_loop n bits acc' p2)"
    if "parse_enum_item bits p = Inr (lv, p1)" "accept CHR '','' p1 = (True, p2)" for lv p1 p2 acc'
    using that Suc.prems
    by (auto intro!: Suc.IH dest!: parse_enum_item_advances accept_advances advances_rem)
  then show ?case by (auto intro!: fuel_ok_bind split: prod.split)
qed simp

lemma fuel_ok_parseEnum: "rem p < n \<Longrightarrow> fuel_ok (parseEnum n bits p)"
  by (auto simp: parseEnum_def intro!: fuel_ok_bind fuel_ok_enum_loop
      dest!: expect_advances advances_rem)

lemma fuel_ok_if: "fuel_ok a \<Longrightarrow> fuel_ok b \<Longrightarrow> fuel_ok (if c then a else b)"
  by simp

text \<open>A type parser that never runs out of fuel below a given amount of remaining input.\<close>

locale fueled_parser = type_parser +
  fixes bound :: nat
  assumes pt_fuel: "rem p < bound \<Longrightarrow> fuel_ok (pt p)"
begin

lemma fuel_ok_paren: "rem p < bound \<Longrightarrow> fuel_ok (parseParenType pt p)"
  by (auto simp: parseParenType_def intro!: fuel_ok_bind pt_fuel
      dest!: expect_advances advances_rem)

lemma fuel_ok_map_type: "rem p < bound \<Longrightarrow> fuel_ok (parse_map pt p)"
  by (auto simp: parse_map_def intro!: fuel_ok_bind pt_fuel
      dest!: expect_advances pt_advances advances_rem)

lemma fuel_ok_tuple_item:
  assumes "rem p < bound"
  shows "fuel_ok (parse_tuple_item pt p)"
proof -
  have "fuel_ok (pt p2) \<and> fuel_ok (pt (p2\<lparr>cp_pos := cp_pos p\<rparr>))"
    if p1: "parseIdent p = Inr (ident, p1)" and p2: "ch_peek p1 = (c, p2)" for ident p1 c p2
  proof -
    from p1 p2 have "advances p p2"
      by (blast intro: advances_settles dest: parseIdent_advances ch_peek_settles)
    then have "rem p2 < bound" and "rem (p2\<lparr>cp_pos := cp_pos p\<rparr>) < bound"
      using assms by (auto simp: advances_def rem_def)
    then show ?thesis by (blast intro: pt_fuel)
  qed
  then show ?thesis
    by (auto simp: parse_tuple_item_def intro!: fuel_ok_bind split: prod.split)
qed

lemma fuel_ok_tuple_loop:
  "rem p < bound \<Longrightarrow> rem p < n \<Longrightarrow> fuel_ok (tuple_loop pt n named names elems p)"
proof (induction n arbitrary: named names elems p)
  case (Suc n)
  have "fuel_ok (tuple_loop pt n nm ns es p2)"
    if "parse_tuple_item pt p = Inr (y, p1)" "accept CHR '','' p1 = (True, p2)" for y p1 p2 nm ns es
    using that Suc.prems
    by (auto intro!: Suc.IH dest!: parse_tuple_item_advances accept_advances advances_rem)
  with Suc.prems show ?case
    by (auto intro!: fuel_ok_bind fuel_ok_tuple_item split: prod.split)
qed simp

lemma fuel_ok_parseTuple: "rem p < bound \<Longrightarrow> fuel_ok (parseTuple pt bound p)"
  by (auto simp: parseTuple_def intro!: fuel_ok_bind fuel_ok_tuple_loop
      dest!: expect_advances advances_rem)

lemma fuel_ok_parse_switch:
  assumes "rem p < bound"
  shows "fuel_ok (parse_switch pt bound openIdx name p)"
  unfolding parse_switch_def
  using fuel_ok_paren [OF assms] fuel_ok_map_type [OF assms] fuel_ok_parseTuple [OF assms]
    fuel_ok_parseEnum [OF assms]
  by (intro fuel_ok_if) simp_all

end

lemma parseType_fueled: "fueled_parser (parseType n) n"
proof (induction n)
  case 0
  show ?case by unfold_locales simp
next
  case (Suc n)
  show ?case
  proof
    fix p assume rem: "rem p < Suc n"
    have step: "rem p2 < n"
      if "parseIdent p = Inr (name, p1)" "ch_peek p1 = (c, p2)" for name p1 c p2
      using that rem
      by (auto dest!: parseIdent_advances ch_peek_settles advances_rem settles_rem)
    show "fuel_ok (parseType (Suc n) p)"
      by (auto intro!: fuel_ok_bind fueled_parser.fuel_ok_parse_switch [OF Suc.IH] step
          split: prod.split)
  qed
qed

interpretation ch_fuel: fueled_parser "parseType n" n for n
  by (rule parseType_fueled)

lemma Parse_fuel_ok: "fuel_ok (Parse name)"
  by (auto simp: Parse_def Let_def rem_def simp del: parseType.simps
      intro!: fuel_ok_bind ch_fuel.pt_fuel)

end
