(* ===== verification/ChRoundTrip.thy ===== *)
theory ChRoundTrip
  imports ChParseFacts
begin

text \<open>
  Printing and parsing of ClickHouse types agree: \<open>Parse\<close> reads back the canonical spelling
  of every well-formed type, and every type \<open>Parse\<close> returns is well formed unless it contains
  an \<open>Unsupported\<close> part.
\<close>

subsection \<open>The input still to be read\<close>

definition rest :: "chparser \<Rightarrow> string" where
  "rest p = drop (cp_pos p) (cp_src p)"

definition advance :: "nat \<Rightarrow> chparser \<Rightarrow> chparser" where
  "advance k p = p\<lparr>cp_pos := cp_pos p + k\<rparr>"

lemma rest_advance [simp]: "rest (advance k p) = drop k (rest p)"
  by (simp add: rest_def advance_def add.commute)

lemma advance_advance [simp]: "advance j (advance k p) = advance (k + j) p"
  by (simp add: advance_def)

lemma advance_0 [simp]: "advance 0 p = p"
  by (simp add: advance_def)

lemma advance_back [simp]: "(advance k p)\<lparr>cp_pos := cp_pos p\<rparr> = p"
  by (simp add: advance_def)

lemma advance_proj [simp]:
  "cp_src (advance k p) = cp_src p" "cp_pos (advance k p) = cp_pos p + k"
  by (simp_all add: advance_def)

lemma rem_rest: "rem p = length (rest p)"
  by (simp add: rem_def rest_def)

lemma rest_Cons:
  assumes "rest p = c # r"
  shows "cp_pos p < length (cp_src p)" "cp_src p ! cp_pos p = c"
proof -
  show "cp_pos p < length (cp_src p)"
    using assms by (cases "cp_pos p < length (cp_src p)") (simp_all add: rest_def)
  then show "cp_src p ! cp_pos p = c"
    using assms by (metis Cons_nth_drop_Suc list.inject rest_def)
qed

lemma rest_nth:
  assumes "k < length (rest p)"
  shows "cp_pos p + k < length (cp_src p)" "cp_src p ! (cp_pos p + k) = rest p ! k"
  using assms by (simp_all add: rest_def add.commute)

lemma drop_rest: "drop (cp_pos p + k) (cp_src p) = drop k (rest p)"
  by (simp add: rest_def add.commute)

lemma scan_rest:
  "p\<lparr>cp_pos := scan_while P (cp_src p) (cp_pos p)\<rparr> = advance (length (takeWhile P (rest p))) p"
  by (simp add: advance_def rest_def scan_while_eq)

lemma skipSpace_rest: "skipSpace p = advance (length (takeWhile is_space_byte (rest p))) p"
  by (simp add: skipSpace_def scan_rest)

abbreviation blanks :: "string \<Rightarrow> bool" where
  "blanks ws \<equiv> list_all is_space_byte ws"

text \<open>A string that does not start with a byte of the given class.\<close>

definition stops :: "(char \<Rightarrow> bool) \<Rightarrow> string \<Rightarrow> bool" where
  "stops P r \<longleftrightarrow> (r \<noteq> [] \<longrightarrow> \<not> P (hd r))"

lemma stops_simps [simp]: "stops P []" "stops P (c # r) \<longleftrightarrow> \<not> P c"
  by (simp_all add: stops_def)

lemma takeWhile_stops: "list_all P xs \<Longrightarrow> stops P r \<Longrightarrow> takeWhile P (xs @ r) = xs"
  by (induction xs) (cases r, simp_all)

lemma skipSpace_blanks:
  "rest p = ws @ r \<Longrightarrow> blanks ws \<Longrightarrow> stops is_space_byte r \<Longrightarrow> skipSpace p = advance (length ws) p"
  by (simp add: skipSpace_rest takeWhile_stops)

subsection \<open>Reading single tokens\<close>

lemma ch_peek_char:
  assumes "rest p = ws @ c # r" "blanks ws" "\<not> is_space_byte c"
  shows "ch_peek p = (c, advance (length ws) p)"
proof -
  have q: "skipSpace p = advance (length ws) p"
    using assms by (simp add: skipSpace_blanks)
  have "rest (advance (length ws) p) = c # r" using assms by simp
  from rest_Cons [OF this] q show ?thesis by (simp add: ch_peek_def Let_def)
qed

lemma expect_char:
  "rest p = ws @ c # r \<Longrightarrow> blanks ws \<Longrightarrow> \<not> is_space_byte c \<Longrightarrow>
     expect c p = Inr (advance (length ws + 1) p)"
  by (simp add: expect_def accept_def ch_peek_char advance_def)

lemma accept_char:
  "rest p = c # r \<Longrightarrow> \<not> is_space_byte c \<Longrightarrow>
     accept d p = (if c = d then (True, advance 1 p) else (False, p))"
  using ch_peek_char [of p "[]" c r] by (simp add: accept_def advance_def)

lemma ident_not_space: "isIdentByte c \<Longrightarrow> \<not> is_space_byte c"
  by (auto simp: isIdentByte_def is_space_byte_def is_lower_def is_upper_def is_digit_def
      in_range_def)

lemma parseIdent_name:
  assumes "rest p = ws @ name @ r" "blanks ws" "name \<noteq> []" "list_all isIdentByte name"
    "stops isIdentByte r"
  shows "parseIdent p = Inr (name, advance (length ws + length name) p)"
proof -
  have "stops is_space_byte (name @ r)"
    using assms(3,4) by (cases name) (auto dest: ident_not_space)
  then have q: "skipSpace p = advance (length ws) p"
    using assms(1,2) by (simp add: skipSpace_blanks)
  let ?k = "cp_pos p + length ws" and ?s = "cp_src p"
  have "drop ?k ?s = name @ r" using assms(1) by (simp add: drop_rest)
  then have "scan_while isIdentByte ?s ?k = ?k + length name" and
    "take (length name) (drop ?k ?s) = name"
    using assms(4,5) by (simp_all add: scan_while_eq takeWhile_stops)
  with q assms(3) show ?thesis by (simp add: parseIdent_def Let_def advance_def)
qed

lemma string_loop_quoted:
  "rest p = concat (map quote_char s) @ CHR 0x27 # r \<Longrightarrow>
     string_loop sb p = Inr (sb @ s, advance (length (concat (map quote_char s)) + 1) p)"
proof (induction s arbitrary: sb p)
  case Nil
  then have "rest p = CHR 0x27 # r" by simp
  from rest_Cons [OF this] show ?case
    by (subst string_loop.simps) (simp add: advance_def)
next
  case (Cons c s)
  let ?q = "advance (length (quote_char c)) p"
  have "rest ?q = concat (map quote_char s) @ CHR 0x27 # r"
    using Cons.prems by simp
  note IH = Cons.IH [OF this]
  show ?case
  proof (cases "c = CHR 0x5C \<or> c = CHR 0x27")
    case True
    with Cons.prems have p: "rest p = CHR 0x5C # c # concat (map quote_char s) @ CHR 0x27 # r"
      by auto
    from True have "unescape_byte c = c" by (auto simp: unescape_byte_def)
    moreover have "cp_pos p + 1 < length (cp_src p)" "cp_src p ! (cp_pos p + 1) = c"
      using rest_nth [of 1 p] p by simp_all
    ultimately show ?thesis
      using rest_Cons [OF p] True IH [of "sb @ [c]"]
      by (subst string_loop.simps) (auto simp: advance_def)
  next
    case False
    with Cons.prems have p: "rest p = c # concat (map quote_char s) @ CHR 0x27 # r"
      by auto
    show ?thesis
      using rest_Cons [OF p] False IH [of "sb @ [c]"]
      by (subst string_loop.simps) (auto simp: advance_def)
  qed
qed

lemma parseString_quote:
  assumes "rest p = ws @ quote s @ r" "blanks ws"
  shows "parseString p = Inr (s, advance (length ws + length (quote s)) p)"
proof -
  have "expect (CHR 0x27) p = Inr (advance (length ws + 1) p)"
    using assms by (intro expect_char) (auto simp: quote_def is_space_byte_def)
  moreover have "rest (advance (length ws + 1) p) = concat (map quote_char s) @ CHR 0x27 # r"
    using assms by (simp add: quote_def)
  ultimately show ?thesis
    by (simp add: parseString_def string_loop_quoted quote_def)
qed

lemma digit_not_space: "is_digit c \<Longrightarrow> \<not> is_space_byte c"
  by (auto simp: is_space_byte_def is_digit_def in_range_def)

text \<open>The sign and the digits of a printed integer.\<close>

lemma itoa_split: "\<exists>sg ds. itoa z = sg @ ds \<and> (sg = [] \<or> sg = ''-'') \<and> ds \<noteq> [] \<and> list_all is_digit ds"
proof (cases "z < 0")
  case True
  then have "itoa z = ''-'' @ nat_digits (nat (- z))" by (simp add: itoa_def)
  then show ?thesis using nat_digits_ne nat_digits_all by blast
next
  case False
  then have "itoa z = [] @ nat_digits (nat z)" by (simp add: itoa_def)
  then show ?thesis using nat_digits_ne nat_digits_all by blast
qed

lemma parseInt_itoa:
  assumes rest: "rest p = ws @ itoa z @ r" and ws: "blanks ws" and r: "stops is_digit r"
    and z: "in_int64 z"
  shows "parseInt p = Inr (z, advance (length ws + length (itoa z)) p)"
proof -
  obtain sg ds where itoa: "itoa z = sg @ ds" and sg: "sg = [] \<or> sg = ''-''" and
    ne: "ds \<noteq> []" and ds: "list_all is_digit ds"
    using itoa_split by blast
  have "stops is_space_byte (itoa z @ r)"
    using sg ne ds itoa by (cases ds) (auto simp: is_space_byte_def dest: digit_not_space)
  then have q: "skipSpace p = advance (length ws) p"
    using rest ws by (simp add: skipSpace_blanks)
  let ?k = "cp_pos p + length ws" and ?s = "cp_src p"
  have rk: "rest (advance (length ws) p) = sg @ ds @ r" using rest itoa by simp
  have sign: "after_sign ?s ?k = ?k + length sg"
  proof (cases "sg = []")
    case True
    with rk ne obtain c cs where "rest (advance (length ws) p) = c # cs" "is_digit c"
      using ds by (cases ds) auto
    with rest_Cons [OF this(1)] True show ?thesis
      by (auto simp: after_sign_def is_digit_def in_range_def)
  next
    case False
    with sg rk have "rest (advance (length ws) p) = CHR ''-'' # ds @ r" by simp
    with rest_Cons [OF this] False sg show ?thesis by (auto simp: after_sign_def)
  qed
  have "drop (?k + length sg) ?s = ds @ r"
    using rk by (metis append_eq_conv_conj drop_rest advance_proj rest_advance)
  then have scan: "scan_while is_digit ?s (?k + length sg) = ?k + length (itoa z)"
    using ds r by (simp add: scan_while_eq takeWhile_stops itoa)
  have lit: "take (length (itoa z)) (drop ?k ?s) = itoa z"
    using rest by (simp add: drop_rest)
  have "itoa z \<noteq> []" using itoa ne by simp
  then show ?thesis
    using q sign scan lit atoi_itoa [OF z]
    by (simp add: parseInt_def Let_def advance_def)
qed

subsection \<open>Well-formed types\<close>

text \<open>The types that have a spelling of their own: identifiers are identifiers, integers fit
  \<^verbatim>\<open>int\<close>, an enum has labels whose values fit its width, a tuple has elements and either no
  names or as many as elements, at least one of them not empty.\<close>

fun ch_wf :: "chtype \<Rightarrow> bool" where
  "ch_wf (Scalar name) \<longleftrightarrow> name \<noteq> [] \<and> list_all isIdentByte name \<and>
     name \<noteq> ''DateTime'' \<and> name \<noteq> ''DateTime64''"
| "ch_wf (FixedString n) \<longleftrightarrow> in_int64 n"
| "ch_wf (Decimal p s) \<longleftrightarrow> in_int64 p \<and> in_int64 s"
| "ch_wf (DateTime tz) \<longleftrightarrow> True"
| "ch_wf (DateTime64 p tz) \<longleftrightarrow> in_int64 p"
| "ch_wf (Nullable t) \<longleftrightarrow> ch_wf t"
| "ch_wf (LowCardinality t) \<longleftrightarrow> ch_wf t"
| "ch_wf (Array t) \<longleftrightarrow> ch_wf t"
| "ch_wf (Map k v) \<longleftrightarrow> ch_wf k \<and> ch_wf v"
| "ch_wf (Enum bits lvs) \<longleftrightarrow> (bits = 8 \<or> bits = 16) \<and> lvs \<noteq> [] \<and>
     list_all (\<lambda>lv. enum_lo bits \<le> sint (snd lv) \<and> sint (snd lv) \<le> enum_hi bits) lvs"
| "ch_wf (Tuple names elems) \<longleftrightarrow> elems \<noteq> [] \<and> list_all ch_wf elems \<and>
     (names = [] \<or> length names = length elems \<and> list_ex (\<lambda>n. n \<noteq> []) names \<and>
        list_all (list_all isIdentByte) names)"
| "ch_wf (Unsupported raw) \<longleftrightarrow> False"

text \<open>What may follow a type inside a larger one: the end, a comma or a closing parenthesis.\<close>

definition follow :: "string \<Rightarrow> bool" where
  "follow r \<longleftrightarrow> r = [] \<or> hd r = CHR '','' \<or> hd r = CHR '')''"

lemma follow_simps [simp]:
  "follow []" "follow (CHR '','' # r)" "follow (CHR '')'' # r)"
  by (simp_all add: follow_def)

lemma punct_facts [simp]:
  "\<not> is_space_byte CHR ''(''" "\<not> is_space_byte CHR '')''" "\<not> is_space_byte CHR '',''"
  "\<not> is_space_byte CHR ''=''" "is_space_byte CHR '' ''"
  "\<not> isIdentByte CHR ''(''" "\<not> isIdentByte CHR '')''" "\<not> isIdentByte CHR '',''"
  "\<not> isIdentByte CHR '' ''" "\<not> is_digit CHR '')''" "\<not> is_digit CHR '',''"
  by (simp_all add: is_space_byte_def isIdentByte_def is_lower_def is_upper_def is_digit_def
      in_range_def)

lemma follow_stops:
  assumes "follow r"
  shows "stops isIdentByte r" "stops is_digit r" "stops is_space_byte r"
  using assms by (cases r; auto simp: follow_def)+

lemma ch_peek_follow: "rest p = r \<Longrightarrow> follow r \<Longrightarrow> \<exists>c. ch_peek p = (c, p) \<and> c \<noteq> CHR ''(''"
proof (cases r)
  case Nil
  assume "rest p = r"
  with Nil show ?thesis
    by (simp add: ch_peek_def Let_def skipSpace_rest) (simp add: rest_def)
next
  case (Cons c cs)
  assume "rest p = r" "follow r"
  with Cons show ?thesis
    using ch_peek_char [of p "[]" c cs] by (auto simp: follow_def)
qed

text \<open>The state with the same source from which the text \<open>r\<close> is still to be read. Token by
  token, the parser goes from one such state to the next.\<close>

definition goes :: "chparser \<Rightarrow> string \<Rightarrow> chparser \<Rightarrow> bool" where
  "goes p r q \<longleftrightarrow> rest q = r \<and> cp_src q = cp_src p"

lemma goes_trans: "goes p r q \<Longrightarrow> goes q s q' \<Longrightarrow> goes p s q'"
  by (simp add: goes_def)

lemma goes_back: "goes p r q \<Longrightarrow> q\<lparr>cp_pos := cp_pos p\<rparr> = p"
  by (cases p, cases q) (simp add: goes_def)

lemma goes_advance: "rest p = s @ r \<Longrightarrow> goes p r (advance (length s) p)"
  by (simp add: goes_def)

lemma expect_goes:
  assumes "rest p = ws @ c # r" "blanks ws" "\<not> is_space_byte c"
  shows "\<exists>q. expect c p = Inr q \<and> goes p r q"
  using expect_char [OF assms] goes_advance [of p "ws @ [c]" r] assms(1) by simp

lemma accept_goes:
  assumes "rest p = c # r" "\<not> is_space_byte c"
  shows "\<exists>q. accept c p = (True, q) \<and> goes p r q"
  using accept_char [OF assms, of c] goes_advance [of p "[c]" r] assms(1) by simp

lemma accept_stays:
  assumes "rest p = c # r" "\<not> is_space_byte c" "c \<noteq> d"
  shows "accept d p = (False, p)"
  using accept_char [OF assms(1,2), of d] assms(3) by simp

lemma parseString_goes:
  assumes "rest p = ws @ quote s @ r" "blanks ws"
  shows "\<exists>q. parseString p = Inr (s, q) \<and> goes p r q"
  using parseString_quote [OF assms] goes_advance [of p "ws @ quote s" r] assms(1) by simp

lemma parseInt_goes:
  assumes "rest p = ws @ itoa z @ r" "blanks ws" "stops is_digit r" "in_int64 z"
  shows "\<exists>q. parseInt p = Inr (z, q) \<and> goes p r q"
  using parseInt_itoa [OF assms] goes_advance [of p "ws @ itoa z" r] assms(1) by simp

lemma parseIdent_goes:
  assumes "rest p = ws @ name @ r" "blanks ws" "name \<noteq> []" "list_all isIdentByte name"
    "stops isIdentByte r"
  shows "\<exists>q. parseIdent p = Inr (name, q) \<and> goes p r q"
  using parseIdent_name [OF assms] goes_advance [of p "ws @ name" r] assms(1) by simp

lemmas expect_here = expect_goes [where ws = "[]", simplified]

text \<open>A parser reads a text when, from any state with the text ahead after blanks, it returns
  the value and stands right behind the text; \<open>n\<close> bounds the input still ahead.\<close>

definition reads :: "(chparser \<Rightarrow> ch_error + 'a \<times> chparser) \<Rightarrow> nat \<Rightarrow> string \<Rightarrow> 'a \<Rightarrow> bool" where
  "reads f n s x \<longleftrightarrow> (\<forall>p ws r. rest p = ws @ s @ r \<longrightarrow> blanks ws \<longrightarrow> follow r \<longrightarrow>
     length (rest p) < n \<longrightarrow> (\<exists>q. f p = Inr (x, q) \<and> goes p r q))"

lemma readsD:
  "reads f n s x \<Longrightarrow> rest p = ws @ s @ r \<Longrightarrow> blanks ws \<Longrightarrow> follow r \<Longrightarrow> length (rest p) < n \<Longrightarrow>
     \<exists>q. f p = Inr (x, q) \<and> goes p r q"
  by (simp add: reads_def)

lemma parseParenType_reads:
  assumes "reads pt n s t" "rest p = ''('' @ s @ '')'' @ r" "length (rest p) \<le> n"
  shows "\<exists>q. parseParenType pt p = Inr (t, q) \<and> goes p r q"
proof -
  obtain p1 where 1: "expect CHR ''('' p = Inr p1" "goes p (s @ '')'' @ r) p1"
    using expect_here assms(2) by force
  obtain p2 where 2: "pt p1 = Inr (t, p2)" "goes p1 ('')'' @ r) p2"
    using readsD [OF assms(1), of p1 "[]" "'')'' @ r"] assms(2,3) 1(2) by (auto simp: goes_def)
  obtain p3 where 3: "expect CHR '')'' p2 = Inr p3" "goes p2 r p3"
    using expect_here [of p2 "CHR '')''" r] 2(2) by (auto simp: goes_def)
  from 1 2 3 show ?thesis by (simp add: parseParenType_def goes_def)
qed

lemma parse_map_reads:
  assumes "reads pt n sk k" "reads pt n sv v"
    "rest p = ''('' @ sk @ '', '' @ sv @ '')'' @ r" "length (rest p) \<le> n"
  shows "\<exists>q. parse_map pt p = Inr (Map k v, q) \<and> goes p r q"
proof -
  obtain p1 where 1: "expect CHR ''('' p = Inr p1" "goes p (sk @ '', '' @ sv @ '')'' @ r) p1"
    using expect_here assms(3) by force
  obtain p2 where 2: "pt p1 = Inr (k, p2)" "goes p1 ('', '' @ sv @ '')'' @ r) p2"
    using readsD [OF assms(1), of p1 "[]"] assms(3,4) 1(2) by (auto simp: goes_def)
  obtain p3 where 3: "expect CHR '','' p2 = Inr p3" "goes p2 ('' '' @ sv @ '')'' @ r) p3"
    using expect_here [of p2 "CHR '',''"] 2(2) by (auto simp: goes_def)
  obtain p4 where 4: "pt p3 = Inr (v, p4)" "goes p3 ('')'' @ r) p4"
    using readsD [OF assms(2), of p3 "'' ''" "'')'' @ r"] assms(3,4) 3(2) by (auto simp: goes_def)
  obtain p5 where 5: "expect CHR '')'' p4 = Inr p5" "goes p4 r p5"
    using expect_here [of p4 "CHR '')''" r] 4(2) by (auto simp: goes_def)
  from 1 2 3 4 5 show ?thesis by (simp add: parse_map_def goes_def)
qed

lemma parenInt_reads:
  assumes "rest p = ''('' @ itoa z @ '')'' @ r" "in_int64 z"
  shows "\<exists>q. parenInt p = Inr (z, q) \<and> goes p r q"
proof -
  obtain p1 where 1: "expect CHR ''('' p = Inr p1" "goes p (itoa z @ '')'' @ r) p1"
    using expect_here assms(1) by force
  obtain p2 where 2: "parseInt p1 = Inr (z, p2)" "goes p1 ('')'' @ r) p2"
    using parseInt_goes [of p1 "[]" z "'')'' @ r"] assms(2) 1(2) by (auto simp: goes_def)
  obtain p3 where 3: "expect CHR '')'' p2 = Inr p3" "goes p2 r p3"
    using expect_here [of p2 "CHR '')''" r] 2(2) by (auto simp: goes_def)
  from 1 2 3 show ?thesis by (simp add: parenInt_def goes_def)
qed

lemma parenString_reads:
  assumes "rest p = ''('' @ quote s @ '')'' @ r"
  shows "\<exists>q. parenString p = Inr (s, q) \<and> goes p r q"
proof -
  obtain p1 where 1: "expect CHR ''('' p = Inr p1" "goes p (quote s @ '')'' @ r) p1"
    using expect_here assms(1) by force
  obtain p2 where 2: "parseString p1 = Inr (s, p2)" "goes p1 ('')'' @ r) p2"
    using parseString_goes [of p1 "[]" s "'')'' @ r"] 1(2) by (auto simp: goes_def)
  obtain p3 where 3: "expect CHR '')'' p2 = Inr p3" "goes p2 r p3"
    using expect_here [of p2 "CHR '')''" r] 2(2) by (auto simp: goes_def)
  from 1 2 3 show ?thesis by (simp add: parenString_def goes_def)
qed

lemma parse_decimal_reads:
  assumes "rest p = ''('' @ itoa y @ '', '' @ itoa z @ '')'' @ r" "in_int64 y" "in_int64 z"
  shows "\<exists>q. parse_decimal p = Inr (Decimal y z, q) \<and> goes p r q"
proof -
  obtain p1 where 1: "expect CHR ''('' p = Inr p1" "goes p (itoa y @ '', '' @ itoa z @ '')'' @ r) p1"
    using expect_here assms(1) by force
  obtain p2 where 2: "parseInt p1 = Inr (y, p2)" "goes p1 ('', '' @ itoa z @ '')'' @ r) p2"
    using parseInt_goes [of p1 "[]" y "'', '' @ itoa z @ '')'' @ r"] assms(2) 1(2)
    by (auto simp: goes_def)
  obtain p3 where 3: "expect CHR '','' p2 = Inr p3" "goes p2 ('' '' @ itoa z @ '')'' @ r) p3"
    using expect_here [of p2 "CHR '',''"] 2(2) by (auto simp: goes_def)
  obtain p4 where 4: "parseInt p3 = Inr (z, p4)" "goes p3 ('')'' @ r) p4"
    using parseInt_goes [of p3 "'' ''" z "'')'' @ r"] assms(3) 3(2) by (auto simp: goes_def)
  obtain p5 where 5: "expect CHR '')'' p4 = Inr p5" "goes p4 r p5"
    using expect_here [of p4 "CHR '')''" r] 4(2) by (auto simp: goes_def)
  from 1 2 3 4 5 show ?thesis by (simp add: parse_decimal_def goes_def)
qed

lemma parse_datetime64_reads:
  assumes "rest p = ''('' @ itoa z @ (if tz = [] then [] else '', '' @ quote tz) @ '')'' @ r"
    "in_int64 z"
  shows "\<exists>q. parse_datetime64 p = Inr (DateTime64 z tz, q) \<and> goes p r q"
proof -
  let ?tl = "(if tz = [] then [] else '', '' @ quote tz) @ '')'' @ r"
  obtain p1 where 1: "expect CHR ''('' p = Inr p1" "goes p (itoa z @ ?tl) p1"
    using expect_here assms(1) by force
  have "stops is_digit ?tl" by simp
  then obtain p2 where 2: "parseInt p1 = Inr (z, p2)" "goes p1 ?tl p2"
    using parseInt_goes [of p1 "[]" z ?tl] assms(2) 1(2) by (auto simp: goes_def)
  show ?thesis
  proof (cases "tz = []")
    case True
    with 2(2) have "rest p2 = CHR '')'' # r" by (simp add: goes_def)
    then have "accept CHR '','' p2 = (False, p2)" "\<exists>q. expect CHR '')'' p2 = Inr q \<and> goes p2 r q"
      by (simp_all add: accept_stays expect_here)
    with 1 2 True show ?thesis by (auto simp: parse_datetime64_def goes_def)
  next
    case False
    with 2(2) have "rest p2 = CHR '','' # '' '' @ quote tz @ '')'' @ r" by (simp add: goes_def)
    then obtain p3 where 3: "accept CHR '','' p2 = (True, p3)" "goes p2 ('' '' @ quote tz @ '')'' @ r) p3"
      using accept_goes by fastforce
    then obtain p4 where 4: "parseString p3 = Inr (tz, p4)" "goes p3 ('')'' @ r) p4"
      using parseString_goes [of p3 "'' ''" tz "'')'' @ r"] by (auto simp: goes_def)
    then obtain p5 where "expect CHR '')'' p4 = Inr p5" "goes p4 r p5"
      using expect_here [of p4 "CHR '')''" r] by (auto simp: goes_def)
    with 1 2 3 4 show ?thesis by (simp add: parse_datetime64_def goes_def)
  qed
qed

subsection \<open>Enums\<close>

abbreviation enum_fits :: "int \<Rightarrow> string \<times> 16 word \<Rightarrow> bool" where
  "enum_fits bits lv \<equiv> enum_lo bits \<le> sint (snd lv) \<and> sint (snd lv) \<le> enum_hi bits"

lemma enum_fits_int64: "enum_fits bits lv \<Longrightarrow> in_int64 (sint (snd lv))"
  by (auto simp: enum_lo_def enum_hi_def in_int64_def int64_min_def int64_max_def split: if_splits)

lemma parse_enum_item_reads:
  assumes "rest p = ws @ enum_item lv @ r" "blanks ws" "enum_fits bits lv" "follow r"
  shows "\<exists>q. parse_enum_item bits p = Inr (lv, q) \<and> goes p r q"
proof -
  obtain l v where lv: "lv = (l, v)" by (cases lv)
  obtain p1 where 1: "parseString p = Inr (l, p1)" "goes p ('' = '' @ itoa (sint v) @ r) p1"
    using parseString_goes [of p ws l "'' = '' @ itoa (sint v) @ r"] assms(1,2) lv
    by (auto simp: enum_item_def)
  obtain p2 where 2: "expect CHR ''='' p1 = Inr p2" "goes p1 ('' '' @ itoa (sint v) @ r) p2"
    using expect_goes [of p1 "'' ''" "CHR ''=''"] 1(2) by (auto simp: goes_def)
  obtain p3 where 3: "parseInt p2 = Inr (sint v, p3)" "goes p2 r p3"
    using parseInt_goes [of p2 "'' ''" "sint v" r] 2(2) follow_stops [OF assms(4)]
      enum_fits_int64 [OF assms(3)] lv by (auto simp: goes_def)
  from 1 2 3 assms(3) lv show ?thesis by (auto simp: parse_enum_item_def goes_def)
qed

lemma enum_loop_reads:
  assumes "lvs \<noteq> []" "list_all (enum_fits bits) lvs" "length lvs \<le> n" "blanks ws"
    "rest p = ws @ strings_Join '', '' (map enum_item lvs) @ '')'' @ r"
  shows "\<exists>q. enum_loop n bits acc p = Inr (acc @ lvs, q) \<and> goes p ('')'' @ r) q"
  using assms
proof (induction lvs arbitrary: n ws p acc)
  case Nil
  then show ?case by simp
next
  case (Cons lv lvs)
  then obtain m where n: "n = Suc m" by (cases n) auto
  show ?case
  proof (cases lvs)
    case Nil
    then obtain p1 where 1: "parse_enum_item bits p = Inr (lv, p1)" "goes p ('')'' @ r) p1"
      using parse_enum_item_reads [of p ws lv "'')'' @ r" bits] Cons.prems by auto
    then have "accept CHR '','' p1 = (False, p1)"
      using accept_stays [of p1 "CHR '')''" r] by (simp add: goes_def)
    with 1 n Nil show ?thesis by simp
  next
    case (Cons lv' lvs')
    let ?tl = "strings_Join '', '' (map enum_item lvs) @ '')'' @ r"
    have rest: "rest p = ws @ enum_item lv @ '', '' @ ?tl"
      using Cons.prems(5) Cons by (simp add: strings_Join_Cons)
    then obtain p1 where 1: "parse_enum_item bits p = Inr (lv, p1)" "goes p ('', '' @ ?tl) p1"
      using parse_enum_item_reads [OF rest] Cons.prems(2,4) by auto
    then obtain p2 where 2: "accept CHR '','' p1 = (True, p2)" "goes p1 ('' '' @ ?tl) p2"
      using accept_goes [of p1 "CHR '',''"] by (auto simp: goes_def)
    have "\<exists>q. enum_loop m bits (acc @ [lv]) p2 = Inr ((acc @ [lv]) @ lvs, q) \<and> goes p2 ('')'' @ r) q"
      using Cons.prems n Cons 2(2) by (intro Cons.IH [of m "'' ''"]) (simp_all add: goes_def)
    with 1 2 n show ?thesis by (auto simp: goes_def)
  qed
qed

lemma parseEnum_reads:
  assumes "ch_wf (Enum bits lvs)" "length (rest p) \<le> n"
    "rest p = ''('' @ strings_Join '', '' (map enum_item lvs) @ '')'' @ r"
  shows "\<exists>q. parseEnum n bits p = Inr (Enum bits lvs, q) \<and> goes p r q"
proof -
  have "length xs \<le> length (strings_Join '', '' xs) + 1" for xs :: "string list"
    by (induction xs) (auto simp: strings_Join_Cons)
  from this [of "map enum_item lvs"] have n: "length lvs \<le> n"
    using assms(2,3) by simp
  obtain p1 where 1: "expect CHR ''('' p = Inr p1"
      "goes p (strings_Join '', '' (map enum_item lvs) @ '')'' @ r) p1"
    using expect_here assms(3) by force
  obtain p2 where 2: "enum_loop n bits [] p1 = Inr (lvs, p2)" "goes p1 ('')'' @ r) p2"
    using enum_loop_reads [of lvs bits n "[]" p1 r "[]"] assms(1) n 1(2) by (auto simp: goes_def)
  obtain p3 where 3: "expect CHR '')'' p2 = Inr p3" "goes p2 r p3"
    using expect_here [of p2 "CHR '')''" r] 2(2) by (auto simp: goes_def)
  from 1 2 3 show ?thesis by (simp add: parseEnum_def goes_def)
qed

subsection \<open>Tuples\<close>

lemma itoa_8_16: "itoa 8 = ''8''" "itoa 16 = ''16''"
  by code_simp+

text \<open>The spelling of a type starts with an identifier, and only a parenthesis follows it.\<close>

definition head_form :: "string \<Rightarrow> bool" where
  "head_form s \<longleftrightarrow> (\<exists>name tail. s = name @ tail \<and> name \<noteq> [] \<and> list_all isIdentByte name \<and>
     (tail = [] \<or> hd tail = CHR ''(''))"

lemma head_formI:
  "list_all isIdentByte name \<Longrightarrow> name \<noteq> [] \<Longrightarrow> tail = [] \<or> hd tail = CHR ''('' \<Longrightarrow> head_form (name @ tail)"
  unfolding head_form_def by blast

lemmas ident_simps = isIdentByte_def is_lower_def is_upper_def is_digit_def in_range_def

lemma type_string_head: "ch_wf t \<Longrightarrow> head_form (type_string t)"
proof (cases t)
  case (Scalar name)
  assume "ch_wf t"
  with Scalar show ?thesis using head_formI [of name "[]"] by simp
next
  case (FixedString k)
  show ?thesis using head_formI [of "''FixedString''" "''('' @ itoa k @ '')''"] FixedString
    by (simp add: ident_simps)
next
  case (Decimal y z)
  show ?thesis using head_formI [of "''Decimal''" "''('' @ itoa y @ '', '' @ itoa z @ '')''"] Decimal
    by (simp add: ident_simps)
next
  case (DateTime tz)
  show ?thesis
    using head_formI [of "''DateTime''" "[]"] head_formI [of "''DateTime''" "''('' @ quote tz @ '')''"]
      DateTime by (simp add: ident_simps)
next
  case (DateTime64 z tz)
  show ?thesis
    using head_formI [of "''DateTime64''" "''('' @ itoa z @ '')''"]
      head_formI [of "''DateTime64''" "''('' @ itoa z @ '', '' @ quote tz @ '')''"] DateTime64
    by (simp add: ident_simps)
next
  case (Nullable u)
  show ?thesis using head_formI [of "''Nullable''" "''('' @ type_string u @ '')''"] Nullable
    by (simp add: ident_simps)
next
  case (LowCardinality u)
  show ?thesis using head_formI [of "''LowCardinality''" "''('' @ type_string u @ '')''"] LowCardinality
    by (simp add: ident_simps)
next
  case (Array u)
  show ?thesis using head_formI [of "''Array''" "''('' @ type_string u @ '')''"] Array
    by (simp add: ident_simps)
next
  case (Map k v)
  show ?thesis
    using head_formI [of "''Map''" "''('' @ type_string k @ '', '' @ type_string v @ '')''"] Map
    by (simp add: ident_simps)
next
  case (Enum bits lvs)
  assume "ch_wf t"
  with Enum have "bits = 8 \<or> bits = 16" by simp
  then show ?thesis
    using head_formI [of "''Enum8''" "''('' @ strings_Join '', '' (map enum_item lvs) @ '')''"]
      head_formI [of "''Enum16''" "''('' @ strings_Join '', '' (map enum_item lvs) @ '')''"] Enum
    by (auto simp: ident_simps itoa_8_16)
next
  case (Tuple names elems)
  show ?thesis
    using head_formI [of "''Tuple''"
        "''('' @ strings_Join '', '' (tuple_items names (map type_string elems)) @ '')''"] Tuple
    by (simp add: ident_simps)
next
  case (Unsupported raw)
  assume "ch_wf t"
  with Unsupported show ?thesis by simp
qed

lemma head_form_ident_head: "head_form s \<Longrightarrow> \<exists>c cs. s = c # cs \<and> isIdentByte c"
  by (auto simp: head_form_def neq_Nil_conv)

text \<open>How one element is printed: the name, if any, and the type.\<close>

definition tuple_item :: "string \<times> chtype \<Rightarrow> string" where
  "tuple_item nt = (if fst nt \<noteq> [] then fst nt @ '' '' @ type_string (snd nt)
     else type_string (snd nt))"

abbreviation tuple_follow :: "string \<Rightarrow> bool" where
  "tuple_follow r \<equiv> r \<noteq> [] \<and> follow r"

lemma parse_tuple_item_reads:
  assumes "reads pt n (type_string t) t" "ch_wf t" "list_all isIdentByte name"
    "rest p = ws @ tuple_item (name, t) @ r" "blanks ws" "tuple_follow r" "length (rest p) < n"
  shows "\<exists>q. parse_tuple_item pt p = Inr ((name \<noteq> [], name, t), q) \<and> goes p r q"
proof (cases "name = []")
  case True
  from type_string_head [OF assms(2)] obtain nm tail where ts: "type_string t = nm @ tail"
    and nm: "nm \<noteq> []" "list_all isIdentByte nm" and tail: "tail = [] \<or> hd tail = CHR ''(''"
    by (auto simp: head_form_def)
  obtain c cs where c: "tail @ r = c # cs" and cc: "c = CHR ''('' \<or> c = CHR '','' \<or> c = CHR '')''"
    using tail assms(6) by (cases tail; cases r) (auto simp: follow_def)
  have rest: "rest p = ws @ nm @ c # cs" using assms(4) True ts c by (simp add: tuple_item_def)
  moreover have nc: "\<not> isIdentByte c" "\<not> is_space_byte c" using cc by auto
  ultimately obtain p1 where 1: "parseIdent p = Inr (nm, p1)" "goes p (c # cs) p1"
    using parseIdent_goes [OF rest assms(5) nm] by auto
  have 2: "ch_peek p1 = (c, p1)"
    using ch_peek_char [of p1 "[]" c cs] 1(2) nc by (simp add: goes_def)
  obtain q where "pt p = Inr (t, q)" "goes p r q"
    using readsD [OF assms(1), of p ws r] assms(4,5,6,7) True by (auto simp: tuple_item_def)
  with 1 2 cc True goes_back [OF 1(2)] show ?thesis by (auto simp: parse_tuple_item_def)
next
  case False
  have rest: "rest p = ws @ name @ '' '' @ type_string t @ r"
    using assms(4) False by (simp add: tuple_item_def)
  then obtain p1 where 1: "parseIdent p = Inr (name, p1)" "goes p ('' '' @ type_string t @ r) p1"
    using parseIdent_goes [OF rest assms(5) False assms(3)] by auto
  obtain c cs where c: "type_string t = c # cs" "isIdentByte c"
    using head_form_ident_head type_string_head [OF assms(2)] by blast
  obtain p2 where 2: "ch_peek p1 = (c, p2)" "goes p1 (type_string t @ r) p2"
    using ch_peek_char [of p1 "'' ''" c "cs @ r"] goes_advance [of p1 "'' ''" "type_string t @ r"]
      1(2) c by (auto simp: goes_def dest: ident_not_space)
  obtain q where "pt p2 = Inr (t, q)" "goes p2 r q"
    using readsD [OF assms(1), of p2 "[]" r] assms(6,7) rest 2(2) by (auto simp: goes_def)
  moreover have "c \<noteq> CHR ''(''" "c \<noteq> CHR '',''" "c \<noteq> CHR '')''" using c(2) punct_facts by metis+
  ultimately show ?thesis using 1 2 False by (auto simp: parse_tuple_item_def goes_def)
qed

text \<open>An invariant of the loop: the element types read so far are all readable.\<close>

lemma tuple_loop_reads:
  assumes "nts \<noteq> []" "\<And>nm t. (nm, t) \<in> set nts \<Longrightarrow>
      reads pt n (type_string t) t \<and> ch_wf t \<and> list_all isIdentByte nm"
    "length nts \<le> k" "blanks ws" "length (rest p) < n"
    "rest p = ws @ strings_Join '', '' (map tuple_item nts) @ '')'' @ r"
  shows "\<exists>q. tuple_loop pt k named names elems p = Inr ((named \<or> (\<exists>nm \<in> fst ` set nts. nm \<noteq> []),
      names @ map fst nts, elems @ map snd nts), q) \<and> goes p ('')'' @ r) q"
  using assms
proof (induction nts arbitrary: k ws p named names elems)
  case Nil
  then show ?case by simp
next
  case (Cons nt nts)
  then obtain m where k: "k = Suc m" by (cases k) auto
  obtain nm t where nt: "nt = (nm, t)" by (cases nt)
  with Cons.prems(2) have r: "reads pt n (type_string t) t" "ch_wf t" "list_all isIdentByte nm"
    by auto
  show ?case
  proof (cases nts)
    case Nil
    then have "rest p = ws @ tuple_item (nm, t) @ '')'' @ r" using Cons.prems(6) nt by simp
    then obtain p1 where 1: "parse_tuple_item pt p = Inr ((nm \<noteq> [], nm, t), p1)" "goes p ('')'' @ r) p1"
      using parse_tuple_item_reads [OF r] Cons.prems(4,5) by fastforce
    then have "accept CHR '','' p1 = (False, p1)"
      using accept_stays [of p1 "CHR '')''" r] by (simp add: goes_def)
    with 1 k Nil nt show ?thesis by simp
  next
    case (Cons nt' nts')
    let ?tl = "strings_Join '', '' (map tuple_item nts) @ '')'' @ r"
    have rest: "rest p = ws @ tuple_item (nm, t) @ '', '' @ ?tl"
      using Cons.prems(6) Cons nt by (simp add: strings_Join_Cons)
    then obtain p1 where 1: "parse_tuple_item pt p = Inr ((nm \<noteq> [], nm, t), p1)" "goes p ('', '' @ ?tl) p1"
      using parse_tuple_item_reads [OF r rest] Cons.prems(4,5) by auto
    then obtain p2 where 2: "accept CHR '','' p1 = (True, p2)" "goes p1 ('' '' @ ?tl) p2"
      using accept_goes [of p1 "CHR '',''"] by (auto simp: goes_def)
    have "\<exists>q. tuple_loop pt m (named \<or> nm \<noteq> []) (names @ [nm]) (elems @ [t]) p2 =
        Inr (((named \<or> nm \<noteq> []) \<or> (\<exists>nm \<in> fst ` set nts. nm \<noteq> []),
          (names @ [nm]) @ map fst nts, (elems @ [t]) @ map snd nts), q) \<and> goes p2 ('')'' @ r) q"
    proof (rule Cons.IH)
      show "rest p2 = '' '' @ ?tl" "blanks '' ''" using 2(2) by (simp_all add: goes_def)
      with rest show "length (rest p2) < n" using Cons.prems(5) by simp
    qed (use Cons.prems(2,3) k Cons in auto)
    with 1 2 k nt show ?thesis by (auto simp: goes_def)
  qed
qed

lemma tuple_items_zip:
  "length names = length elems \<Longrightarrow>
     tuple_items names (map type_string elems) = map tuple_item (zip names elems)"
  by (induction names elems rule: list_induct2) (simp_all add: tuple_item_def)

lemma tuple_items_unnamed:
  "tuple_items [] (map type_string elems) =
     map tuple_item (zip (replicate (length elems) []) elems)"
  by (induction elems) (simp_all add: tuple_item_def)

lemma parseTuple_reads:
  assumes "ch_wf (Tuple names elems)" "\<And>t. t \<in> set elems \<Longrightarrow> reads pt n (type_string t) t"
    "length (rest p) \<le> n"
    "rest p = ''('' @ strings_Join '', '' (tuple_items names (map type_string elems)) @ '')'' @ r"
  shows "\<exists>q. parseTuple pt n p = Inr (Tuple names elems, q) \<and> goes p r q"
proof -
  define ns where "ns = (if names = [] then replicate (length elems) [] else names)"
  define nts where "nts = zip ns elems"
  have len: "length ns = length elems" using assms(1) by (auto simp: ns_def)
  have items: "tuple_items names (map type_string elems) = map tuple_item nts"
    using len by (simp add: nts_def ns_def tuple_items_zip tuple_items_unnamed split: if_splits)
  have wf: "reads pt n (type_string t) t \<and> ch_wf t \<and> list_all isIdentByte nm"
    if "(nm, t) \<in> set nts" for nm t
    using that assms(1,2)
    by (auto simp: nts_def ns_def list_all_iff split: if_splits dest: set_zip_leftD set_zip_rightD)
  have nts: "map fst nts = ns" "map snd nts = elems" "nts \<noteq> []"
    using len assms(1) by (auto simp: nts_def)
  then have fs: "fst ` set nts = set ns" by (metis set_map)
  have "length xs \<le> length (strings_Join '', '' xs) + 1" for xs :: "string list"
    by (induction xs) (auto simp: strings_Join_Cons)
  from this [of "map tuple_item nts"] have k: "length nts \<le> n"
    using assms(3,4) items by simp
  obtain p1 where 1: "expect CHR ''('' p = Inr p1"
      "goes p (strings_Join '', '' (map tuple_item nts) @ '')'' @ r) p1"
    using expect_here assms(4) items by force
  have named: "(\<exists>nm \<in> set ns. nm \<noteq> []) \<longleftrightarrow> names \<noteq> []"
    using assms(1) by (auto simp: ns_def list_ex_iff)
  have "rest p1 = [] @ strings_Join '', '' (map tuple_item nts) @ '')'' @ r" "length (rest p1) < n"
    using 1(2) assms(3,4) items by (auto simp: goes_def)
  from tuple_loop_reads [OF nts(3) wf k _ this(2,1), of False "[]" "[]"]
  obtain p2 where 2: "tuple_loop pt n False [] [] p1 = Inr ((names \<noteq> [], ns, elems), p2)"
      "goes p1 ('')'' @ r) p2"
    unfolding fs nts(1,2) named by auto
  obtain p3 where 3: "expect CHR '')'' p2 = Inr p3" "goes p2 r p3"
    using expect_here [of p2 "CHR '')''" r] 2(2) by (auto simp: goes_def)
  from 1 2 3 show ?thesis by (auto simp: parseTuple_def goes_def ns_def)
qed

subsection \<open>Every well-formed type is read back\<close>

lemma parseType_paren:
  assumes "\<And>p r. rest p = CHR ''('' # body @ r \<Longrightarrow> follow r \<Longrightarrow> length (rest p) \<le> n \<Longrightarrow>
      \<exists>q. parse_switch (parseType n) n i name p = Inr (t, q) \<and> goes p r q"
    "rest p = ws @ name @ CHR ''('' # body @ r" "cp_pos p = i"
    "name \<noteq> []" "list_all isIdentByte name" "blanks ws" "follow r" "length (rest p) < Suc n"
  shows "\<exists>q. parseType (Suc n) p = Inr (t, q) \<and> goes p r q"
proof -
  obtain p1 where 1: "parseIdent p = Inr (name, p1)" "goes p (CHR ''('' # body @ r) p1"
    using parseIdent_goes [OF assms(2,6,4,5)] by auto
  have 2: "ch_peek p1 = (CHR ''('', p1)"
    using ch_peek_char [of p1 "[]" "CHR ''(''" "body @ r"] 1(2) by (simp add: goes_def)
  obtain q where "parse_switch (parseType n) n i name p1 = Inr (t, q)" "goes p1 r q"
    using assms(1) [of p1 r] 1(2) assms(2,7,8) by (auto simp: goes_def)
  with 1 2 assms(3) show ?thesis by (auto simp: goes_def)
qed

lemma parseType_bare:
  assumes "rest p = ws @ name @ r" "name \<noteq> []" "list_all isIdentByte name" "blanks ws" "follow r"
  shows "\<exists>q. parseType (Suc n) p = Inr (bare_type name, q) \<and> goes p r q"
proof -
  obtain p1 where 1: "parseIdent p = Inr (name, p1)" "goes p r p1"
    using parseIdent_goes [OF assms(1,4,2,3)] follow_stops [OF assms(5)] by auto
  obtain c where "ch_peek p1 = (c, p1)" "c \<noteq> CHR ''(''"
    using ch_peek_follow [of p1 r] 1(2) assms(5) by (auto simp: goes_def)
  with 1 show ?thesis by simp
qed

text \<open>The step from a parenthesised argument list to a whole type.\<close>

lemma reads_parseType:
  assumes "\<And>n p r i. rest p = CHR ''('' # body @ r \<Longrightarrow> follow r \<Longrightarrow>
      length (rest p) \<le> n \<Longrightarrow>
      \<exists>q. parse_switch (parseType n) n i name p = Inr (t, q) \<and> goes p r q"
    "name \<noteq> []" "list_all isIdentByte name"
  shows "reads (parseType n) n (name @ CHR ''('' # body) t"
  unfolding reads_def
proof (intro allI impI)
  fix p ws r
  assume p: "rest p = ws @ (name @ CHR ''('' # body) @ r" "blanks ws" "follow r" "length (rest p) < n"
  then obtain m where n: "n = Suc m" by (cases n) auto
  from p(1) have "rest p = ws @ name @ CHR ''('' # body @ r" by simp
  from parseType_paren [OF assms(1) this refl assms(2,3) p(2,3)] p(4) n
  show "\<exists>q. parseType n p = Inr (t, q) \<and> goes p r q" by simp
qed

lemma reads_bare:
  assumes "name \<noteq> []" "list_all isIdentByte name" "bare_type name = t"
  shows "reads (parseType n) n name t"
  unfolding reads_def
proof (intro allI impI)
  fix p ws r
  assume p: "rest p = ws @ name @ r" "blanks ws" "follow r" "length (rest p) < n"
  then obtain m where "n = Suc m" by (cases n) auto
  with parseType_bare [OF p(1) assms(1,2) p(2,3)] assms(3)
  show "\<exists>q. parseType n p = Inr (t, q) \<and> goes p r q" by simp
qed

lemma parseType_reads: "ch_wf t \<Longrightarrow> reads (parseType n) n (type_string t) t"
proof (induction t arbitrary: n)
  case (Scalar name)
  then show ?case using reads_bare [of name "Scalar name" n] by (simp add: bare_type_def)
next
  case (FixedString k)
  then show ?case
    using reads_parseType [of "itoa k @ '')''" "''FixedString''" "FixedString k" n] parenInt_reads
    by (fastforce simp: parse_switch_def ident_simps)
next
  case (Decimal y z)
  then show ?case
    using reads_parseType [of "itoa y @ '', '' @ itoa z @ '')''" "''Decimal''" "Decimal y z" n]
      parse_decimal_reads by (fastforce simp: parse_switch_def ident_simps)
next
  case (Nullable t)
  then show ?case
    using reads_parseType [of "type_string t @ '')''" "''Nullable''" "Nullable t" n]
      parseParenType_reads by (fastforce simp: parse_switch_def ident_simps)
next
  case (Map k v)
  then show ?case
    using reads_parseType [of "type_string k @ '', '' @ type_string v @ '')''" "''Map''" "Map k v" n]
      parse_map_reads by (fastforce simp: parse_switch_def ident_simps)
next
  case (LowCardinality t)
  then show ?case
    using reads_parseType [of "type_string t @ '')''" "''LowCardinality''" "LowCardinality t" n]
      parseParenType_reads by (fastforce simp: parse_switch_def ident_simps)
next
  case (Array t)
  then show ?case
    using reads_parseType [of "type_string t @ '')''" "''Array''" "Array t" n]
      parseParenType_reads by (fastforce simp: parse_switch_def ident_simps)
next
  case (DateTime tz)
  then show ?case
    using reads_bare [of "''DateTime''" "DateTime []" n]
      reads_parseType [of "quote tz @ '')''" "''DateTime''" "DateTime tz" n] parenString_reads
    by (fastforce simp: parse_switch_def ident_simps bare_type_def)
next
  case (DateTime64 z tz)
  let ?tl = "if tz = [] then [] else '', '' @ quote tz"
  have "reads (parseType n) n (''DateTime64'' @ CHR ''('' # itoa z @ ?tl @ '')'') (DateTime64 z tz)"
    using DateTime64 parse_datetime64_reads [of _ z tz]
    by (intro reads_parseType) (simp_all add: parse_switch_def ident_simps)
  then show ?case by (simp split: if_splits)
next
  case (Enum bits lvs)
  let ?body = "strings_Join '', '' (map enum_item lvs) @ '')''"
  from Enum consider "bits = 8" | "bits = 16" by auto
  then show ?case
  proof cases
    case 1
    then show ?thesis
      using reads_parseType [of ?body "''Enum8''" "Enum bits lvs" n] parseEnum_reads [OF Enum]
      by (simp add: parse_switch_def ident_simps itoa_8_16)
  next
    case 2
    then show ?thesis
      using reads_parseType [of ?body "''Enum16''" "Enum bits lvs" n] parseEnum_reads [OF Enum]
      by (simp add: parse_switch_def ident_simps itoa_8_16)
  qed
next
  case (Tuple names elems)
  then have "reads (parseType m) m (type_string t) t" if "t \<in> set elems" for t m
    using that by (auto simp: list_all_iff)
  then show ?case
    using reads_parseType [of "strings_Join '', '' (tuple_items names (map type_string elems)) @ '')''"
        "''Tuple''" "Tuple names elems" n] parseTuple_reads [OF Tuple.prems]
    by (simp add: parse_switch_def ident_simps)
qed simp

lemma Parse_type_string: "ch_wf t \<Longrightarrow> Parse (type_string t) = Inr t"
proof -
  assume wf: "ch_wf t"
  let ?s = "type_string t"
  let ?p = "\<lparr>cp_src = ?s, cp_pos = 0\<rparr>"
  obtain q where q: "parseType (length ?s + 1) ?p = Inr (t, q)" "goes ?p [] q"
    using readsD [OF parseType_reads [OF wf, of "length ?s + 1"], of ?p "[]" "[]"]
    by (auto simp: rest_def)
  from q(1) have "advances ?p q" by (rule ch.pt_advances)
  with q show ?thesis
    by (auto simp: Parse_def goes_def Let_def skipSpace_rest rest_def advances_def
        simp del: parseType.simps)
qed

subsection \<open>Every type that is read is well formed\<close>

text \<open>A type with no \<open>Unsupported\<close> part.\<close>

fun ch_supported :: "chtype \<Rightarrow> bool" where
  "ch_supported (Unsupported raw) \<longleftrightarrow> False"
| "ch_supported (Nullable t) \<longleftrightarrow> ch_supported t"
| "ch_supported (LowCardinality t) \<longleftrightarrow> ch_supported t"
| "ch_supported (Array t) \<longleftrightarrow> ch_supported t"
| "ch_supported (Map k v) \<longleftrightarrow> ch_supported k \<and> ch_supported v"
| "ch_supported (Tuple names elems) \<longleftrightarrow> list_all ch_supported elems"
| "ch_supported t \<longleftrightarrow> True"

lemma ch_wf_supported: "ch_wf t \<Longrightarrow> ch_supported t"
  by (induction t) (auto simp: list_all_iff)

abbreviation ch_ok :: "chtype \<Rightarrow> bool" where
  "ch_ok t \<equiv> ch_supported t \<longrightarrow> ch_wf t"

lemma parseIdent_ident:
  "parseIdent p = Inr (name, q) \<Longrightarrow> name \<noteq> [] \<and> list_all isIdentByte name"
  by (auto simp: parseIdent_def Let_def scan_while_eq list_all_iff takeWhile_eq_take [symmetric]
      split: if_splits dest: set_takeWhileD)

lemma parseInt_int64: "parseInt p = Inr (z, q) \<Longrightarrow> in_int64 z"
  by (auto simp: parseInt_def Let_def split: if_splits option.splits dest: atoi_in_int64)

lemma sint_word16: "- 32768 \<le> v \<Longrightarrow> v \<le> 32767 \<Longrightarrow> sint (word_of_int v :: 16 word) = v"
  by (simp add: signed_of_int signed_take_bit_int_eq_self)

lemma parse_enum_item_fits: "parse_enum_item bits p = Inr (lv, q) \<Longrightarrow> enum_fits bits lv"
  by (auto simp: parse_enum_item_def enum_lo_def enum_hi_def sint_word16 split: if_splits)

lemma enum_loop_fits:
  "enum_loop n bits acc p = Inr (lvs, q) \<Longrightarrow> list_all (enum_fits bits) acc \<Longrightarrow>
     lvs \<noteq> [] \<and> list_all (enum_fits bits) lvs"
proof (induction n arbitrary: acc p)
  case (Suc n)
  from Suc.prems(1) obtain lv p1 where p1: "parse_enum_item bits p = Inr (lv, p1)" by auto
  obtain b p2 where p2: "accept CHR '','' p1 = (b, p2)" by (cases "accept CHR '','' p1")
  from parse_enum_item_fits [OF p1] Suc.prems(2) have "list_all (enum_fits bits) (acc @ [lv])" by simp
  with Suc.prems(1) p1 p2 Suc.IH [of "acc @ [lv]" p2] show ?case by (cases b) auto
qed simp

lemma leaf_parsers_ok:
  "parenInt p = Inr (k, q) \<Longrightarrow> in_int64 k"
  "parse_decimal p = Inr (t, q) \<Longrightarrow> ch_ok t"
  "parseEnum n 8 p = Inr (t, q) \<Longrightarrow> ch_ok t"
  "parseEnum n 16 p = Inr (t, q) \<Longrightarrow> ch_ok t"
  by (auto simp: parenInt_def parse_decimal_def parseEnum_def dest!: parseInt_int64 enum_loop_fits)

lemma parse_datetime64_ok: "parse_datetime64 p = Inr (t, q) \<Longrightarrow> ch_ok t"
proof -
  assume ok: "parse_datetime64 p = Inr (t, q)"
  then obtain p1 z p2 where z: "parseInt p1 = Inr (z, p2)" and p1: "expect CHR ''('' p = Inr p1"
    by (auto simp: parse_datetime64_def)
  obtain b p3 where "accept CHR '','' p2 = (b, p3)" by (cases "accept CHR '','' p2")
  with ok z p1 parseInt_int64 [OF z] show "ch_ok t" by (auto simp: parse_datetime64_def)
qed

text \<open>The accumulated fields of a tuple are in step.\<close>

definition tuple_acc_ok :: "bool \<Rightarrow> string list \<Rightarrow> chtype list \<Rightarrow> bool" where
  "tuple_acc_ok named names elems \<longleftrightarrow> length names = length elems \<and> list_all ch_ok elems \<and>
     list_all (list_all isIdentByte) names \<and> (named \<longleftrightarrow> list_ex (\<lambda>n. n \<noteq> []) names)"

text \<open>What the composite parsers need of the parser they call back.\<close>

locale wf_parser =
  fixes pt :: "chparser \<Rightarrow> ch_error + chtype \<times> chparser"
  assumes pt_ok: "pt p = Inr (t, q) \<Longrightarrow> ch_ok t"
begin

lemma paren_ok: "parseParenType pt p = Inr (t, q) \<Longrightarrow> ch_ok t"
  by (auto simp: parseParenType_def dest: pt_ok)

lemma map_ok: "parse_map pt p = Inr (t, q) \<Longrightarrow> ch_ok t"
  by (auto simp: parse_map_def dest: pt_ok)

lemma tuple_item_ok:
  assumes "parse_tuple_item pt p = Inr ((i, nm, t), q)"
  shows "ch_ok t \<and> list_all isIdentByte nm \<and> (i \<longleftrightarrow> nm \<noteq> [])"
proof -
  from assms obtain ident p1 where p1: "parseIdent p = Inr (ident, p1)"
    by (auto simp: parse_tuple_item_def)
  obtain c p2 where p2: "ch_peek p1 = (c, p2)" by (cases "ch_peek p1")
  from assms p1 p2 parseIdent_ident [OF p1] show ?thesis
    by (auto simp: parse_tuple_item_def split: if_splits dest: pt_ok)
qed

lemma tuple_loop_ok:
  "tuple_loop pt n named names elems p = Inr ((nd, ns, es), q) \<Longrightarrow> tuple_acc_ok named names elems \<Longrightarrow>
     tuple_acc_ok nd ns es \<and> es \<noteq> []"
proof (induction n arbitrary: named names elems p)
  case (Suc n)
  from Suc.prems(1) obtain i nm t p1 where p1: "parse_tuple_item pt p = Inr ((i, nm, t), p1)" by auto
  obtain b p2 where p2: "accept CHR '','' p1 = (b, p2)" by (cases "accept CHR '','' p1")
  have "tuple_acc_ok (named \<or> i) (names @ [nm]) (elems @ [t])"
    using tuple_item_ok [OF p1] Suc.prems(2) by (auto simp: tuple_acc_ok_def)
  with Suc.prems(1) p1 p2 Suc.IH [of "named \<or> i" "names @ [nm]" "elems @ [t]" p2] show ?case
    by (cases b) auto
qed simp

lemma tuple_ok: "parseTuple pt n p = Inr (t, q) \<Longrightarrow> ch_ok t"
proof -
  assume "parseTuple pt n p = Inr (t, q)"
  then obtain p1 nd ns es p2 where l: "tuple_loop pt n False [] [] p1 = Inr ((nd, ns, es), p2)"
    and t: "t = Tuple (if nd then ns else []) es"
    by (auto simp: parseTuple_def)
  have "tuple_acc_ok False [] []" by (simp add: tuple_acc_ok_def)
  from tuple_loop_ok [OF l this] t show "ch_ok t"
    by (auto simp: tuple_acc_ok_def list_all_iff)
qed

lemma switch_ok: "parse_switch pt n i name p = Inr (t, q) \<Longrightarrow> ch_ok t"
  unfolding parse_switch_def
  by (auto split: if_splits dest: paren_ok map_ok tuple_ok leaf_parsers_ok parse_datetime64_ok
      simp: in_int64_def decimalPrecision_def int64_min_def int64_max_def)

end

lemma bare_type_ok: "name \<noteq> [] \<Longrightarrow> list_all isIdentByte name \<Longrightarrow> ch_wf (bare_type name)"
  by (simp add: bare_type_def in_int64_def int64_min_def int64_max_def)

lemma parseType_wf_parser: "wf_parser (parseType n)"
proof (induction n)
  case 0
  show ?case by unfold_locales simp
next
  case (Suc n)
  show ?case
  proof
    fix p t q
    assume ok: "parseType (Suc n) p = Inr (t, q)"
    then obtain name p1 where p1: "parseIdent p = Inr (name, p1)" by auto
    obtain c p2 where p2: "ch_peek p1 = (c, p2)" by (cases "ch_peek p1")
    from ok p1 p2 parseIdent_ident [OF p1] show "ch_ok t"
      using wf_parser.switch_ok [OF Suc.IH] bare_type_ok by (auto split: if_splits)
  qed
qed

interpretation ch_wf: wf_parser "parseType n" for n
  by (rule parseType_wf_parser)

lemma Parse_wf: "Parse s = Inr t \<Longrightarrow> ch_supported t \<Longrightarrow> ch_wf t"
  by (auto simp: Parse_def Let_def simp del: parseType.simps split: if_splits dest: ch_wf.pt_ok)

end
