(* ===== verification/ChProps.thy ===== *)
theory ChProps
  imports ChRoundTrip
begin

text \<open>
  The properties of the ClickHouse type parser and printer: they are inverse to each other on
  well-formed types, the parser always comes to an answer, and what generation does with a
  parsed type (its key, its payload, the literal bound for it) is determined by the type.
\<close>

subsection \<open>Printing and parsing\<close>

text \<open>C8: \<^verbatim>\<open>Parse\<close> reads back the canonical spelling of every well-formed type as the type
  itself.\<close>

theorem Parse_String_roundtrip:
  assumes "ch_wf t"
  shows "Parse (type_string t) = Inr t"
  using assms by (rule Parse_type_string)

theorem Parse_String_roundtrip_witness:
  "Parse (type_string (Map (LowCardinality (Scalar ''String''))
     (Tuple [''a'', []] [Nullable (Decimal 10 2), Enum 8 [(''x'', - 1), (''it's'', 2)]]))) =
   Inr (Map (LowCardinality (Scalar ''String''))
     (Tuple [''a'', []] [Nullable (Decimal 10 2), Enum 8 [(''x'', - 1), (''it's'', 2)]]))"
  by (rule Parse_String_roundtrip) code_simp

text \<open>Whatever text a type was read from, printing the type and reading it again gives the
  same type, so the canonical spelling identifies it.\<close>

theorem Parse_String_canonical:
  assumes "Parse s = Inr t" "ch_supported t"
  shows "Parse (type_string t) = Inr t"
  using assms by (blast intro: Parse_type_string Parse_wf)

theorem Parse_String_canonical_witness:
  "Parse (type_string (Map (Scalar ''String'') (Decimal 9 2))) =
     Inr (Map (Scalar ''String'') (Decimal 9 2))"
  by (rule Parse_String_canonical [of "''  Map( String,Decimal32 ( 2 ) )''"]) code_simp+

text \<open>C20: the nested loops of the parser end on every input: a result or one of the errors of
  the source is reached within the recursion depth and the number of rounds that \<^verbatim>\<open>Parse\<close>
  allows, which is one more than the length of the input.\<close>

theorem Parse_returns: "Parse s \<noteq> Inl (ChError src pos ParseFuel)"
  using Parse_fuel_ok [of s] by (simp add: fuel_ok_def)

text \<open>C21: types that pggen can represent have the same \<^verbatim>\<open>Key\<close> only if they are the same type,
  so the caches and the declarers that are keyed by it never confuse two types.\<close>

theorem Key_injective:
  assumes "ch_wf t" "ch_wf u"
  shows "chKey t = chKey u \<longleftrightarrow> t = u"
proof
  assume "chKey t = chKey u"
  then have "Parse (type_string t) = Parse (type_string u)" by (simp add: chKey_def)
  with assms show "t = u" by (simp add: Parse_type_string)
qed simp

theorem Key_injective_witness:
  "chKey (DateTime64 3 []) = chKey (DateTime64 3 ''UTC'') \<longleftrightarrow> DateTime64 3 [] = DateTime64 3 ''UTC''"
  by (rule Key_injective) code_simp+

text \<open>A type with arguments pggen does not know is kept as the text it was written in, with
  the blanks before its name when it is nested, so that printing it and reading it again does
  not come back to the same type.\<close>

theorem Unsupported_keeps_blanks:
  "Parse ''Map(String, Nested(x))'' = Inr (Map (Scalar ''String'') (Unsupported '' Nested(x)'')) \<and>
   type_string (Map (Scalar ''String'') (Unsupported '' Nested(x)'')) = ''Map(String,  Nested(x))'' \<and>
   Parse ''Map(String,  Nested(x))'' = Inr (Map (Scalar ''String'') (Unsupported ''  Nested(x)''))"
  by code_simp

subsection \<open>What generation does with a type\<close>

lemma Payload_not_wrapped: "Payload t \<noteq> LowCardinality u" "Payload t \<noteq> Nullable u"
  by (induction t) auto

lemma ZeroLiteral_Payload: "ZeroLiteral (Payload t) = ZeroLiteral t"
  by (induction t) auto

lemma Payload_wf: "ch_wf t \<Longrightarrow> ch_wf (Payload t)"
  by (induction t) auto

text \<open>The scalars that have a zero literal, and the types that have one: every scalar reached
  without going under an array or a map has one.\<close>

fun has_zero :: "chtype \<Rightarrow> bool" where
  "has_zero (Scalar name) \<longleftrightarrow> (\<exists>z. scalarZero name = Inr z)"
| "has_zero (Nullable t) \<longleftrightarrow> has_zero t"
| "has_zero (LowCardinality t) \<longleftrightarrow> has_zero t"
| "has_zero (Tuple names elems) \<longleftrightarrow> list_all has_zero elems"
| "has_zero t \<longleftrightarrow> True"

lemma ZeroLiteral_iff: "ch_wf t \<Longrightarrow> (\<exists>z. ZeroLiteral t = Inr z) \<longleftrightarrow> has_zero t"
proof (induction t)
  case (Tuple names elems)
  then have IH: "\<And>e. e \<in> set elems \<Longrightarrow> (\<exists>z. ZeroLiteral e = Inr z) \<longleftrightarrow> has_zero e"
    by (auto simp: list_all_iff)
  have "(\<exists>zs. seq_res (map ZeroLiteral elems) = Inr zs) \<longleftrightarrow> list_all has_zero elems"
    using IH
  proof (induction elems)
    case (Cons e es)
    then have "(\<exists>z. ZeroLiteral e = Inr z) \<longleftrightarrow> has_zero e" by simp
    moreover have "(\<exists>zs. seq_res (map ZeroLiteral es) = Inr zs) \<longleftrightarrow> list_all has_zero es"
      using Cons by simp
    ultimately show ?case
      by (cases "ZeroLiteral e"; cases "seq_res (map ZeroLiteral es)") auto
  qed simp
  then show ?case by (cases "seq_res (map ZeroLiteral elems)") auto
next
  case (Enum bits lvs)
  then show ?case by (cases lvs) auto
qed auto

text \<open>The literal that inference binds for a parameter exists exactly for the well-formed
  types without an unknown scalar outside arrays and maps, and it is the literal of the type
  under its \<^verbatim>\<open>Nullable\<close> and \<^verbatim>\<open>LowCardinality\<close> wrappers.\<close>

theorem ZeroLiteral_defined:
  assumes "ch_wf t"
  shows "((\<exists>z. ZeroLiteral t = Inr z) \<longleftrightarrow> has_zero (Payload t)) \<and>
     ZeroLiteral t = ZeroLiteral (Payload t)"
  using ZeroLiteral_iff [OF Payload_wf [OF assms]] by (simp add: ZeroLiteral_Payload)

theorem ZeroLiteral_defined_witness:
  "((\<exists>z. ZeroLiteral (LowCardinality (Nullable (Scalar ''IPv4''))) = Inr z) \<longleftrightarrow>
     has_zero (Payload (LowCardinality (Nullable (Scalar ''IPv4''))))) \<and>
   ZeroLiteral (LowCardinality (Nullable (Scalar ''IPv4''))) =
     ZeroLiteral (Payload (LowCardinality (Nullable (Scalar ''IPv4''))))"
  by (rule ZeroLiteral_defined) code_simp

end
