(* ===== verification/GoStrings.thy ===== *)
theory GoStrings
  imports GoPrelude "HOL-Library.Sublist"
begin

text \<open>
  The functions of Go's \<^verbatim>\<open>strings\<close> package that the sources use, on byte strings. Where the
  package works on runes, the UTF-8 encodings of the runes concerned are written out.
\<close>

subsection \<open>Searching\<close>

text \<open>\<^verbatim>\<open>strings.IndexByte\<close>: the position of the first occurrence, if any.\<close>

fun IndexByte :: "string \<Rightarrow> char \<Rightarrow> nat option" where
  "IndexByte [] c = None"
| "IndexByte (x # xs) c = (if x = c then Some 0 else map_option Suc (IndexByte xs c))"

lemma IndexByte_Some:
  "IndexByte s c = Some k \<Longrightarrow> k < length s \<and> s ! k = c \<and> c \<notin> set (take k s)"
  by (induction s arbitrary: k) (auto split: if_splits)

lemma IndexByte_None: "IndexByte s c = None \<longleftrightarrow> c \<notin> set s"
  by (induction s) auto

lemma IndexByte_append: "c \<notin> set xs \<Longrightarrow> IndexByte (xs @ c # ys) c = Some (length xs)"
  by (induction xs) auto

text \<open>\<^verbatim>\<open>strings.Index\<close>: the position of the first occurrence of a substring, if any.\<close>

fun strings_Index :: "string \<Rightarrow> string \<Rightarrow> nat option" where
  "strings_Index [] w = (if w = [] then Some 0 else None)"
| "strings_Index (x # xs) w =
     (if prefix w (x # xs) then Some 0 else map_option Suc (strings_Index xs w))"

definition strings_Contains :: "string \<Rightarrow> string \<Rightarrow> bool" where
  "strings_Contains s w = (strings_Index s w \<noteq> None)"

lemma prefix_take_length: "prefix w s \<Longrightarrow> length w \<le> length s \<and> take (length w) s = w"
  by (auto simp: prefix_def)

lemma strings_Index_Some:
  "strings_Index s w = Some k \<Longrightarrow> k + length w \<le> length s \<and> take (length w) (drop k s) = w"
proof (induction s arbitrary: k)
  case (Cons a s)
  then show ?case
    using prefix_take_length [of w "a # s"] by (auto split: if_splits)
qed (auto split: if_splits)

subsection \<open>White space\<close>

text \<open>The encodings of the runes for which \<^verbatim>\<open>unicode.IsSpace\<close> holds.\<close>

definition space_runes :: "string list" where
  "space_runes =
     [[CHR 0x09], [CHR 0x0A], [CHR 0x0B], [CHR 0x0C], [CHR 0x0D], [CHR 0x20],
      [CHR 0xC2, CHR 0x85], [CHR 0xC2, CHR 0xA0], [CHR 0xE1, CHR 0x9A, CHR 0x80],
      [CHR 0xE2, CHR 0x80, CHR 0x80], [CHR 0xE2, CHR 0x80, CHR 0x81],
      [CHR 0xE2, CHR 0x80, CHR 0x82], [CHR 0xE2, CHR 0x80, CHR 0x83],
      [CHR 0xE2, CHR 0x80, CHR 0x84], [CHR 0xE2, CHR 0x80, CHR 0x85],
      [CHR 0xE2, CHR 0x80, CHR 0x86], [CHR 0xE2, CHR 0x80, CHR 0x87],
      [CHR 0xE2, CHR 0x80, CHR 0x88], [CHR 0xE2, CHR 0x80, CHR 0x89],
      [CHR 0xE2, CHR 0x80, CHR 0x8A], [CHR 0xE2, CHR 0x80, CHR 0xA8],
      [CHR 0xE2, CHR 0x80, CHR 0xA9], [CHR 0xE2, CHR 0x80, CHR 0xAF],
      [CHR 0xE2, CHR 0x81, CHR 0x9F], [CHR 0xE3, CHR 0x80, CHR 0x80]]"

text \<open>Strip words of a list from the front, as often as one matches.\<close>

function strip_words :: "string list \<Rightarrow> string \<Rightarrow> string" where
  "strip_words ws s =
     (case find (\<lambda>w. w \<noteq> [] \<and> prefix w s) ws of
        None \<Rightarrow> s
      | Some w \<Rightarrow> strip_words ws (drop (length w) s))"
  by pat_completeness auto
termination
  by (relation "measure (\<lambda>(ws, s). length s)")
    (auto simp: find_Some_iff prefix_def)

declare strip_words.simps [simp del]

definition TrimLeftSpace :: "string \<Rightarrow> string" where
  "TrimLeftSpace s = strip_words space_runes s"

definition TrimRightSpace :: "string \<Rightarrow> string" where
  "TrimRightSpace s = rev (strip_words (map rev space_runes) (rev s))"

definition TrimSpace :: "string \<Rightarrow> string" where
  "TrimSpace s = TrimRightSpace (TrimLeftSpace s)"

text \<open>What \<^verbatim>\<open>TrimSpace\<close> leaves: no white space at either end.\<close>

definition trimmed :: "string \<Rightarrow> bool" where
  "trimmed s \<longleftrightarrow> list_all (\<lambda>w. \<not> prefix w s \<and> \<not> suffix w s) space_runes"

lemma strip_words_clean:
  "w \<in> set ws \<Longrightarrow> w \<noteq> [] \<Longrightarrow> \<not> prefix w (strip_words ws s)"
proof (induction ws s rule: strip_words.induct)
  case (1 ws s)
  then show ?case
    by (subst strip_words.simps)
      (auto split: option.split simp: find_None_iff)
qed

lemma strip_words_suffix: "\<exists>p. s = p @ strip_words ws s"
proof (induction ws s rule: strip_words.induct)
  case (1 ws s)
  show ?case
  proof (cases "find (\<lambda>w. w \<noteq> [] \<and> prefix w s) ws")
    case None
    then show ?thesis by (subst strip_words.simps) simp
  next
    case (Some w)
    with 1 obtain p where "drop (length w) s = p @ strip_words ws (drop (length w) s)" by blast
    then have "s = (take (length w) s @ p) @ strip_words ws (drop (length w) s)"
      by (metis append.assoc append_take_drop_id)
    with Some show ?thesis by (subst strip_words.simps) (simp, metis append.assoc)
  qed
qed

lemma strip_words_id:
  "list_all (\<lambda>w. \<not> prefix w s) ws \<Longrightarrow> strip_words ws s = s"
  by (subst strip_words.simps) (auto split: option.split simp: find_Some_iff list_all_length)

lemma TrimSpace_part: "\<exists>a b. s = a @ TrimSpace s @ b"
proof -
  obtain a where a: "s = a @ TrimLeftSpace s"
    using strip_words_suffix [of s space_runes] by (auto simp: TrimLeftSpace_def)
  obtain b where "rev (TrimLeftSpace s) = b @ rev (TrimSpace s)"
    using strip_words_suffix [of "rev (TrimLeftSpace s)" "map rev space_runes"]
    by (auto simp: TrimSpace_def TrimRightSpace_def)
  then have "TrimLeftSpace s = TrimSpace s @ rev b" by (metis rev_append rev_rev_ident)
  with a show ?thesis by metis
qed

lemma set_TrimSpace: "set (TrimSpace s) \<subseteq> set s"
  using TrimSpace_part [of s] by (metis Un_iff set_append subsetI)

lemma space_runes_ne: "w \<in> set space_runes \<Longrightarrow> w \<noteq> []"
  by (auto simp: space_runes_def)

lemma trimmed_TrimSpace: "trimmed (TrimSpace s)"
proof -
  have suf: "\<not> suffix w (TrimSpace s)" if "w \<in> set space_runes" for w
  proof -
    have "\<not> prefix (rev w) (rev (TrimSpace s))"
      using that space_runes_ne [OF that] strip_words_clean
      by (simp add: TrimSpace_def TrimRightSpace_def)
    then show ?thesis by (simp add: suffix_to_prefix)
  qed
  have "\<not> prefix w (TrimSpace s)" if w: "w \<in> set space_runes" for w
  proof
    assume "prefix w (TrimSpace s)"
    moreover obtain b where "rev (TrimLeftSpace s) = b @ rev (TrimSpace s)"
      using strip_words_suffix [of "rev (TrimLeftSpace s)" "map rev space_runes"]
      by (auto simp: TrimSpace_def TrimRightSpace_def)
    then have "TrimLeftSpace s = TrimSpace s @ rev b" by (metis rev_append rev_rev_ident)
    ultimately have "prefix w (TrimLeftSpace s)" by (simp add: prefix_prefix)
    with strip_words_clean [OF w space_runes_ne [OF w]] show False
      by (simp add: TrimLeftSpace_def)
  qed
  with suf show ?thesis by (simp add: trimmed_def list_all_iff)
qed

lemma TrimSpace_trimmed: "trimmed s \<Longrightarrow> TrimSpace s = s"
proof -
  assume t: "trimmed s"
  then have 1: "TrimLeftSpace s = s"
    by (simp add: TrimLeftSpace_def trimmed_def strip_words_id list_all_iff)
  have "list_all (\<lambda>w. \<not> prefix w (rev s)) (map rev space_runes)"
    using t by (simp add: trimmed_def list_all_iff suffix_to_prefix)
  with 1 show ?thesis by (simp add: TrimSpace_def TrimRightSpace_def strip_words_id)
qed

lemma TrimSpace_idem [simp]: "TrimSpace (TrimSpace s) = TrimSpace s"
  by (simp add: TrimSpace_trimmed trimmed_TrimSpace)

subsection \<open>Splitting\<close>

text \<open>\<^verbatim>\<open>strings.Split\<close> with a separator of one byte.\<close>

fun Split :: "string \<Rightarrow> char \<Rightarrow> string list" where
  "Split [] c = [[]]"
| "Split (x # xs) c =
     (if x = c then [] # Split xs c
      else case Split xs c of [] \<Rightarrow> [[x]] | w # ws \<Rightarrow> (x # w) # ws)"

lemma Split_ne [simp]: "Split s c \<noteq> []"
  by (induction s) (auto split: list.split)

text \<open>\<^verbatim>\<open>strings.Cut\<close> around the first occurrence of a one-byte separator.\<close>

definition Cut :: "string \<Rightarrow> char \<Rightarrow> string \<times> string \<times> bool" where
  "Cut s c = (case IndexByte s c of
     None \<Rightarrow> (s, [], False) | Some k \<Rightarrow> (take k s, drop (k + 1) s, True))"

definition CutPrefix :: "string \<Rightarrow> string \<Rightarrow> string option" where
  "CutPrefix s p = (if prefix p s then Some (drop (length p) s) else None)"

definition CutSuffix :: "string \<Rightarrow> string \<Rightarrow> string option" where
  "CutSuffix s p = (if suffix p s then Some (take (length s - length p) s) else None)"

definition TrimPrefix :: "string \<Rightarrow> string \<Rightarrow> string" where
  "TrimPrefix s p = (if prefix p s then drop (length p) s else s)"

text \<open>\<^verbatim>\<open>strings.LastIndex\<close>, for a word that occurs.\<close>

fun LastIndex :: "string \<Rightarrow> string \<Rightarrow> int" where
  "LastIndex [] w = (if w = [] then 0 else - 1)"
| "LastIndex (x # xs) w =
     (let k = LastIndex xs w in
      if k \<ge> 0 then k + 1 else if prefix w (x # xs) then 0 else - 1)"

text \<open>\<^verbatim>\<open>strings.Fields\<close>: the parts between runs of white space. The white space at the start of a
  text, and the text up to the next white space.\<close>

definition space_at :: "string \<Rightarrow> string option" where
  "space_at s = find (\<lambda>w. prefix w s) space_runes"

fun until_space :: "string \<Rightarrow> string" where
  "until_space [] = []"
| "until_space (x # xs) = (if space_at (x # xs) \<noteq> None then [] else x # until_space xs)"

lemma until_space_le: "length (until_space s) \<le> length s"
  by (induction s) auto

lemma space_at_Some: "space_at s = Some w \<Longrightarrow> w \<noteq> [] \<and> prefix w s"
  using space_runes_ne by (auto simp: space_at_def find_Some_iff)

function Fields :: "string \<Rightarrow> string list" where
  "Fields s =
     (if s = [] then []
      else case space_at s of
        Some w \<Rightarrow> Fields (drop (length w) s)
      | None \<Rightarrow> until_space s # Fields (drop (length (until_space s)) s))"
  by pat_completeness auto
termination
proof (relation "measure length", goal_cases)
  case (2 s)
  then show ?case by (cases s) auto
next
  case (3 s w)
  then show ?case using space_at_Some [of s w] by auto
qed simp

declare Fields.simps [simp del]

subsection \<open>Case\<close>

definition to_lower_byte :: "char \<Rightarrow> char" where
  "to_lower_byte c = (if is_upper c then char_of (byte_val c + 32) else c)"

definition to_upper_byte :: "char \<Rightarrow> char" where
  "to_upper_byte c = (if is_lower c then char_of (byte_val c - 32) else c)"

text \<open>\<^verbatim>\<open>strings.EqualFold\<close> on ASCII strings.\<close>

definition equal_fold :: "string \<Rightarrow> string \<Rightarrow> bool" where
  "equal_fold s t = (map to_lower_byte s = map to_lower_byte t)"

end
