(* ===== verification/ChSql.thy ===== *)
theory ChSql
  imports ChParse GoStrings
begin

text \<open>
  The lexical treatment of ClickHouse queries: \<^verbatim>\<open>internal/ch/statements.go\<close> (skipping literals
  and comments, splitting statements), \<^verbatim>\<open>internal/ch/params.go\<close> (finding and rewriting
  \<^verbatim>\<open>{name:Type}\<close> parameters) and \<^verbatim>\<open>internal/ch/insert.go\<close> (reading the target of an INSERT).
  Positions are byte indices, as in the source; every \<^verbatim>\<open>sql[i]\<close> of the source is guarded by
  \<^verbatim>\<open>i < len(sql)\<close>, and so is every \<open>sql ! i\<close> here.
\<close>

subsection \<open>Skipping literals and comments\<close>

text \<open>The loop of \<^verbatim>\<open>skipLiteral\<close>: a backslash hides the byte after it.\<close>

function literal_end :: "char \<Rightarrow> string \<Rightarrow> nat \<Rightarrow> nat" where
  "literal_end q sql j =
     (if j < length sql then
        if sql ! j = CHR 0x5C then literal_end q sql (j + 2)
        else if sql ! j = q then j + 1
        else literal_end q sql (j + 1)
      else length sql)"
  by pat_completeness auto
termination
  by (relation "measure (\<lambda>(q, sql, j). length sql - j)") auto

declare literal_end.simps [simp del]

definition is_quote :: "char \<Rightarrow> bool" where
  "is_quote c \<longleftrightarrow> c = CHR 0x27 \<or> c = CHR 0x60 \<or> c = CHR 0x22"

definition skipLiteral :: "string \<Rightarrow> nat \<Rightarrow> nat" where
  "skipLiteral sql i = (if \<not> is_quote (sql ! i) then i else literal_end (sql ! i) sql (i + 1))"

function block_end :: "string \<Rightarrow> nat \<Rightarrow> nat" where
  "block_end sql j =
     (if j + 1 < length sql then
        if sql ! j = CHR ''*'' \<and> sql ! (j + 1) = CHR ''/'' then j + 2 else block_end sql (j + 1)
      else length sql)"
  by pat_completeness auto
termination
  by (relation "measure (\<lambda>(sql, j). length sql - j)") auto

declare block_end.simps [simp del]

definition skipComment :: "string \<Rightarrow> nat \<Rightarrow> nat" where
  "skipComment sql i =
     (if sql ! i = CHR ''-'' \<and> i + 1 < length sql \<and> sql ! (i + 1) = CHR ''-'' then
        scan_while (\<lambda>c. c \<noteq> CHR 0x0A) sql (i + 2)
      else if sql ! i = CHR ''/'' \<and> i + 1 < length sql \<and> sql ! (i + 1) = CHR ''*'' then
        block_end sql (i + 2)
      else i)"

text \<open>What the loops over a query rely on: a skipper stays where it is or moves forward, and
  never leaves the query.\<close>

locale skipper =
  fixes skip :: "string \<Rightarrow> nat \<Rightarrow> nat"
  assumes skip_ge: "i < length sql \<Longrightarrow> i \<le> skip sql i"
    and skip_le: "i < length sql \<Longrightarrow> skip sql i \<le> length sql"
begin

lemma skip_progress:
  assumes "i < length sql" "skip sql i \<noteq> i"
  shows "i < skip sql i" and "length sql - skip sql i < length sql - i"
  using skip_ge [OF assms(1)] assms by auto

end

lemma literal_end_bounds:
  "j \<le> length sql \<Longrightarrow> j \<le> literal_end q sql j \<and> literal_end q sql j \<le> length sql"
proof (induction q sql j rule: literal_end.induct)
  case (1 q sql j)
  show ?case
  proof (cases "j + 2 \<le> length sql")
    case True
    with 1 show ?thesis by (subst literal_end.simps, subst literal_end.simps) auto
  next
    case False
    then have "literal_end q sql (j + 2) = length sql" by (simp add: literal_end.simps)
    with 1 show ?thesis by (subst literal_end.simps, subst literal_end.simps) auto
  qed
qed

lemma block_end_bounds:
  "j \<le> length sql \<Longrightarrow> j \<le> block_end sql j \<and> block_end sql j \<le> length sql"
proof (induction sql j rule: block_end.induct)
  case (1 sql j)
  then show ?case by (subst block_end.simps, subst block_end.simps) auto
qed

interpretation literal: skipper skipLiteral
proof
  fix sql :: string and i
  assume "i < length sql"
  with literal_end_bounds [of "i + 1" sql "sql ! i"]
  show "i \<le> skipLiteral sql i" "skipLiteral sql i \<le> length sql"
    by (auto simp: skipLiteral_def)
qed

interpretation comment: skipper skipComment
proof
  fix sql :: string and i
  assume "i < length sql"
  with block_end_bounds [of "i + 2" sql] scan_while_ge [of "i + 2" "\<lambda>c. c \<noteq> CHR 0x0A" sql]
    scan_while_le [of "i + 2" sql "\<lambda>c. c \<noteq> CHR 0x0A"]
  show "i \<le> skipComment sql i" "skipComment sql i \<le> length sql"
    by (auto simp: skipComment_def)
qed

subsection \<open>Splitting statements\<close>

definition flush_stmt :: "string list \<Rightarrow> string \<Rightarrow> string list" where
  "flush_stmt stmts sb = (let stmt = TrimSpace sb in if stmt \<noteq> [] then stmts @ [stmt] else stmts)"

text \<open>\<^verbatim>\<open>sql[i:j]\<close>\<close>

definition go_slice :: "string \<Rightarrow> nat \<Rightarrow> nat \<Rightarrow> string" where
  "go_slice s i j = take (j - i) (drop i s)"

function split_loop :: "string \<Rightarrow> nat \<Rightarrow> string list \<Rightarrow> string \<Rightarrow> string list" where
  "split_loop sql i stmts sb =
     (if i < length sql then
        if skipComment sql i \<noteq> i then
          split_loop sql (skipComment sql i) stmts (sb @ [CHR 0x0A])
        else if skipLiteral sql i \<noteq> i then
          split_loop sql (skipLiteral sql i) stmts (sb @ go_slice sql i (skipLiteral sql i))
        else if sql ! i = CHR '';'' then split_loop sql (i + 1) (flush_stmt stmts sb) []
        else split_loop sql (i + 1) stmts (sb @ [sql ! i])
      else flush_stmt stmts sb)"
  by pat_completeness auto
termination
  by (relation "measure (\<lambda>(sql, i, stmts, sb). length sql - i)")
    (auto intro: comment.skip_progress literal.skip_progress)

declare split_loop.simps [simp del]

definition SplitStatements :: "string \<Rightarrow> string list" where
  "SplitStatements sql = split_loop sql 0 [] []"

datatype sql_error =
    EmptyQuery
  | ManyStatements nat
  | UnclosedBrace
  | MissingType string
  | MissingName string
  | BadParamType string ch_error
  | ConflictingTypes string chtype chtype

definition SingleStatement :: "string \<Rightarrow> sql_error + string" where
  "SingleStatement sql =
     (case SplitStatements sql of
        [] \<Rightarrow> Inl EmptyQuery
      | [stmt] \<Rightarrow> Inr stmt
      | stmts \<Rightarrow> Inl (ManyStatements (length stmts)))"

subsection \<open>Parameters\<close>

record Param =
  p_name :: string
  p_type :: chtype

text \<open>The body of a brace: the name before the first colon, the type after it.\<close>

definition parse_param :: "string \<Rightarrow> sql_error + Param" where
  "parse_param body =
     (case IndexByte body CHR '':'' of
        None \<Rightarrow> Inl (MissingType body)
      | Some colon \<Rightarrow>
          (let name = TrimSpace (take colon body) in
           if name = [] then Inl (MissingName body)
           else case Parse (TrimSpace (drop (colon + 1) body)) of
             Inl e \<Rightarrow> Inl (BadParamType name e)
           | Inr typ \<Rightarrow> Inr \<lparr>p_name = name, p_type = typ\<rparr>))"

text \<open>\<^verbatim>\<open>scanSQL\<close>: the callbacks of the source update captured variables; here they are
  functions on a state that the scan passes along. \<^verbatim>\<open>prev\<close> is where the text not yet emitted
  starts.\<close>

definition emitText :: "(string \<Rightarrow> 's \<Rightarrow> 's) \<Rightarrow> string \<Rightarrow> nat \<Rightarrow> nat \<Rightarrow> 's \<Rightarrow> 's" where
  "emitText onText sql prev hi st = (if hi > prev then onText (go_slice sql prev hi) st else st)"

function scan_loop :: "(string \<Rightarrow> 's \<Rightarrow> 's) \<Rightarrow> (Param \<Rightarrow> 's \<Rightarrow> sql_error + 's) \<Rightarrow> string
    \<Rightarrow> nat \<Rightarrow> nat \<Rightarrow> 's \<Rightarrow> sql_error + 's" where
  "scan_loop onText onParam sql i prev st =
     (if i < length sql then
        if skipComment sql i \<noteq> i then scan_loop onText onParam sql (skipComment sql i) prev st
        else if skipLiteral sql i \<noteq> i then scan_loop onText onParam sql (skipLiteral sql i) prev st
        else if sql ! i = CHR ''{'' then
          (case IndexByte (drop i sql) CHR ''}'' of
             None \<Rightarrow> Inl UnclosedBrace
           | Some e \<Rightarrow>
               res_bind (parse_param (go_slice sql (i + 1) (i + e))) (\<lambda>p.
               res_bind (onParam p (emitText onText sql prev i st)) (\<lambda>st'.
                 scan_loop onText onParam sql (i + e + 1) (i + e + 1) st')))
        else scan_loop onText onParam sql (i + 1) prev st
      else Inr (emitText onText sql prev (length sql) st))"
  by pat_completeness auto
termination
  by (relation "measure (\<lambda>(onText, onParam, sql, i, prev, st). length sql - i)")
    (auto intro: comment.skip_progress literal.skip_progress)

declare scan_loop.simps [simp del]

definition scanSQL :: "string \<Rightarrow> (string \<Rightarrow> 's \<Rightarrow> 's) \<Rightarrow> (Param \<Rightarrow> 's \<Rightarrow> sql_error + 's)
    \<Rightarrow> 's \<Rightarrow> sql_error + 's" where
  "scanSQL sql onText onParam st = scan_loop onText onParam sql 0 0 st"

text \<open>\<^verbatim>\<open>ScanParams\<close> keeps the parameters in order of first appearance. The map \<^verbatim>\<open>seen\<close> of the
  source holds the types of the parameters kept so far.\<close>

record scan_state =
  ss_params :: "Param list"
  ss_seen :: "string \<rightharpoonup> chtype"

definition collect_param :: "Param \<Rightarrow> scan_state \<Rightarrow> sql_error + scan_state" where
  "collect_param p st =
     (case ss_seen st (p_name p) of
        Some prev \<Rightarrow>
          if type_string prev \<noteq> type_string (p_type p)
          then Inl (ConflictingTypes (p_name p) prev (p_type p)) else Inr st
      | None \<Rightarrow> Inr (st\<lparr>ss_seen := (ss_seen st)(p_name p \<mapsto> p_type p),
                       ss_params := ss_params st @ [p]\<rparr>))"

definition ScanParams :: "string \<Rightarrow> sql_error + Param list" where
  "ScanParams sql =
     map_res ss_params
       (scanSQL sql (\<lambda>text st. st) collect_param \<lparr>ss_params = [], ss_seen = Map.empty\<rparr>)"

text \<open>The rewriters append to a string builder.\<close>

definition write_text :: "string \<Rightarrow> string \<Rightarrow> string" where
  "write_text text sb = sb @ text"

definition SubstituteIdentifiers :: "string \<Rightarrow> (string \<Rightarrow> string) \<Rightarrow> sql_error + string" where
  "SubstituteIdentifiers sql value =
     scanSQL sql write_text
       (\<lambda>p sb. Inr (let v = value (p_name p) in
          if IsIdentifier (p_type p) \<and> v \<noteq> [] then sb @ v
          else sb @ ''{'' @ p_name p @ '':'' @ type_string (p_type p) @ ''}'')) []"

definition RewriteParams :: "string \<Rightarrow> sql_error + string" where
  "RewriteParams sql =
     scanSQL sql write_text
       (\<lambda>p sb. Inr (if IsIdentifier (p_type p) then sb @ ''{'' @ p_name p @ '':Identifier}''
          else sb @ ''cast(@'' @ p_name p @ '' AS '' @ type_string (p_type p) @ '')'')) []"

definition RenameParams :: "string \<Rightarrow> (string \<Rightarrow> string) \<Rightarrow> sql_error + string" where
  "RenameParams sql rename =
     scanSQL sql write_text
       (\<lambda>p sb. Inr (sb @ ''{'' @ rename (p_name p) @ '':'' @ type_string (p_type p) @ ''}'')) []"

end
