(* ===== verification/ChLex.thy ===== *)
theory ChLex
  imports ChSql
begin

text \<open>
  The lexical structure of a query, on the text that is still to be read instead of on
  positions: how long the comment or literal at its start is. The position loops of \<open>ChSql\<close>
  are shown equal to recursions over the remaining text, and the facts of \<open>ChSqlFacts\<close> are
  proved on those.
\<close>

subsection \<open>Lengths of literals and comments\<close>

fun lit_len :: "char \<Rightarrow> string \<Rightarrow> nat" where
  "lit_len q [] = 0"
| "lit_len q [c] = 1"
| "lit_len q (c # d # cs) =
     (if c = CHR 0x5C then 2 + lit_len q cs else if c = q then 1 else 1 + lit_len q (d # cs))"

lemma lit_len_Cons:
  "lit_len q (c # cs) = (if c = CHR 0x5C then (if cs = [] then 1 else 2 + lit_len q (tl cs))
     else if c = q then 1 else 1 + lit_len q cs)"
  by (cases cs) auto

fun blk_len :: "string \<Rightarrow> nat" where
  "blk_len [] = 0"
| "blk_len [c] = 1"
| "blk_len (c # d # cs) = (if c = CHR ''*'' \<and> d = CHR ''/'' then 2 else 1 + blk_len (d # cs))"

definition line_len :: "string \<Rightarrow> nat" where
  "line_len s = length (takeWhile (\<lambda>c. c \<noteq> CHR 0x0A) s)"

fun literal_len :: "string \<Rightarrow> nat" where
  "literal_len [] = 0"
| "literal_len (q # s) = (if is_quote q then 1 + lit_len q s else 0)"

fun comment_len :: "string \<Rightarrow> nat" where
  "comment_len (c # d # s) =
     (if c = CHR ''-'' \<and> d = CHR ''-'' then 2 + line_len s
      else if c = CHR ''/'' \<and> d = CHR ''*'' then 2 + blk_len s else 0)"
| "comment_len s = 0"

lemma lit_len_le: "lit_len q s \<le> length s"
  by (induction q s rule: lit_len.induct) auto

lemma blk_len_le: "blk_len s \<le> length s"
  by (induction s rule: blk_len.induct) auto

lemma line_len_le: "line_len s \<le> length s"
  by (simp add: line_len_def length_takeWhile_le)

lemma literal_len_le: "literal_len s \<le> length s"
  using lit_len_le by (cases s) auto

lemma comment_len_le: "comment_len s \<le> length s"
  using blk_len_le line_len_le by (cases s rule: comment_len.cases) auto

lemma literal_end_len: "j \<le> length sql \<Longrightarrow> literal_end q sql j = j + lit_len q (drop j sql)"
proof (induction q sql j rule: literal_end.induct)
  case (1 q sql j)
  show ?case
  proof (cases "j < length sql")
    case True
    then have d: "drop j sql = sql ! j # drop (Suc j) sql" by (simp add: Cons_nth_drop_Suc)
    have "literal_end q sql (j + 2) = j + 2 + lit_len q (drop (j + 2) sql) \<and> Suc j < length sql
        \<or> literal_end q sql (j + 2) = Suc j \<and> Suc j = length sql" if "sql ! j = CHR 0x5C"
    proof (cases "j + 2 \<le> length sql")
      case True
      with 1(1) that \<open>j < length sql\<close> show ?thesis by simp
    next
      case False
      with \<open>j < length sql\<close> show ?thesis by (simp add: literal_end.simps)
    qed
    then show ?thesis
      using 1(2) True d
      by (subst literal_end.simps) (auto simp: lit_len_Cons drop_Suc tl_drop numeral_2_eq_2)
  next
    case False
    with 1(3) show ?thesis by (simp add: literal_end.simps)
  qed
qed

lemma block_end_len: "j \<le> length sql \<Longrightarrow> block_end sql j = j + blk_len (drop j sql)"
proof (induction sql j rule: block_end.induct)
  case (1 sql j)
  show ?case
  proof (cases "j + 1 < length sql")
    case True
    then have "drop j sql = sql ! j # sql ! Suc j # drop (Suc (Suc j)) sql"
      and "drop (Suc j) sql = sql ! Suc j # drop (Suc (Suc j)) sql"
      by (simp_all add: Cons_nth_drop_Suc)
    with 1 True show ?thesis by (subst block_end.simps) auto
  next
    case False
    with 1(2) consider "j = length sql" | "Suc j = length sql" by linarith
    then show ?thesis
    proof cases
      case 2
      then have "drop j sql = [sql ! j]" by (simp add: Cons_nth_drop_Suc [symmetric])
      with 2 show ?thesis by (simp add: block_end.simps)
    qed (simp add: block_end.simps)
  qed
qed

lemma skipLiteral_len:
  assumes "i < length sql"
  shows "skipLiteral sql i = i + literal_len (drop i sql)"
proof -
  have "drop i sql = sql ! i # drop (Suc i) sql" using assms by (simp add: Cons_nth_drop_Suc)
  then show ?thesis
    using assms literal_end_len [of "i + 1" sql "sql ! i"] by (simp add: skipLiteral_def)
qed

lemma skipComment_len:
  assumes "i < length sql"
  shows "skipComment sql i = i + comment_len (drop i sql)"
proof (cases "i + 1 < length sql")
  case True
  then have "drop i sql = sql ! i # sql ! Suc i # drop (i + 2) sql"
    by (simp add: Cons_nth_drop_Suc)
  then show ?thesis
    using True block_end_len [of "i + 2" sql]
    by (simp add: skipComment_def scan_while_eq line_len_def)
next
  case False
  with assms have "drop i sql = [sql ! i]" by (simp add: Cons_nth_drop_Suc [symmetric])
  with False show ?thesis by (simp add: skipComment_def)
qed

subsection \<open>What the lengths depend on\<close>

text \<open>A literal or comment that ends before the end of the text ends there whatever follows.\<close>

lemma lit_len_local:
  "lit_len q (c @ r) \<le> length c \<Longrightarrow> r \<noteq> [] \<Longrightarrow> lit_len q (c @ r') = lit_len q (c @ r)"
proof (induction q c rule: lit_len.induct)
  case (1 q)
  then show ?case by (cases r) (auto simp: lit_len_Cons split: if_splits)
next
  case (2 q c)
  then show ?case by (cases r) (auto simp: lit_len_Cons split: if_splits)
next
  case (3 q c d cs)
  then show ?case by (auto split: if_splits)
qed

lemma blk_len_local:
  "blk_len (c @ r) \<le> length c \<Longrightarrow> r \<noteq> [] \<Longrightarrow> blk_len (c @ r') = blk_len (c @ r)"
proof (induction c rule: blk_len.induct)
  case 1
  then show ?case by (cases r rule: blk_len.cases) (auto split: if_splits)
next
  case (2 c)
  then show ?case
    by (cases r rule: blk_len.cases) (auto split: if_splits)
next
  case (3 c d cs)
  then show ?case by (auto split: if_splits)
qed

lemma lit_len_take: "lit_len q (take k s) = min k (lit_len q s)"
proof (induction q s arbitrary: k rule: lit_len.induct)
  case (2 q c)
  then show ?case by (cases k) auto
next
  case (3 q c d cs)
  show ?case
  proof (cases k)
    case (Suc j)
    show ?thesis
    proof (cases j)
      case (Suc n)
      with \<open>k = Suc j\<close> 3(1) [of n] 3(2) [of j] show ?thesis by auto
    qed (use Suc in simp)
  qed simp
qed simp

end
