(* ===== verification/ChParamFacts.thy ===== *)
theory ChParamFacts
  imports ChLex ChRoundTrip
begin

text \<open>
  Facts about the parameters of a query: \<^verbatim>\<open>scanSQL\<close> cuts a query into texts and parameters, the
  rewriters put the same texts together again with the parameters replaced, and what they
  write is read back with exactly the parameters that were kept.
\<close>

subsection \<open>The texts and parameters of a query\<close>

text \<open>The length of the text before the first parameter.\<close>

function plain_len :: "string \<Rightarrow> nat" where
  "plain_len s =
     (if s = [] then 0
      else if comment_len s \<noteq> 0 then comment_len s + plain_len (drop (comment_len s) s)
      else if literal_len s \<noteq> 0 then literal_len s + plain_len (drop (literal_len s) s)
      else if hd s = CHR ''{'' then 0
      else 1 + plain_len (tl s))"
  by pat_completeness auto
termination
  by (relation "measure length") auto

declare plain_len.simps [simp del]

lemma plain_len_Nil [simp]: "plain_len [] = 0"
  by (simp add: plain_len.simps)

lemma plain_len_brace [simp]: "plain_len (CHR ''{'' # s) = 0"
  by (cases s) (simp_all add: plain_len.simps is_quote_def)

lemma plain_len_le: "plain_len s \<le> length s"
proof (induction s rule: plain_len.induct)
  case (1 s)
  show ?case
    using 1 comment_len_le [of s] literal_len_le [of s]
    by (subst plain_len.simps) (auto, (cases s; simp)+)
qed

lemma plain_len_stop: "drop (plain_len s) s \<noteq> [] \<Longrightarrow> hd (drop (plain_len s) s) = CHR ''{''"
proof (induction s rule: plain_len.induct)
  case (1 s)
  then show ?case
    by (subst plain_len.simps, subst (asm) (3) plain_len.simps)
      (auto simp: add.commute drop_Suc split: if_splits)
qed

datatype item = TextItem string | ParamItem Param

definition text_item :: "string \<Rightarrow> item list" where
  "text_item t = (if t = [] then [] else [TextItem t])"

text \<open>The items of a query \<open>s\<close> that is preceded by the pending text \<open>u\<close>.\<close>

function items :: "string \<Rightarrow> string \<Rightarrow> sql_error + item list" where
  "items u s =
     (let t = text_item (u @ take (plain_len s) s); r = drop (plain_len s) s in
      if r = [] then Inr t
      else case IndexByte r CHR ''}'' of
        None \<Rightarrow> Inl UnclosedBrace
      | Some e \<Rightarrow>
          res_bind (parse_param (go_slice r 1 e)) (\<lambda>p.
          map_res (\<lambda>its. t @ ParamItem p # its) (items [] (drop (e + 1) r))))"
  by pat_completeness auto
termination
  by (relation "measure (\<lambda>(u, s). length s)") auto

declare items.simps [simp del]

fun run_items :: "(string \<Rightarrow> 's \<Rightarrow> 's) \<Rightarrow> (Param \<Rightarrow> 's \<Rightarrow> sql_error + 's) \<Rightarrow> item list \<Rightarrow> 's
    \<Rightarrow> sql_error + 's" where
  "run_items onText onParam [] st = Inr st"
| "run_items onText onParam (TextItem t # its) st = run_items onText onParam its (onText t st)"
| "run_items onText onParam (ParamItem p # its) st =
     res_bind (onParam p st) (run_items onText onParam its)"

text \<open>\<^verbatim>\<open>scanSQL\<close> on the remaining text.\<close>

function scan_text :: "(string \<Rightarrow> 's \<Rightarrow> 's) \<Rightarrow> (Param \<Rightarrow> 's \<Rightarrow> sql_error + 's) \<Rightarrow> string \<Rightarrow> string
    \<Rightarrow> 's \<Rightarrow> sql_error + 's" where
  "scan_text onText onParam u s st =
     (let t = u @ take (plain_len s) s; r = drop (plain_len s) s;
          st1 = (if t = [] then st else onText t st) in
      if r = [] then Inr st1
      else case IndexByte r CHR ''}'' of
        None \<Rightarrow> Inl UnclosedBrace
      | Some e \<Rightarrow>
          res_bind (parse_param (go_slice r 1 e)) (\<lambda>p.
          res_bind (onParam p st1) (\<lambda>st2. scan_text onText onParam [] (drop (e + 1) r) st2)))"
  by pat_completeness auto
termination
  by (relation "measure (\<lambda>(onText, onParam, u, s, st). length s)") auto

declare scan_text.simps [simp del]

lemma scan_text_skip:
  assumes "plain_len s = k + plain_len (drop k s)"
  shows "scan_text onText onParam u s st = scan_text onText onParam (u @ take k s) (drop k s) st"
  using assms
  by (subst (1 2) scan_text.simps) (simp add: take_add add.commute)

lemma take_1_hd: "s \<noteq> [] \<Longrightarrow> take 1 s = [hd s]"
  by (cases s) auto

lemma go_slice_extend:
  assumes "prev \<le> i"
  shows "go_slice sql prev i @ take k (drop i sql) = go_slice sql prev (i + k)"
proof -
  obtain d where i: "i = prev + d" using assms le_Suc_ex by blast
  then have "drop i sql = drop d (drop prev sql)" by (simp add: add.commute)
  then show ?thesis by (simp add: go_slice_def i take_add)
qed

lemma go_slice_ne: "prev \<le> i \<Longrightarrow> i \<le> length sql \<Longrightarrow> go_slice sql prev i = [] \<longleftrightarrow> prev = i"
  by (auto simp: go_slice_def)

lemma scan_loop_text:
  "prev \<le> i \<Longrightarrow> i \<le> length sql \<Longrightarrow>
     scan_loop onText onParam sql i prev st =
       scan_text onText onParam (go_slice sql prev i) (drop i sql) st"
proof (induction onText onParam sql i prev st rule: scan_loop.induct)
  case (1 onText onParam sql i prev st)
  let ?s = "drop i sql"
  show ?case
  proof (cases "i < length sql")
    case True
    have len: "skipComment sql i = i + comment_len ?s" "skipLiteral sql i = i + literal_len ?s"
      using True by (simp_all add: skipComment_len skipLiteral_len)
    have le: "i + comment_len ?s \<le> length sql" "i + literal_len ?s \<le> length sql"
      using comment_len_le [of ?s] literal_len_le [of ?s] True by simp_all
    have ne: "?s \<noteq> []" and hd: "hd ?s = sql ! i" using True by (simp_all add: hd_drop_conv_nth)
    have step: "scan_text onText onParam (go_slice sql prev i) ?s st =
        scan_text onText onParam (go_slice sql prev (i + k)) (drop (i + k) sql) st"
      if "plain_len ?s = k + plain_len (drop k ?s)" for k
      using scan_text_skip [OF that, of onText onParam "go_slice sql prev i" st]
        go_slice_extend [OF 1(5), of sql k] by (simp add: add.commute)
    consider (comment) "comment_len ?s \<noteq> 0" | (literal) "comment_len ?s = 0" "literal_len ?s \<noteq> 0"
      | (param) "comment_len ?s = 0" "literal_len ?s = 0" "sql ! i = CHR ''{''"
      | (byte) "comment_len ?s = 0" "literal_len ?s = 0" "sql ! i \<noteq> CHR ''{''"
      by blast
    then show ?thesis
    proof cases
      case comment
      then have "plain_len ?s = comment_len ?s + plain_len (drop (comment_len ?s) ?s)"
        using ne by (simp add: plain_len.simps [of ?s])
      from step [OF this] show ?thesis
        using 1(1) 1(5) True comment len le by (subst scan_loop.simps) simp
    next
      case literal
      then have "plain_len ?s = literal_len ?s + plain_len (drop (literal_len ?s) ?s)"
        using ne by (simp add: plain_len.simps [of ?s])
      from step [OF this] show ?thesis
        using 1(2) 1(5) True literal len le by (subst scan_loop.simps) simp
    next
      case byte
      then have "plain_len ?s = 1 + plain_len (drop 1 ?s)"
        using ne hd by (simp add: plain_len.simps [of ?s] drop_Suc tl_drop)
      from step [OF this] show ?thesis
        using 1(4) 1(5) True byte len by (subst scan_loop.simps) simp
    next
      case param
      then have pl: "plain_len ?s = 0" using ne hd by (simp add: plain_len.simps [of ?s])
      have em: "emitText onText sql prev i st =
          (if go_slice sql prev i = [] then st else onText (go_slice sql prev i) st)"
        using go_slice_ne [OF 1(5,6)] 1(5) by (simp add: emitText_def)
      have "scan_loop onText onParam sql (i + e + 1) (i + e + 1) st' =
          scan_text onText onParam [] (drop (e + 1) ?s) st'"
        if "IndexByte ?s CHR ''}'' = Some e" "parse_param (go_slice sql (i + 1) (i + e)) = Inr p"
          "onParam p (emitText onText sql prev i st) = Inr st'" for e p st'
      proof -
        have "i + e + 1 \<le> length sql" using IndexByte_Some [OF that(1)] by auto
        then show ?thesis
          using 1(3) [OF True _ _ param(3) that(1,2,3)] len param
          by (simp add: go_slice_def add.commute)
      qed
      moreover have "go_slice sql (i + 1) (i + e) = go_slice ?s 1 e" for e
        by (simp add: go_slice_def)
      ultimately show ?thesis
        using True param len pl ne em
        by (subst scan_loop.simps, subst scan_text.simps)
          (auto simp: Let_def split: option.split intro!: res_bind_cong)
    qed
  next
    case False
    with 1(5,6) go_slice_ne [of prev i sql] show ?thesis
      by (subst scan_loop.simps, subst scan_text.simps)
        (auto simp: emitText_def go_slice_def)
  qed
qed

lemma scanSQL_text: "scanSQL sql onText onParam st = scan_text onText onParam [] sql st"
  by (simp add: scanSQL_def scan_loop_text go_slice_def)

lemma run_items_text [simp]:
  "run_items onText onParam (text_item t @ its) st =
     run_items onText onParam its (if t = [] then st else onText t st)"
  by (simp add: text_item_def)

text \<open>A scan is a run over the items; it fails where the items or a callback do.\<close>

lemma scan_text_items:
  "items u s = Inr its \<Longrightarrow> scan_text onText onParam u s st = run_items onText onParam its st"
proof (induction u s arbitrary: its st rule: items.induct)
  case (1 u s)
  let ?r = "drop (plain_len s) s"
  show ?case
  proof (cases "?r = []")
    case True
    then have "take (plain_len s) s = s" by simp
    with 1(2) True run_items_text [of onText onParam "u @ s" "[]" st] show ?thesis
      by (subst scan_text.simps) (simp add: items.simps [of u s] Let_def split: if_splits)
  next
    case False
    with 1(2) obtain e p its' where e: "IndexByte ?r CHR ''}'' = Some e"
      and p: "parse_param (go_slice ?r 1 e) = Inr p" and its': "items [] (drop (e + 1) ?r) = Inr its'"
      and its: "its = text_item (u @ take (plain_len s) s) @ ParamItem p # its'"
      by (auto simp: items.simps [of u s] Let_def split: option.splits)
    have "scan_text onText onParam [] (drop (e + 1) ?r) = run_items onText onParam its'"
      using 1(1) [OF refl refl False e p its'] by (rule ext)
    with False e p its show ?thesis by (subst scan_text.simps) (simp add: Let_def)
  qed
qed

lemma scan_text_Inr:
  "scan_text onText onParam u s st = Inr st' \<Longrightarrow> \<exists>its. items u s = Inr its"
proof (induction u s arbitrary: st rule: items.induct)
  case (1 u s)
  let ?r = "drop (plain_len s) s"
  show ?case
  proof (cases "?r = []")
    case True
    then show ?thesis by (subst items.simps) simp
  next
    case False
    with 1(2) obtain e p st2 where e: "IndexByte ?r CHR ''}'' = Some e"
      and p: "parse_param (go_slice ?r 1 e) = Inr p"
      and rec: "scan_text onText onParam [] (drop (e + 1) ?r) st2 = Inr st'"
      by (auto simp: scan_text.simps [of _ _ u s] Let_def split: option.splits)
    from 1(1) [OF refl refl False e p rec] obtain its' where "items [] (drop (e + 1) ?r) = Inr its'" ..
    with False e p show ?thesis by (subst items.simps) (simp add: Let_def)
  qed
qed

text \<open>A scan whose callbacks never fail collects the items.\<close>

lemma scan_text_total:
  fixes onText :: "string \<Rightarrow> 's \<Rightarrow> 's" and g :: "Param \<Rightarrow> 's \<Rightarrow> 's"
  defines "onParam \<equiv> \<lambda>p st. Inr (g p st)"
  shows "scan_text onText onParam u s st =
    map_res (\<lambda>its. fold (\<lambda>it. case it of TextItem t \<Rightarrow> onText t | ParamItem p \<Rightarrow> g p) its st) (items u s)"
proof (cases "items u s")
  case (Inr its)
  have "run_items onText onParam its st =
      Inr (fold (\<lambda>it. case it of TextItem t \<Rightarrow> onText t | ParamItem p \<Rightarrow> g p) its st)" for st
  proof (induction its arbitrary: st)
    case (Cons it its)
    then show ?case by (cases it) (simp_all add: onParam_def)
  qed simp
  with Inr show ?thesis by (simp add: scan_text_items [OF Inr])
next
  case (Inl e)
  have "items u s = Inl e \<Longrightarrow> scan_text onText onParam u s st = Inl e" for u s st
  proof (induction u s arbitrary: st rule: items.induct)
    case (1 u s)
    let ?r = "drop (plain_len s) s"
    from 1(2) have ne: "?r \<noteq> []" by (auto simp: items.simps [of u s] Let_def)
    show ?case
    proof (cases "IndexByte ?r CHR ''}''")
      case None
      with 1(2) ne show ?thesis by (subst scan_text.simps) (simp add: items.simps [of u s] Let_def)
    next
      case (Some k)
      show ?thesis
      proof (cases "parse_param (go_slice ?r 1 k)")
        case (Inl e')
        with 1(2) ne Some show ?thesis
          by (subst scan_text.simps) (simp add: items.simps [of u s] Let_def)
      next
        case (Inr p)
        with 1(2) ne Some have "items [] (drop (k + 1) ?r) = Inl e"
          by (simp add: items.simps [of u s] Let_def)
        from 1(1) [OF refl refl ne Some Inr this] ne Some Inr show ?thesis
          by (subst scan_text.simps) (simp add: Let_def onParam_def)
      qed
    qed
  qed
  with Inl show ?thesis by simp
qed

subsection \<open>The rewriters\<close>

definition render :: "(Param \<Rightarrow> string) \<Rightarrow> item \<Rightarrow> string" where
  "render f it = (case it of TextItem t \<Rightarrow> t | ParamItem p \<Rightarrow> f p)"

lemma fold_render:
  "fold (\<lambda>it. case it of TextItem t \<Rightarrow> write_text t | ParamItem p \<Rightarrow> (\<lambda>sb. sb @ f p)) its sb =
     sb @ concat (map (render f) its)"
  by (induction its arbitrary: sb) (auto simp: render_def write_text_def split: item.split)

lemma scan_render:
  "scanSQL sql write_text (\<lambda>p sb. Inr (sb @ f p)) [] =
     map_res (\<lambda>its. concat (map (render f) its)) (items [] sql)"
  by (simp add: scanSQL_text scan_text_total fold_render)

definition braced :: "string \<Rightarrow> chtype \<Rightarrow> string" where
  "braced n t = ''{'' @ n @ '':'' @ type_string t @ ''}''"

lemma RenameParams_render:
  "RenameParams sql f =
     map_res (\<lambda>its. concat (map (render (\<lambda>p. braced (f (p_name p)) (p_type p))) its)) (items [] sql)"
  unfolding RenameParams_def braced_def by (rule scan_render)

definition substituted :: "(string \<Rightarrow> string) \<Rightarrow> Param \<Rightarrow> string" where
  "substituted value p =
     (if IsIdentifier (p_type p) \<and> value (p_name p) \<noteq> [] then value (p_name p)
      else braced (p_name p) (p_type p))"

lemma SubstituteIdentifiers_render:
  "SubstituteIdentifiers sql value =
     map_res (\<lambda>its. concat (map (render (substituted value)) its)) (items [] sql)"
proof -
  have "(\<lambda>p sb. Inr (let v = value (p_name p) in
          if IsIdentifier (p_type p) \<and> v \<noteq> [] then sb @ v
          else sb @ ''{'' @ p_name p @ '':'' @ type_string (p_type p) @ ''}'')) =
      (\<lambda>p sb. Inr (sb @ substituted value p) :: sql_error + string)"
    by (intro ext) (simp add: substituted_def braced_def Let_def)
  then show ?thesis unfolding SubstituteIdentifiers_def by (simp only: scan_render)
qed

definition rewritten :: "Param \<Rightarrow> string" where
  "rewritten p =
     (if IsIdentifier (p_type p) then braced (p_name p) (p_type p)
      else ''cast(@'' @ p_name p @ '' AS '' @ type_string (p_type p) @ '')'')"

lemma RewriteParams_render:
  "RewriteParams sql = map_res (\<lambda>its. concat (map (render rewritten) its)) (items [] sql)"
proof -
  have "(\<lambda>p sb. Inr (if IsIdentifier (p_type p) then sb @ ''{'' @ p_name p @ '':Identifier}''
          else sb @ ''cast(@'' @ p_name p @ '' AS '' @ type_string (p_type p) @ '')'')) =
      (\<lambda>p sb. Inr (sb @ rewritten p) :: sql_error + string)"
    by (intro ext) (auto simp: rewritten_def braced_def IsIdentifier_def split: chtype.splits)
  then show ?thesis unfolding RewriteParams_def by (simp only: scan_render)
qed

end
