(* ===== verification/ChReread.thy ===== *)
theory ChReread
  imports ChParamFacts
begin

text \<open>
  A rewritten query is read back with exactly the parameters that the rewriter kept: a
  comment, a literal or a parameter of the original text is never joined with what is written
  in the place of a parameter.
\<close>

subsection \<open>Texts that can be continued\<close>

text \<open>A closed text is plain whatever follows it. A cut text is plain if what follows cannot
  complete a comment sign.\<close>

definition closed :: "string \<Rightarrow> bool" where
  "closed v \<longleftrightarrow> (\<forall>post. plain_len (v @ post) = length v + plain_len post)"

definition opens :: "char \<Rightarrow> bool" where
  "opens x \<longleftrightarrow> x \<noteq> CHR ''-'' \<and> x \<noteq> CHR ''*'' \<and> x \<noteq> CHR 0x0A"

definition cuts :: "string \<Rightarrow> bool" where
  "cuts c \<longleftrightarrow> (\<forall>x post. opens x \<longrightarrow> plain_len (c @ x # post) = length c + plain_len (x # post))"

lemma closedD: "closed v \<Longrightarrow> plain_len (v @ post) = length v + plain_len post"
  by (simp add: closed_def)

lemma closed_Nil [simp]: "closed []"
  by (simp add: closed_def)

lemma closed_append: "closed v \<Longrightarrow> closed w \<Longrightarrow> closed (v @ w)"
  by (simp add: closed_def)

lemma closed_concat: "list_all closed vs \<Longrightarrow> closed (concat vs)"
  by (induction vs) (simp_all add: closed_append)

lemma closed_Join: "closed sep \<Longrightarrow> list_all closed vs \<Longrightarrow> closed (strings_Join sep vs)"
  by (induction vs) (auto simp: strings_Join_Cons closed_append)

definition plain_char :: "char \<Rightarrow> bool" where
  "plain_char c \<longleftrightarrow> \<not> is_quote c \<and> c \<noteq> CHR ''-'' \<and> c \<noteq> CHR ''/'' \<and> c \<noteq> CHR ''{''"

lemma plain_len_char: "plain_char c \<Longrightarrow> plain_len (c # post) = Suc (plain_len post)"
  by (subst plain_len.simps) (cases post, auto simp: plain_char_def)

lemma closed_chars: "list_all plain_char v \<Longrightarrow> closed v"
  by (induction v) (auto simp: closed_def plain_len_char)

lemma closed_Cons: "plain_char c \<Longrightarrow> closed (c # v) = closed v"
  by (auto simp: closed_def plain_len_char)

lemma line_len_local:
  "line_len (s @ y # r) \<le> length s \<Longrightarrow> opens x \<Longrightarrow> opens y \<Longrightarrow>
     line_len (s @ x # r') = line_len (s @ y # r)"
  by (induction s) (auto simp: line_len_def opens_def split: if_splits)

lemma comment_len_local:
  assumes "comment_len (c @ y # r) \<le> length c" "c \<noteq> []" "opens x" "opens y"
  shows "comment_len (c @ x # r') = comment_len (c @ y # r)"
proof -
  obtain a s where c: "c = a # s" using assms(2) by (cases c) auto
  show ?thesis
  proof (cases s)
    case Nil
    with c assms(3,4) show ?thesis by (simp add: opens_def)
  next
    case (Cons b s')
    have "comment_len (c @ z) = (if a = CHR ''-'' \<and> b = CHR ''-'' then 2 + line_len (s' @ z)
        else if a = CHR ''/'' \<and> b = CHR ''*'' then 2 + blk_len (s' @ z) else 0)" for z
      using c Cons by simp
    with assms(1,3,4) line_len_local [of s' y r x r'] blk_len_local [of s' "y # r" "x # r'"] c Cons
    show ?thesis by (auto split: if_splits)
  qed
qed

lemma literal_len_local:
  "literal_len (c @ r) \<le> length c \<Longrightarrow> c \<noteq> [] \<Longrightarrow> r \<noteq> [] \<Longrightarrow> literal_len (c @ r') = literal_len (c @ r)"
  using lit_len_local [of "hd c" "tl c" r r'] by (cases c) auto

lemma plain_len_skip:
  assumes "s \<noteq> []" "k = comment_len s \<and> k \<noteq> 0 \<or> comment_len s = 0 \<and> k = literal_len s \<and> k \<noteq> 0"
  shows "plain_len s = k + plain_len (drop k s)"
  using assms(2)
proof
  assume "k = comment_len s \<and> k \<noteq> 0"
  with assms(1) show ?thesis by (subst plain_len.simps) simp
next
  assume "comment_len s = 0 \<and> k = literal_len s \<and> k \<noteq> 0"
  with assms(1) show ?thesis by (subst plain_len.simps) simp
qed

lemma plain_len_byte:
  "comment_len (a # s) = 0 \<Longrightarrow> literal_len (a # s) = 0 \<Longrightarrow>
     plain_len (a # s) = (if a = CHR ''{'' then 0 else Suc (plain_len s))"
  by (subst plain_len.simps) simp

text \<open>The text before a parameter is cut.\<close>

lemma chunk_cuts: "plain_len (c @ CHR ''{'' # r) = length c \<Longrightarrow> cuts c"
proof (induction c rule: length_induct)
  case (1 c)
  show ?case
  proof (cases c)
    case Nil
    then show ?thesis by (simp add: cuts_def)
  next
    case (Cons a c')
    let ?s = "c @ CHR ''{'' # r"
    have o: "opens CHR ''{''" by (simp add: opens_def)
    have ne: "?s \<noteq> []" "c \<noteq> []" using Cons by simp_all
    have sub: "cuts c" if k: "k = comment_len ?s \<and> k \<noteq> 0 \<or>
        comment_len ?s = 0 \<and> k = literal_len ?s \<and> k \<noteq> 0" for k
    proof -
      have kc: "k \<le> length c" using plain_len_skip [OF ne(1) k] 1(2) by simp
      then have d: "drop k ?s = drop k c @ CHR ''{'' # r" by simp
      have "plain_len (drop k c @ CHR ''{'' # r) = length (drop k c)"
        using plain_len_skip [OF ne(1) k] 1(2) unfolding d by simp
      then have "cuts (drop k c)" using 1(1) [rule_format, of "drop k c"] k ne by auto
      moreover have "plain_len (c @ x # post) = k + plain_len (drop k c @ x # post)"
        if "opens x" for x post
      proof -
        have "comment_len (c @ x # post) = comment_len ?s" if "comment_len ?s \<le> length c"
          using comment_len_local [OF that ne(2) \<open>opens x\<close> o] .
        moreover have "literal_len (c @ x # post) = literal_len ?s" if "literal_len ?s \<le> length c"
          using literal_len_local [OF that ne(2)] by simp
        ultimately have "k = comment_len (c @ x # post) \<and> k \<noteq> 0 \<or>
            comment_len (c @ x # post) = 0 \<and> k = literal_len (c @ x # post) \<and> k \<noteq> 0"
          using k kc by auto
        from plain_len_skip [OF _ this] kc ne(2) show ?thesis by simp
      qed
      ultimately show ?thesis using kc by (simp add: cuts_def)
    qed
    show ?thesis
    proof (cases "comment_len ?s = 0 \<and> literal_len ?s = 0")
      case False
      with sub show ?thesis by blast
    next
      case True
      then have "a \<noteq> CHR ''{''" "plain_len (c' @ CHR ''{'' # r) = length c'"
        using 1(2) Cons plain_len_byte [of a "c' @ CHR ''{'' # r"] by (simp_all split: if_splits)
      then have "cuts c'" using 1(1) Cons by simp
      moreover have "comment_len (c @ x # post) = 0" "literal_len (c @ x # post) = 0" if "opens x" for x post
        using comment_len_local [OF _ ne(2) that o, of r post]
          literal_len_local [OF _ ne(2), of "CHR ''{'' # r" "x # post"] True
        by simp_all
      ultimately show ?thesis
        using Cons \<open>a \<noteq> CHR ''{''\<close> plain_len_byte [of a] by (simp add: cuts_def)
    qed
  qed
qed

subsection \<open>Reading back\<close>

fun params_of :: "item list \<Rightarrow> Param list" where
  "params_of [] = []"
| "params_of (TextItem t # its) = params_of its"
| "params_of (ParamItem p # its) = p # params_of its"

lemma params_of_text [simp]: "params_of (text_item t @ its) = params_of its"
  by (simp add: text_item_def)

definition sql_params :: "string \<Rightarrow> sql_error + Param list" where
  "sql_params s = map_res params_of (items [] s)"

lemma sql_params_plain:
  assumes "plain_len (c @ s) = length c + plain_len s"
  shows "sql_params (c @ s) = sql_params s"
proof -
  have "drop (plain_len (c @ s)) (c @ s) = drop (plain_len s) s" using assms by simp
  then show ?thesis
    unfolding sql_params_def
    by (subst (1 2) items.simps)
      (auto simp: Let_def map_res_def text_item_def res_bind_def split: option.split sum.split)
qed

lemma sql_params_all_plain: "plain_len s = length s \<Longrightarrow> sql_params s = Inr []"
  by (simp add: sql_params_def items.simps [of "[]" s] text_item_def)

definition readable :: "string \<Rightarrow> chtype \<Rightarrow> bool" where
  "readable n t \<longleftrightarrow> CHR ''}'' \<notin> set (n @ type_string t) \<and>
     parse_param (n @ '':'' @ type_string t) = Inr \<lparr>p_name = n, p_type = t\<rparr>"

lemma sql_params_braced:
  assumes "readable n t"
  shows "sql_params (braced n t @ s) = map_res (\<lambda>ps. \<lparr>p_name = n, p_type = t\<rparr> # ps) (sql_params s)"
proof -
  let ?b = "n @ '':'' @ type_string t"
  have b: "braced n t @ s = CHR ''{'' # ?b @ CHR ''}'' # s" by (simp add: braced_def)
  have "IndexByte (CHR ''{'' # ?b @ CHR ''}'' # s) CHR ''}'' = Some (Suc (length ?b))"
    using assms IndexByte_append [of "CHR ''}''" ?b s] by (simp add: readable_def)
  moreover have "go_slice (CHR ''{'' # ?b @ CHR ''}'' # s) 1 (Suc (length ?b)) = ?b"
    by (simp add: go_slice_def)
  ultimately show ?thesis
    using assms unfolding sql_params_def b
    by (subst items.simps)
      (simp add: Let_def readable_def text_item_def map_res_def res_bind_def split: sum.split)
qed

text \<open>What may be written in the place of a parameter: a parameter again, or a closed text that
  does not complete a comment sign.\<close>

definition replaces :: "(Param \<Rightarrow> string) \<Rightarrow> (Param \<Rightarrow> Param option) \<Rightarrow> Param \<Rightarrow> bool" where
  "replaces f keep p \<longleftrightarrow>
     (case keep p of
        None \<Rightarrow> closed (f p) \<and> f p \<noteq> [] \<and> opens (hd (f p))
      | Some q \<Rightarrow> f p = braced (p_name q) (p_type q) \<and> readable (p_name q) (p_type q))"

lemma sql_params_replaced:
  assumes "replaces f keep p" "cuts c"
  shows "sql_params (c @ f p @ s) =
    map_res (\<lambda>ps. (case keep p of None \<Rightarrow> ps | Some q \<Rightarrow> q # ps)) (sql_params s)"
proof (cases "keep p")
  case None
  with assms(1) obtain x v where v: "f p = x # v" "opens x" "closed (x # v)"
    by (cases "f p") (auto simp: replaces_def)
  have "sql_params (c @ x # v @ s) = sql_params (x # v @ s)"
    using assms(2) v by (intro sql_params_plain) (simp add: cuts_def)
  also have "\<dots> = sql_params s"
    using sql_params_plain [of "x # v" s] closedD [OF v(3)] by simp
  finally show ?thesis using None v by (cases "sql_params s") simp_all
next
  case (Some q)
  with assms(1) have b: "f p = braced (p_name q) (p_type q)" "readable (p_name q) (p_type q)"
    by (simp_all add: replaces_def)
  have "sql_params (c @ braced (p_name q) (p_type q) @ s) =
      sql_params (braced (p_name q) (p_type q) @ s)"
    using assms(2) by (intro sql_params_plain) (simp add: cuts_def braced_def opens_def)
  moreover have "\<lparr>p_name = p_name q, p_type = p_type q\<rparr> = q" by simp
  ultimately show ?thesis using b Some sql_params_braced [OF b(2), of s] by simp
qed

lemma render_param [simp]: "render f (ParamItem p) = f p"
  by (simp add: render_def)

lemma reread:
  "items u s = Inr its \<Longrightarrow> u = [] \<Longrightarrow> (\<And>p. p \<in> set (params_of its) \<Longrightarrow> replaces f keep p) \<Longrightarrow>
     sql_params (concat (map (render f) its)) = Inr (List.map_filter keep (params_of its))"
proof (induction u s arbitrary: its rule: items.induct)
  case (1 u s)
  let ?c = "take (plain_len s) s" and ?r = "drop (plain_len s) s"
  have ren: "concat (map (render f) (text_item t @ its)) = t @ concat (map (render f) its)" for t its
    by (simp add: text_item_def render_def)
  note map_append [simp del] concat_append [simp del]
  show ?case
  proof (cases "?r = []")
    case True
    then have "plain_len s = length s" using plain_len_le [of s] by simp
    with 1(2,3) have its: "its = text_item s @ []" by (simp add: items.simps [of "[]" s])
    show ?thesis
      unfolding its ren params_of_text using \<open>plain_len s = length s\<close>
      by (simp add: sql_params_all_plain map_filter_simps)
  next
    case False
    with 1(2,3) obtain e p its' where e: "IndexByte ?r CHR ''}'' = Some e"
      and p: "parse_param (go_slice ?r 1 e) = Inr p" and its': "items [] (drop (e + 1) ?r) = Inr its'"
      and its: "its = text_item ?c @ ParamItem p # its'"
      by (auto simp: items.simps [of "[]" s] Let_def split: option.splits)
    have "?r = CHR ''{'' # tl ?r" using plain_len_stop [OF False] False by (metis list.collapse)
    then have "plain_len (?c @ CHR ''{'' # tl ?r) = length ?c"
      using plain_len_le [of s] by (metis append_take_drop_id length_take min.absorb2)
    then have "cuts ?c" by (rule chunk_cuts)
    moreover have "replaces f keep p" using 1(4) its by simp
    moreover have "sql_params (concat (map (render f) its')) = Inr (List.map_filter keep (params_of its'))"
      using 1(1) [OF refl refl False e p its' refl] 1(4) its by simp
    ultimately show ?thesis
      using sql_params_replaced [of f keep p ?c "concat (map (render f) its')"] its
      by (simp add: ren render_param map_filter_simps split: option.split)
  qed
qed

end
