(* ===== verification/ChTypeText.thy ===== *)
theory ChTypeText
  imports ChReread
begin

text \<open>
  The spelling of a type inside a query: it has no blanks at its ends, it is lexically closed,
  and it has no closing brace unless the text it was read from has one.
\<close>

subsection \<open>No blanks at the ends\<close>

lemma not_space_head:
  assumes "s = c # cs" "isIdentByte c" "last s = d" "isIdentByte d \<or> d = CHR '')''"
  shows "trimmed s"
proof -
  have low: "byte_val c < 0x80" "byte_val d < 0x80" "byte_val c > 0x20" "byte_val d > 0x20"
    using assms(2,4) by (auto simp: ident_simps)
  have "hd w \<noteq> c \<and> last w \<noteq> d" if "w \<in> set space_runes" for w
    using that low unfolding space_runes_def by auto
  then show ?thesis
    using assms(1,3) space_runes_ne unfolding trimmed_def list_all_iff
    by (metis hd_append2 last_append prefixE suffixE list.sel(1))
qed

lemma type_string_last:
  "ch_wf t \<Longrightarrow> isIdentByte (last (type_string t)) \<or> last (type_string t) = CHR '')''"
proof (cases t)
  case (Scalar name)
  assume "ch_wf t"
  with Scalar show ?thesis by (auto simp: list_all_iff)
qed (auto simp: ident_simps)

lemma type_string_trimmed: "ch_wf t \<Longrightarrow> trimmed (type_string t)"
  using head_form_ident_head [OF type_string_head] type_string_last not_space_head by metis

subsection \<open>Closed texts\<close>

lemma closed_quote: "closed (quote s)"
proof -
  have len: "lit_len CHR 0x27 (concat (map quote_char s) @ CHR 0x27 # post) =
      length (concat (map quote_char s)) + 1" for post
  proof (induction s)
    case (Cons c s)
    then show ?case
      by (cases "c = CHR 0x5C \<or> c = CHR 0x27") (auto simp: lit_len_Cons)
  qed (simp add: lit_len_Cons)
  show ?thesis
    unfolding closed_def
  proof
    fix post
    let ?s = "quote s @ post"
    have s: "?s = CHR 0x27 # concat (map quote_char s) @ CHR 0x27 # post" by (simp add: quote_def)
    have "literal_len ?s = length (quote s)" using len [of post] unfolding s
      by (simp add: is_quote_def quote_def)
    moreover have "comment_len ?s = 0" unfolding s
      by (cases "concat (map quote_char s) @ CHR 0x27 # post") simp_all
    moreover have "?s \<noteq> []" "length (quote s) \<noteq> 0" by (simp_all add: quote_def)
    ultimately show "plain_len ?s = length (quote s) + plain_len post"
      by (subst plain_len.simps) simp
  qed
qed

lemma ident_plain: "isIdentByte c \<Longrightarrow> plain_char c"
  by (auto simp: ident_simps plain_char_def is_quote_def)

lemma closed_ident: "list_all isIdentByte s \<Longrightarrow> closed s"
  by (rule closed_chars) (auto simp: list_all_iff ident_plain)

lemma digits_plain: "list_all is_digit ds \<Longrightarrow> list_all plain_char ds"
  by (auto simp: list_all_iff is_digit_def in_range_def plain_char_def is_quote_def)

lemma closed_itoa: "closed (itoa z)"
proof -
  obtain sg ds where z: "itoa z = sg @ ds" "sg = [] \<or> sg = ''-''" "ds \<noteq> []" "list_all is_digit ds"
    using itoa_split by blast
  then have ds: "closed ds" by (intro closed_chars digits_plain)
  show ?thesis
  proof (cases "sg = []")
    case False
    then obtain d ds' where d: "ds = d # ds'" "sg = ''-''" "d \<noteq> CHR ''-''"
      using z by (cases ds) (force simp: is_digit_def in_range_def)+
    then have "plain_len (CHR ''-'' # ds @ post) = Suc (plain_len (ds @ post))" for post
      by (subst plain_len_byte) (simp_all add: is_quote_def)
    with ds d z(1) show ?thesis by (simp add: closed_def)
  qed (use ds z in simp)
qed

lemmas closed_simps = closed_append closed_quote closed_itoa closed_Cons plain_char_def is_quote_def

lemma closed_enum_item: "closed (enum_item lv)"
  by (simp add: enum_item_def closed_simps)

lemma closed_tuple_items:
  "list_all closed es \<Longrightarrow> list_all (list_all isIdentByte) ns \<Longrightarrow> list_all closed (tuple_items ns es)"
proof (induction ns es rule: tuple_items.induct)
  case (3 n ns e es)
  then show ?case by (simp add: closed_simps closed_ident)
qed simp_all

lemma closed_type_string: "ch_wf t \<Longrightarrow> closed (type_string t)"
proof (induction t)
  case (Scalar name)
  then show ?case by (simp add: closed_ident)
next
  case (Enum bits lvs)
  have "closed (strings_Join '', '' (map enum_item lvs))"
    by (rule closed_Join) (simp_all add: closed_simps list_all_iff closed_enum_item)
  then show ?case by (simp add: closed_simps)
next
  case (Tuple names elems)
  have "closed (strings_Join '', '' (tuple_items names (map type_string elems)))"
    using Tuple
    by (intro closed_Join closed_tuple_items) (auto simp: list_all_iff closed_simps)
  then show ?case by (simp add: closed_simps)
qed (simp_all add: closed_simps)

subsection \<open>No closing brace\<close>

abbreviation no_brace :: "string \<Rightarrow> bool" where
  "no_brace s \<equiv> CHR ''}'' \<notin> set s"

lemma no_brace_itoa: "no_brace (itoa z)"
proof -
  obtain sg ds where z: "itoa z = sg @ ds" "sg = [] \<or> sg = ''-''" "list_all is_digit ds"
    using itoa_split by blast
  then show ?thesis by (auto simp: list_all_iff is_digit_def in_range_def)
qed

lemma no_brace_quote: "CHR ''}'' \<in> set (quote s) \<longleftrightarrow> CHR ''}'' \<in> set s"
  by (auto simp: quote_def quote_char_def split: if_splits)

lemma no_brace_Join: "no_brace sep \<Longrightarrow> list_all no_brace vs \<Longrightarrow> no_brace (strings_Join sep vs)"
  by (induction vs) (auto simp: strings_Join_Cons)

lemma no_brace_ident: "list_all isIdentByte s \<Longrightarrow> no_brace s"
proof -
  have "\<not> isIdentByte CHR ''}''" by (simp add: ident_simps)
  then show "list_all isIdentByte s \<Longrightarrow> no_brace s" by (auto simp: list_all_iff)
qed

lemma no_brace_tuple_items:
  "list_all no_brace es \<Longrightarrow> list_all no_brace ns \<Longrightarrow> list_all no_brace (tuple_items ns es)"
  by (induction ns es rule: tuple_items.induct) auto

lemma string_loop_no_brace:
  "string_loop sb p = Inr (s, q) \<Longrightarrow> no_brace (cp_src p) \<Longrightarrow> no_brace sb \<Longrightarrow> no_brace s"
proof (induction sb p rule: string_loop.induct)
  case (1 sb p)
  have nth: "CHR ''}'' \<noteq> cp_src p ! k" if "k < length (cp_src p)" for k
    using 1(4) that nth_mem by metis
  then have "CHR ''}'' \<noteq> unescape_byte (cp_src p ! k)" if "k < length (cp_src p)" for k
    using that by (simp add: unescape_byte_def)
  with nth 1 show ?case
    by (subst (asm) (3) string_loop.simps) (auto simp: Let_def split: if_splits)
qed

lemma parseString_no_brace:
  "parseString p = Inr (s, q) \<Longrightarrow> no_brace (cp_src p) \<Longrightarrow> no_brace s"
  by (auto simp: parseString_def advances_def dest!: string_loop_no_brace expect_advances)

lemma enum_loop_no_brace:
  "enum_loop n bits acc p = Inr (lvs, q) \<Longrightarrow> no_brace (cp_src p) \<Longrightarrow>
     list_all (\<lambda>lv. no_brace (fst lv)) acc \<Longrightarrow> list_all (\<lambda>lv. no_brace (fst lv)) lvs"
proof (induction n arbitrary: acc p)
  case (Suc n)
  from Suc.prems(1) obtain lv p1 where p1: "parse_enum_item bits p = Inr (lv, p1)" by auto
  obtain b p2 where p2: "accept CHR '','' p1 = (b, p2)" by (cases "accept CHR '','' p1")
  have src: "cp_src p2 = cp_src p"
    using parse_enum_item_advances [OF p1] p2
    by (cases b) (auto simp: advances_def settles_def dest!: accept_advances accept_settles)
  have "no_brace (fst lv)"
    using p1 Suc.prems(2)
    by (auto simp: parse_enum_item_def split: if_splits dest: parseString_no_brace)
  with Suc.prems p1 p2 src Suc.IH [of "acc @ [lv]" p2] show ?case by (cases b) auto
qed simp

lemma no_brace_enum:
  "list_all (\<lambda>lv. no_brace (fst lv)) lvs \<Longrightarrow> no_brace (strings_Join '', '' (map enum_item lvs))"
  by (intro no_brace_Join)
    (auto simp: list_all_iff enum_item_def no_brace_quote no_brace_itoa)

lemma leaf_no_brace:
  "parenString p = Inr (s, q) \<Longrightarrow> no_brace (cp_src p) \<Longrightarrow> no_brace s"
  "parse_decimal p = Inr (t, q) \<Longrightarrow> no_brace (type_string t)"
  "parseEnum n bits p = Inr (t, q) \<Longrightarrow> no_brace (cp_src p) \<Longrightarrow> no_brace (type_string t)"
  by (auto simp: parenString_def parse_decimal_def parseEnum_def no_brace_itoa advances_def no_brace_enum
      dest!: expect_advances parseString_no_brace enum_loop_no_brace)

lemma datetime64_no_brace:
  assumes "parse_datetime64 p = Inr (t, q)" "no_brace (cp_src p)"
  shows "no_brace (type_string t)"
proof -
  from assms obtain p1 z p2 where z: "parseInt p1 = Inr (z, p2)" and p1: "expect CHR ''('' p = Inr p1"
    by (auto simp: parse_datetime64_def)
  obtain b p3 where p3: "accept CHR '','' p2 = (b, p3)" by (cases "accept CHR '','' p2")
  have "cp_src p3 = cp_src p"
    using expect_advances [OF p1] parseInt_advances [OF z] p3
    by (cases b) (auto simp: advances_def settles_def dest!: accept_advances accept_settles)
  with assms z p1 p3 show ?thesis
    by (auto simp: parse_datetime64_def no_brace_itoa no_brace_quote split: if_splits
        dest!: parseString_no_brace)
qed

text \<open>A result that, when it is a success, has no closing brace in its spelling.\<close>

definition nb_res :: "ch_error + chtype \<times> chparser \<Rightarrow> bool" where
  "nb_res r \<longleftrightarrow> (\<forall>t q. r = Inr (t, q) \<longrightarrow> no_brace (type_string t))"

lemma nb_res_if: "nb_res a \<Longrightarrow> nb_res b \<Longrightarrow> nb_res (if c then a else b)"
  by simp

text \<open>What the composite parsers need of the parser they call back.\<close>

locale brace_parser = type_parser +
  assumes pt_no_brace: "pt p = Inr (t, q) \<Longrightarrow> no_brace (cp_src p) \<Longrightarrow> no_brace (type_string t)"
begin

lemma paren_no_brace:
  "parseParenType pt p = Inr (t, q) \<Longrightarrow> no_brace (cp_src p) \<Longrightarrow> no_brace (type_string t)"
  by (auto simp: parseParenType_def advances_def dest!: expect_advances pt_no_brace)

lemma map_no_brace:
  assumes "parse_map pt p = Inr (t, q)" "no_brace (cp_src p)"
  shows "no_brace (type_string t)"
proof -
  from assms(1) obtain p1 k p2 p3 v p4 where
    e: "expect CHR ''('' p = Inr p1" "pt p1 = Inr (k, p2)" "expect CHR '','' p2 = Inr p3"
      "pt p3 = Inr (v, p4)" and t: "t = Map k v"
    by (auto simp: parse_map_def)
  then have "cp_src p1 = cp_src p" "cp_src p3 = cp_src p"
    by (auto simp: advances_def dest!: expect_advances pt_advances)
  with assms(2) e(2,4) t show ?thesis by (auto dest!: pt_no_brace)
qed

lemma tuple_item_no_brace:
  assumes "parse_tuple_item pt p = Inr ((i, nm, t), q)" "no_brace (cp_src p)"
  shows "no_brace nm \<and> no_brace (type_string t)"
proof -
  from assms obtain ident p1 where p1: "parseIdent p = Inr (ident, p1)"
    by (auto simp: parse_tuple_item_def)
  obtain c p2 where p2: "ch_peek p1 = (c, p2)" by (cases "ch_peek p1")
  have "cp_src p2 = cp_src p"
    using parseIdent_advances [OF p1] ch_peek_settles [OF p2] by (simp add: advances_def settles_def)
  with assms p1 p2 parseIdent_ident [OF p1] show ?thesis
    by (auto simp: parse_tuple_item_def no_brace_ident split: if_splits dest!: pt_no_brace)
qed

lemma tuple_loop_no_brace:
  "tuple_loop pt n named names elems p = Inr ((nd, ns, es), q) \<Longrightarrow> no_brace (cp_src p) \<Longrightarrow>
     list_all no_brace names \<Longrightarrow> list_all (\<lambda>t. no_brace (type_string t)) elems \<Longrightarrow>
     list_all no_brace ns \<and> list_all (\<lambda>t. no_brace (type_string t)) es"
proof (induction n arbitrary: named names elems p)
  case (Suc n)
  from Suc.prems(1) obtain i nm t p1 where p1: "parse_tuple_item pt p = Inr ((i, nm, t), p1)" by auto
  obtain b p2 where p2: "accept CHR '','' p1 = (b, p2)" by (cases "accept CHR '','' p1")
  have src: "cp_src p2 = cp_src p"
    using parse_tuple_item_advances [OF p1] p2
    by (cases b) (auto simp: advances_def settles_def dest!: accept_advances accept_settles)
  with Suc.prems p1 p2 tuple_item_no_brace [OF p1 Suc.prems(2)]
    Suc.IH [of "named \<or> i" "names @ [nm]" "elems @ [t]" p2] show ?case
    by (cases b) auto
qed simp

lemma tuple_no_brace:
  assumes "parseTuple pt n p = Inr (t, q)" "no_brace (cp_src p)"
  shows "no_brace (type_string t)"
proof -
  from assms(1) obtain p1 nd ns es p2 where p1: "expect CHR ''('' p = Inr p1"
    and l: "tuple_loop pt n False [] [] p1 = Inr ((nd, ns, es), p2)"
    and t: "t = Tuple (if nd then ns else []) es"
    by (auto simp: parseTuple_def)
  have "no_brace (cp_src p1)" using expect_advances [OF p1] assms(2) by (simp add: advances_def)
  from tuple_loop_no_brace [OF l this]
  have "list_all no_brace (if nd then ns else [])" "list_all no_brace (map type_string es)"
    by (simp_all add: list_all_iff)
  then have "no_brace (strings_Join '', '' (tuple_items (if nd then ns else []) (map type_string es)))"
    by (intro no_brace_Join no_brace_tuple_items) simp_all
  with t show ?thesis by simp
qed

lemma switch_no_brace:
  assumes "no_brace (cp_src p)"
  shows "nb_res (parse_switch pt n i name p)"
proof -
  have raw: "nb_res (map_res (\<lambda>q. (Unsupported (take (cp_pos q - i) (drop i (cp_src q))), q)) (skipBalanced p))"
  proof -
    have "no_brace (take k (drop i (cp_src p)))" for k
      using assms by (meson in_set_takeD in_set_dropD)
    then show ?thesis by (auto simp: nb_res_def advances_def dest!: skipBalanced_advances)
  qed
  show ?thesis
    unfolding parse_switch_def
    by (intro nb_res_if raw)
      (auto simp: nb_res_def no_brace_itoa no_brace_quote intro: assms split: if_split_asm
        dest!: paren_no_brace [OF _ assms] map_no_brace [OF _ assms] tuple_no_brace [OF _ assms]
          leaf_no_brace(1,3) [OF _ assms] leaf_no_brace(2) datetime64_no_brace [OF _ assms])
qed

end

lemma parseType_brace_parser: "brace_parser (parseType n)"
proof (induction n)
  case 0
  show ?case by unfold_locales simp
next
  case (Suc n)
  show ?case
  proof
    fix p t q
    assume ok: "parseType (Suc n) p = Inr (t, q)" and p: "no_brace (cp_src p)"
    then obtain name p1 where p1: "parseIdent p = Inr (name, p1)" by auto
    obtain c p2 where p2: "ch_peek p1 = (c, p2)" by (cases "ch_peek p1")
    have "cp_src p2 = cp_src p"
      using parseIdent_advances [OF p1] ch_peek_settles [OF p2] by (simp add: advances_def settles_def)
    then have "nb_res (parse_switch (parseType n) n (cp_pos p) name p2)"
      using brace_parser.switch_no_brace [OF Suc.IH] p by simp
    moreover have "no_brace (type_string (bare_type name))"
      using parseIdent_ident [OF p1] no_brace_ident [of name]
      by (auto simp: bare_type_def no_brace_itoa)
    ultimately show "no_brace (type_string t)"
      using ok p1 p2 by (auto simp: nb_res_def split: if_splits)
  qed
qed

interpretation ch_brace: brace_parser "parseType n" for n
  by (rule parseType_brace_parser)

lemma Parse_no_brace: "Parse s = Inr t \<Longrightarrow> no_brace s \<Longrightarrow> no_brace (type_string t)"
  by (auto simp: Parse_def Let_def simp del: parseType.simps split: if_splits
      dest!: ch_brace.pt_no_brace)

end
