(* ===== verification/ChSplitFacts.thy ===== *)
theory ChSplitFacts
  imports ChLex
begin

text \<open>
  Facts about \<^verbatim>\<open>SplitStatements\<close>: a statement it returns is not empty, has no blanks at its
  ends, and is itself a single statement without comments, so that splitting it again gives it
  back unchanged.
\<close>

subsection \<open>Splitting, on the remaining text\<close>

function split_text :: "string \<Rightarrow> string list \<Rightarrow> string \<Rightarrow> string list" where
  "split_text s stmts sb =
     (if s = [] then flush_stmt stmts sb
      else if comment_len s \<noteq> 0 then split_text (drop (comment_len s) s) stmts (sb @ [CHR 0x0A])
      else if literal_len s \<noteq> 0 then
        split_text (drop (literal_len s) s) stmts (sb @ take (literal_len s) s)
      else if hd s = CHR '';'' then split_text (tl s) (flush_stmt stmts sb) []
      else split_text (tl s) stmts (sb @ [hd s]))"
  by pat_completeness auto
termination
  by (relation "measure (\<lambda>(s, stmts, sb). length s)") auto

declare split_text.simps [simp del]

lemma split_loop_text: "i \<le> length sql \<Longrightarrow> split_loop sql i stmts sb = split_text (drop i sql) stmts sb"
proof (induction sql i stmts sb rule: split_loop.induct)
  case (1 sql i stmts sb)
  show ?case
  proof (cases "i < length sql")
    case True
    then have c: "skipComment sql i = i + comment_len (drop i sql)"
      and l: "skipLiteral sql i = i + literal_len (drop i sql)"
      by (simp_all add: skipComment_len skipLiteral_len)
    have "i + comment_len (drop i sql) \<le> length sql" "i + literal_len (drop i sql) \<le> length sql"
      using comment_len_le [of "drop i sql"] literal_len_le [of "drop i sql"] True by simp_all
    with 1(1-4) True c l show ?thesis
      by (subst split_loop.simps, subst split_text.simps)
        (auto simp: go_slice_def add.commute hd_drop_conv_nth tl_drop drop_Suc)
  next
    case False
    with 1(5) show ?thesis by (simp add: split_loop.simps split_text.simps)
  qed
qed

lemma SplitStatements_text: "SplitStatements sql = split_text sql [] []"
  by (simp add: SplitStatements_def split_loop_text)

subsection \<open>Statements without comments and separators\<close>

function clean :: "string \<Rightarrow> bool" where
  "clean s \<longleftrightarrow>
     (if s = [] then True
      else if comment_len s \<noteq> 0 then False
      else if literal_len s \<noteq> 0 then clean (drop (literal_len s) s)
      else hd s \<noteq> CHR '';'' \<and> clean (tl s))"
  by pat_completeness auto
termination
  by (relation "measure length") auto

declare clean.simps [simp del]

lemma clean_Nil [simp]: "clean []"
  by (simp add: clean.simps)

text \<open>Splitting a clean text collects all of it.\<close>

lemma split_text_clean: "clean s \<Longrightarrow> split_text s stmts sb = flush_stmt stmts (sb @ s)"
proof (induction s stmts sb rule: split_text.induct)
  case (1 s stmts sb)
  show ?case
  proof (cases "s = []")
    case False
    with 1 clean.simps [of s] show ?thesis
      by (subst split_text.simps) (auto split: if_splits)
  qed (simp add: split_text.simps)
qed

text \<open>A plain byte: one that starts neither a literal nor a comment.\<close>

definition plain_byte :: "char \<Rightarrow> bool" where
  "plain_byte c \<longleftrightarrow> \<not> is_quote c \<and> c \<noteq> CHR ''-'' \<and> c \<noteq> CHR ''/'' \<and> c \<noteq> CHR '';''"

lemma comment_len_plain: "plain_byte c \<Longrightarrow> comment_len (c # s) = 0"
  by (cases s) (auto simp: plain_byte_def)

lemma clean_plain: "plain_byte c \<Longrightarrow> clean (c # s) = clean s"
  by (subst clean.simps) (auto simp: comment_len_plain, auto simp: plain_byte_def)

lemma clean_plain_append: "list_all plain_byte w \<Longrightarrow> clean (w @ s) = clean s"
  by (induction w) (auto simp: clean_plain)

lemma literal_len_take: "literal_len (take k s) = min k (literal_len s)"
proof (cases s)
  case (Cons q s')
  then show ?thesis by (cases k) (auto simp: lit_len_take)
qed simp

lemma comment_len_take: "comment_len s = 0 \<Longrightarrow> comment_len (take k s) = 0"
  by (cases s rule: comment_len.cases; cases k; cases "k - 1") (auto split: if_splits)

text \<open>Cutting off the end of a clean text leaves a clean text.\<close>

lemma clean_take: "clean s \<Longrightarrow> clean (take k s)"
proof (induction s arbitrary: k rule: clean.induct)
  case (1 s)
  show ?case
  proof (cases "s = [] \<or> k = 0")
    case False
    with 1(3) have c: "comment_len s = 0" by (auto simp: clean.simps [of s] split: if_splits)
    show ?thesis
    proof (cases "literal_len s = 0")
      case True
      with False c 1(3) have "hd s \<noteq> CHR '';''" "clean (tl s)" by (auto simp: clean.simps [of s])
      then have "clean (take (k - 1) (tl s))" using 1(2) False c True by blast
      moreover have "tl (take k s) = take (k - 1) (tl s)" by (cases s; cases k) auto
      ultimately show ?thesis
        using False c True \<open>hd s \<noteq> CHR '';''\<close>
        by (subst clean.simps) (simp add: comment_len_take literal_len_take)
    next
      case l: False
      with False c 1(3) have "clean (drop (literal_len s) s)" by (auto simp: clean.simps [of s])
      then have "clean (take (k - literal_len s) (drop (literal_len s) s))"
        using 1(1) False c l by blast
      moreover have "drop (min k n) (take k s) = take (k - n) (drop n s)" for n
        by (cases "n \<le> k") (auto simp: drop_take)
      ultimately show ?thesis
        using False c l
        by (subst clean.simps) (simp add: comment_len_take literal_len_take)
    qed
  qed auto
qed

lemma space_runes_plain: "w \<in> set space_runes \<Longrightarrow> list_all plain_byte w"
  by (auto simp: space_runes_def plain_byte_def is_quote_def)

lemma strip_words_clean_text:
  "clean s \<Longrightarrow> (\<And>w. w \<in> set ws \<Longrightarrow> list_all plain_byte w) \<Longrightarrow> clean (strip_words ws s)"
proof (induction ws s rule: strip_words.induct)
  case (1 ws s)
  show ?case
  proof (cases "find (\<lambda>w. w \<noteq> [] \<and> prefix w s) ws")
    case (Some w)
    then have "w \<in> set ws" and "prefix w s" by (auto simp: find_Some_iff)
    then obtain r where "s = w @ r" "list_all plain_byte w" using 1(3) by (auto simp: prefix_def)
    with 1(2) have "clean r" by (simp add: clean_plain_append)
    with \<open>s = w @ r\<close> have "clean (drop (length w) s)" by simp
    with 1(1) [OF Some] 1(3) Some show ?thesis by (subst strip_words.simps) auto
  qed (use 1(2) in \<open>simp add: strip_words.simps\<close>)
qed

lemma clean_TrimSpace:
  assumes "clean s"
  shows "clean (TrimSpace s)"
proof -
  have l: "clean (TrimLeftSpace s)"
    using assms space_runes_plain by (simp add: TrimLeftSpace_def strip_words_clean_text)
  obtain b where "rev (TrimLeftSpace s) = b @ rev (TrimSpace s)"
    using strip_words_suffix [of "rev (TrimLeftSpace s)" "map rev space_runes"]
    by (auto simp: TrimSpace_def TrimRightSpace_def)
  then have "TrimLeftSpace s = TrimSpace s @ rev b" by (metis rev_append rev_rev_ident)
  then have "TrimSpace s = take (length (TrimSpace s)) (TrimLeftSpace s)" by simp
  with clean_take [OF l] show ?thesis by metis
qed

subsection \<open>What the loop collects is clean\<close>

text \<open>The collected text \<open>sb\<close> stays clean when the next token of the source is appended. The
  byte that may follow \<open>sb\<close> is the next byte of the source, or the line feed written for a
  comment.\<close>

definition joins :: "string \<Rightarrow> string \<Rightarrow> bool" where
  "joins sb s \<longleftrightarrow> clean sb \<and> (s \<noteq> [] \<longrightarrow> (\<forall>u. clean u \<longrightarrow>
     u = [] \<or> hd u = CHR 0x0A \<or> hd u = hd s \<longrightarrow> clean (sb @ u)))"

lemma joinsD: "joins sb s \<Longrightarrow> s \<noteq> [] \<Longrightarrow> clean u \<Longrightarrow> u = [] \<or> hd u = CHR 0x0A \<or> hd u = hd s \<Longrightarrow>
    clean (sb @ u)"
  by (auto simp: joins_def)

text \<open>A literal that ends before the end of the text is complete: anything may follow.\<close>

lemma clean_literal_append:
  assumes "literal_len s \<noteq> 0" "literal_len s < length s" "clean u"
  shows "clean (take (literal_len s) s @ u)"
proof -
  obtain q s' where s: "s = q # s'" "is_quote q" using assms(1) by (cases s) (auto split: if_splits)
  let ?k = "literal_len s"
  have "literal_len (take ?k s @ u) = ?k"
  proof -
    define c r where "c = take (lit_len q s') s'" and "r = drop (lit_len q s') s'"
    then have cr: "s' = c @ r" "r \<noteq> []" "lit_len q s' = length c"
      using assms(2) s by simp_all
    then have "lit_len q (c @ u) = length c"
      using lit_len_local [of q c r u] by simp
    with cr s show ?thesis by simp
  qed
  moreover have "comment_len (take ?k s @ u) = 0"
    using s by (cases "take ?k s @ u" rule: comment_len.cases) (auto simp: is_quote_def)
  moreover have "take ?k s \<noteq> []" using s by simp
  ultimately show ?thesis
    using assms(1,3) literal_len_le [of s] by (subst clean.simps) auto
qed

lemma clean_literal:
  assumes "literal_len s \<noteq> 0"
  shows "clean (take (literal_len s) s)"
proof -
  obtain q s' where s: "s = q # s'" "is_quote q" using assms by (cases s) (auto split: if_splits)
  then have "comment_len (take (literal_len s) s) = 0"
    by (cases "take (literal_len s) s" rule: comment_len.cases) (auto simp: is_quote_def)
  moreover have "literal_len (take (literal_len s) s) = literal_len s" by (simp add: literal_len_take)
  ultimately show ?thesis using assms literal_len_le [of s] by (subst clean.simps) auto
qed

lemma joins_comment:
  assumes "joins sb s" "s \<noteq> []"
  shows "joins (sb @ [CHR 0x0A]) s'"
proof -
  have "clean (CHR 0x0A # u)" if "clean u" for u
    using that by (subst clean_plain) (simp_all add: plain_byte_def is_quote_def)
  with joinsD [OF assms] show ?thesis by (fastforce simp: joins_def)
qed

lemma joins_literal:
  assumes "joins sb s" "literal_len s \<noteq> 0"
  shows "joins (sb @ take (literal_len s) s) (drop (literal_len s) s)"
proof -
  have ne: "s \<noteq> []" using assms(2) by auto
  have hd: "hd (take (literal_len s) s @ u) = hd s" for u using assms(2) ne by (simp add: hd_append)
  show ?thesis
    using joinsD [OF assms(1) ne] clean_literal [OF assms(2)] clean_literal_append [OF assms(2)] hd
    by (auto simp: joins_def) (metis append_Nil2)
qed

lemma joins_byte:
  assumes "joins sb (c # s)" "comment_len (c # s) = 0" "literal_len (c # s) = 0" "c \<noteq> CHR '';''"
  shows "joins (sb @ [c]) s"
proof -
  have "clean (c # u)" if "clean u" "u = [] \<or> hd u = CHR 0x0A \<or> s \<noteq> [] \<and> hd u = hd s" for u
  proof -
    have "comment_len (c # u) = 0"
      using that(2) assms(2) by (cases u; cases s) (auto split: if_splits)
    with that(1) assms(3,4) show ?thesis by (subst clean.simps) (auto split: if_splits)
  qed
  then have "clean (sb @ c # u)" if "clean u" "u = [] \<or> hd u = CHR 0x0A \<or> s \<noteq> [] \<and> hd u = hd s" for u
    using that joinsD [OF assms(1), of "c # u"] by simp
  then show ?thesis by (auto simp: joins_def)
qed

definition statement :: "string \<Rightarrow> bool" where
  "statement t \<longleftrightarrow> t \<noteq> [] \<and> trimmed t \<and> clean t"

lemma flush_statements:
  "list_all statement stmts \<Longrightarrow> clean sb \<Longrightarrow> list_all statement (flush_stmt stmts sb)"
  by (simp add: flush_stmt_def Let_def statement_def trimmed_TrimSpace clean_TrimSpace)

lemma split_text_statements:
  "joins sb s \<Longrightarrow> list_all statement stmts \<Longrightarrow> list_all statement (split_text s stmts sb)"
proof (induction s stmts sb rule: split_text.induct)
  case (1 s stmts sb)
  have cl: "clean sb" using 1(5) by (simp add: joins_def)
  show ?case
  proof (cases s)
    case (Cons c s')
    have nil: "joins [] s'" by (simp add: joins_def)
    show ?thesis
      using 1(1-4,6) joins_comment [OF 1(5)] joins_literal [OF 1(5)] joins_byte [of sb c s'] 1(5)
        flush_statements [OF 1(6) cl] nil Cons
      by (subst split_text.simps) auto
  qed (use flush_statements [OF 1(6) cl] in \<open>simp add: split_text.simps\<close>)
qed

lemma SplitStatements_statements: "t \<in> set (SplitStatements sql) \<Longrightarrow> statement t"
  using split_text_statements [of "[]" sql "[]"]
  by (auto simp: SplitStatements_text list_all_iff joins_def)

lemma SplitStatements_statement: "statement t \<Longrightarrow> SplitStatements t = [t]"
  by (simp add: SplitStatements_text split_text_clean statement_def flush_stmt_def TrimSpace_trimmed)

end
