(* ===== verification/ChInsert.thy ===== *)
theory ChInsert
  imports ChSql
begin

text \<open>
  Reading the target of an INSERT, \<^verbatim>\<open>internal/ch/insert.go\<close>. \<^verbatim>\<open>ok == false\<close> of the source is
  \<^term>\<open>None\<close>.
\<close>

record InsertTarget =
  Table :: string
  SQLName :: string
  Columns :: "string list"

function skipSpaceAndComments :: "string \<Rightarrow> nat \<Rightarrow> nat" where
  "skipSpaceAndComments sql i =
     (if i < length sql then
        if sql ! i = CHR '' '' \<or> sql ! i = CHR 0x09 \<or> sql ! i = CHR 0x0A \<or> sql ! i = CHR 0x0D
        then skipSpaceAndComments sql (i + 1)
        else if skipComment sql i \<noteq> i then skipSpaceAndComments sql (skipComment sql i)
        else i
      else i)"
  by pat_completeness auto
termination
  by (relation "measure (\<lambda>(sql, i). length sql - i)") (auto intro: comment.skip_progress)

declare skipSpaceAndComments.simps [simp del]

definition readWord :: "string \<Rightarrow> nat \<Rightarrow> string \<times> nat" where
  "readWord sql i = (let j = scan_while isIdentByte sql i in (go_slice sql i j, j))"

text \<open>The loop of \<^verbatim>\<open>unescapeQuoted\<close>: a backslash is dropped unless it is the last byte.\<close>

fun unescape_loop :: "string \<Rightarrow> string" where
  "unescape_loop [] = []"
| "unescape_loop [c] = [c]"
| "unescape_loop (c # d # cs) =
     (if c = CHR 0x5C then d # unescape_loop cs else c # unescape_loop (d # cs))"

definition unescapeQuoted :: "string \<Rightarrow> string" where
  "unescapeQuoted quoted =
     (if length quoted < 2 \<or> last quoted \<noteq> hd quoted then []
      else let inner = butlast (tl quoted) in
        if \<not> strings_Contains inner [CHR 0x5C] then inner else unescape_loop inner)"

definition readIdent :: "string \<Rightarrow> nat \<Rightarrow> string \<times> nat" where
  "readIdent sql i =
     (if i \<ge> length sql then ([], i)
      else let j = skipLiteral sql i in
        if j \<noteq> i then
          (if sql ! i = CHR 0x27 then ([], i) else (unescapeQuoted (go_slice sql i j), j))
        else readWord sql i)"

definition readQualifiedIdent :: "string \<Rightarrow> nat \<Rightarrow> string \<times> nat" where
  "readQualifiedIdent sql i =
     (case readIdent sql i of (name, j) \<Rightarrow>
        if name = [] then ([], i)
        else if j < length sql \<and> sql ! j = CHR ''.'' then
          (case readIdent sql (j + 1) of (qualified, k) \<Rightarrow>
             if qualified = [] then ([], i) else (name @ ''.'' @ qualified, k))
        else (name, j))"

lemma skipSpaceAndComments_ge: "i \<le> skipSpaceAndComments sql i"
proof (induction sql i rule: skipSpaceAndComments.induct)
  case (1 sql i)
  then show ?case
    using comment.skip_ge [of i sql] by (subst skipSpaceAndComments.simps) auto
qed

lemma skipSpaceAndComments_le: "i \<le> length sql \<Longrightarrow> skipSpaceAndComments sql i \<le> length sql"
proof (induction sql i rule: skipSpaceAndComments.induct)
  case (1 sql i)
  then show ?case
    using comment.skip_le [of i sql] by (subst skipSpaceAndComments.simps) auto
qed

lemma readWord_moved: "readWord sql i = (w, j) \<Longrightarrow> w \<noteq> [] \<Longrightarrow> i < j \<and> j \<le> length sql"
  using scan_while_moved [of isIdentByte sql i] by (auto simp: readWord_def Let_def go_slice_def)

lemma readIdent_moved: "readIdent sql i = (w, j) \<Longrightarrow> w \<noteq> [] \<Longrightarrow> i < j \<and> j \<le> length sql"
  using readWord_moved literal.skip_progress [of i sql] literal.skip_le [of i sql]
  by (auto simp: readIdent_def Let_def split: if_splits)

lemma column_step:
  assumes "readIdent sql i = (name, j)" "name \<noteq> []"
  shows "i < skipSpaceAndComments sql j"
    and "i < skipSpaceAndComments sql (skipSpaceAndComments sql j + 1)"
proof -
  show *: "i < skipSpaceAndComments sql j"
    using readIdent_moved [OF assms] skipSpaceAndComments_ge [of j sql] by simp
  with skipSpaceAndComments_ge [of "skipSpaceAndComments sql j + 1" sql]
  show "i < skipSpaceAndComments sql (skipSpaceAndComments sql j + 1)" by simp
qed

text \<open>The loop of \<^verbatim>\<open>readColumnList\<close>, from the position after the parenthesis.\<close>

function column_loop :: "string \<Rightarrow> nat \<Rightarrow> string list \<Rightarrow> string list option" where
  "column_loop sql i columns =
     (if i < length sql then
        if sql ! i = CHR '')'' then Some columns
        else (case readIdent sql i of (name, j) \<Rightarrow>
          if name = [] then None
          else let k = skipSpaceAndComments sql j in
            if k < length sql \<and> sql ! k = CHR '',''
            then column_loop sql (skipSpaceAndComments sql (k + 1)) (columns @ [name])
            else column_loop sql k (columns @ [name]))
      else None)"
  by pat_completeness auto
termination
  by (relation "measure (\<lambda>(sql, i, columns). length sql - i)")
    (auto intro!: diff_less_mono2 dest!: sym [of "(_, _)"] dest: column_step)

declare column_loop.simps [simp del]

definition readColumnList :: "string \<Rightarrow> nat \<Rightarrow> string list option" where
  "readColumnList sql i = column_loop sql (skipSpaceAndComments sql (i + 1)) []"

text \<open>\<^verbatim>\<open>word\<close> is a run of ASCII identifier bytes, on which \<^verbatim>\<open>EqualFold\<close> compares up to the
  case of letters.\<close>

definition ScanInsertTarget :: "string \<Rightarrow> InsertTarget option" where
  "ScanInsertTarget sql =
     (case readWord sql (skipSpaceAndComments sql 0) of (w1, n1) \<Rightarrow>
      if \<not> equal_fold w1 ''INSERT'' then None else
      case readWord sql (skipSpaceAndComments sql n1) of (w2, n2) \<Rightarrow>
      if \<not> equal_fold w2 ''INTO'' then None else
      let i = skipSpaceAndComments sql n2 in
      case readWord sql i of (w3, n3) \<Rightarrow>
      if equal_fold w3 ''FUNCTION'' then None else
      let i = (if equal_fold w3 ''TABLE'' then skipSpaceAndComments sql n3 else i) in
      case readQualifiedIdent sql i of (table, afterTable) \<Rightarrow>
      if table = [] then None else
      let target = \<lparr>Table = table, SQLName = go_slice sql i afterTable, Columns = []\<rparr>;
          j = skipSpaceAndComments sql afterTable in
      if j \<ge> length sql \<or> sql ! j \<noteq> CHR ''('' then Some target else
      case readColumnList sql j of
        None \<Rightarrow> None
      | Some columns \<Rightarrow> Some (target\<lparr>Columns := columns\<rparr>))"

end
