(* ===== verification/ChSqlProps.thy ===== *)
theory ChSqlProps
  imports ChTypeText ChSplitFacts ChInsert
begin

text \<open>
  The properties of the lexical treatment of ClickHouse queries: statements, parameters and
  their rewriting.
\<close>

subsection \<open>Which parameters a query has\<close>

text \<open>\<open>ScanParams\<close> returns the occurrences of parameters without repetitions.\<close>

fun dedup :: "Param list \<Rightarrow> Param list" where
  "dedup [] = []"
| "dedup (p # ps) = p # filter (\<lambda>q. p_name q \<noteq> p_name p) (dedup ps)"

definition consistent :: "Param list \<Rightarrow> bool" where
  "consistent ps \<longleftrightarrow> (\<forall>p \<in> set ps. \<forall>q \<in> set ps.
     p_name p = p_name q \<longrightarrow> type_string (p_type p) = type_string (p_type q))"

fun collect_all :: "Param list \<Rightarrow> scan_state \<Rightarrow> sql_error + scan_state" where
  "collect_all [] st = Inr st"
| "collect_all (p # ps) st = res_bind (collect_param p st) (collect_all ps)"

lemma run_items_collect: "run_items (\<lambda>t st. st) collect_param its st = collect_all (params_of its) st"
proof (induction its arbitrary: st)
  case (Cons it its)
  then show ?case by (cases it) (auto intro: res_bind_cong)
qed simp

definition seen_ok :: "scan_state \<Rightarrow> bool" where
  "seen_ok st \<longleftrightarrow> (\<forall>n. ss_seen st n =
     map_option p_type (find (\<lambda>p. p_name p = n) (ss_params st)))"

lemma seen_ok_step:
  assumes "seen_ok st" "ss_seen st (p_name p) = None"
  shows "seen_ok (st\<lparr>ss_seen := (ss_seen st)(p_name p \<mapsto> p_type p), ss_params := ss_params st @ [p]\<rparr>)"
proof -
  have "find P (xs @ [x]) = (case find P xs of None \<Rightarrow> if P x then Some x else None | Some y \<Rightarrow> Some y)"
    for P :: "Param \<Rightarrow> bool" and xs x by (induction xs) auto
  with assms show ?thesis by (auto simp: seen_ok_def split: option.splits)
qed

lemma seen_ok_Some:
  assumes "seen_ok st" "ss_seen st n = Some t"
  shows "\<exists>r \<in> set (ss_params st). p_name r = n \<and> p_type r = t"
  using assms by (auto simp: seen_ok_def find_Some_iff dest!: spec [of _ n])

lemma seen_ok_None: "seen_ok st \<Longrightarrow> ss_seen st n = None \<longleftrightarrow> n \<notin> p_name ` set (ss_params st)"
  by (auto simp: seen_ok_def find_None_iff)

lemma consistent_subset: "consistent xs \<Longrightarrow> set ys \<subseteq> set xs \<Longrightarrow> consistent ys"
  unfolding consistent_def by blast

lemma consistent_absorb:
  assumes "r \<in> set xs" "p_name r = p_name p" "type_string (p_type r) = type_string (p_type p)"
  shows "consistent (xs @ p # ys) \<longleftrightarrow> consistent (xs @ ys)"
proof
  assume "consistent (xs @ p # ys)"
  then show "consistent (xs @ ys)" by (rule consistent_subset) auto
next
  assume c: "consistent (xs @ ys)"
  have rep: "\<exists>a' \<in> set (xs @ ys). p_name a' = p_name a \<and> type_string (p_type a') = type_string (p_type a)"
    if "a \<in> set (xs @ p # ys)" for a
  proof (cases "a = p")
    case True
    with assms show ?thesis by (intro bexI [of _ r]) simp_all
  next
    case False
    with that show ?thesis by (intro bexI [of _ a]) auto
  qed
  show "consistent (xs @ p # ys)"
    unfolding consistent_def
  proof (intro ballI impI)
    fix a b
    assume a: "a \<in> set (xs @ p # ys)" and b: "b \<in> set (xs @ p # ys)" and n: "p_name a = p_name b"
    obtain a' b' where "a' \<in> set (xs @ ys)" "p_name a' = p_name a" "type_string (p_type a') = type_string (p_type a)"
      "b' \<in> set (xs @ ys)" "p_name b' = p_name b" "type_string (p_type b') = type_string (p_type b)"
      using rep [OF a] rep [OF b] by blast
    with c n show "type_string (p_type a) = type_string (p_type b)" unfolding consistent_def by metis
  qed
qed

lemma consistent_distinct: "distinct (map p_name ps) \<Longrightarrow> consistent ps"
  by (auto simp: consistent_def distinct_map dest: inj_onD)

lemma collect_all_params:
  "seen_ok st \<Longrightarrow> distinct (map p_name (ss_params st)) \<Longrightarrow>
     map_res ss_params (collect_all ps st) = Inr qs \<longleftrightarrow>
       consistent (ss_params st @ ps) \<and>
       qs = ss_params st @ filter (\<lambda>q. p_name q \<notin> p_name ` set (ss_params st)) (dedup ps)"
proof (induction ps arbitrary: st)
  case Nil
  then show ?case by (auto simp: consistent_distinct)
next
  case (Cons p ps)
  show ?case
  proof (cases "ss_seen st (p_name p)")
    case None
    let ?st = "st\<lparr>ss_seen := (ss_seen st)(p_name p \<mapsto> p_type p), ss_params := ss_params st @ [p]\<rparr>"
    have new: "p_name p \<notin> p_name ` set (ss_params st)" using None Cons.prems(1) seen_ok_None by blast
    have flt: "filter (\<lambda>q. p_name q \<notin> p_name ` set (ss_params st @ [p])) xs =
        filter (\<lambda>q. p_name q \<notin> p_name ` set (ss_params st)) (filter (\<lambda>q. p_name q \<noteq> p_name p) xs)" for xs :: "Param list"
      by (auto intro!: filter_cong)
    show ?thesis
      using Cons.IH [OF seen_ok_step [OF Cons.prems(1) None]] Cons.prems(2) None new
      by (simp add: collect_param_def flt [simplified])
  next
    case (Some t)
    then obtain r where r: "r \<in> set (ss_params st)" "p_name r = p_name p" "p_type r = t"
      using seen_ok_Some [OF Cons.prems(1)] by metis
    show ?thesis
    proof (cases "type_string t = type_string (p_type p)")
      case True
      have old: "p_name p \<in> p_name ` set (ss_params st)" using r by (metis image_eqI)
      have flt: "filter (\<lambda>q. p_name q \<notin> p_name ` set (ss_params st)) (filter (\<lambda>q. p_name q \<noteq> p_name p) xs) =
          filter (\<lambda>q. p_name q \<notin> p_name ` set (ss_params st)) xs" for xs :: "Param list"
        using old by (auto intro!: filter_cong)
      show ?thesis
        using Cons.IH [OF Cons.prems] Some True old consistent_absorb [OF r(1,2), of ps] r(3) flt
        by (simp add: collect_param_def del: filter_filter)
    next
      case False
      then have "\<not> consistent (ss_params st @ p # ps)" using r by (auto simp: consistent_def)
      with False Some show ?thesis by (simp add: collect_param_def)
    qed
  qed
qed

lemma ScanParams_iff:
  "ScanParams sql = Inr ps \<longleftrightarrow> (\<exists>occ. sql_params sql = Inr occ \<and> consistent occ \<and> ps = dedup occ)"
proof -
  let ?st = "\<lparr>ss_params = [], ss_seen = Map.empty\<rparr>"
  have ok: "seen_ok ?st" by (simp add: seen_ok_def)
  show ?thesis
  proof (cases "items [] sql")
    case (Inr its)
    then show ?thesis
      using collect_all_params [OF ok, of "params_of its" ps]
      by (simp add: ScanParams_def scanSQL_text scan_text_items [OF Inr] run_items_collect sql_params_def)
  next
    case (Inl e)
    then show ?thesis
      using scan_text_Inr [of "\<lambda>t st. st" collect_param "[]" sql ?st]
      by (auto simp: ScanParams_def scanSQL_text sql_params_def)
  qed
qed

subsection \<open>What a parameter looks like\<close>

text \<open>The names that a parameter can be written with.\<close>

definition good_name :: "string \<Rightarrow> bool" where
  "good_name n \<longleftrightarrow> n \<noteq> [] \<and> trimmed n \<and> CHR '':'' \<notin> set n \<and> no_brace n"

lemma parse_param_good:
  assumes "parse_param body = Inr p" "no_brace body"
  shows "good_name (p_name p) \<and> no_brace (type_string (p_type p)) \<and>
    (ch_supported (p_type p) \<longrightarrow> ch_wf (p_type p))"
proof -
  from assms(1) obtain k where k: "IndexByte body CHR '':'' = Some k"
    and p: "Parse (TrimSpace (drop (k + 1) body)) = Inr (p_type p)"
    and n: "p_name p = TrimSpace (take k body)" "p_name p \<noteq> []"
    by (auto simp: parse_param_def Let_def split: option.splits if_splits sum.splits)
  have "no_brace (TrimSpace (drop (k + 1) body))"
    using assms(2) set_TrimSpace [of "drop (k + 1) body"] by (auto dest: in_set_dropD)
  then have "no_brace (type_string (p_type p))" using Parse_no_brace [OF p] by blast
  moreover have "set (p_name p) \<subseteq> set (take k body)" unfolding n by (rule set_TrimSpace)
  then have "CHR '':'' \<notin> set (p_name p)" "no_brace (p_name p)"
    using IndexByte_Some [OF k] assms(2) by (auto dest: in_set_takeD)
  ultimately show ?thesis
    using n Parse_wf [OF p] by (auto simp: good_name_def trimmed_TrimSpace)
qed

lemma items_good:
  "items u s = Inr its \<Longrightarrow> p \<in> set (params_of its) \<Longrightarrow>
     good_name (p_name p) \<and> no_brace (type_string (p_type p)) \<and>
     (ch_supported (p_type p) \<longrightarrow> ch_wf (p_type p))"
proof (induction u s arbitrary: its rule: items.induct)
  case (1 u s)
  let ?r = "drop (plain_len s) s"
  show ?case
  proof (cases "?r = []")
    case True
    with 1(2,3) show ?thesis
      using params_of_text [of _ "[]"] by (auto simp: items.simps [of u s])
  next
    case False
    with 1(2) obtain e q its' where e: "IndexByte ?r CHR ''}'' = Some e"
      and q: "parse_param (go_slice ?r 1 e) = Inr q" and its': "items [] (drop (e + 1) ?r) = Inr its'"
      and its: "its = text_item (u @ take (plain_len s) s) @ ParamItem q # its'"
      by (auto simp: items.simps [of u s] Let_def split: option.splits)
    have "set (go_slice ?r 1 e) \<subseteq> set (take e ?r)"
      by (cases e; cases ?r) (auto simp: go_slice_def)
    then have "no_brace (go_slice ?r 1 e)" using IndexByte_Some [OF e] by auto
    with parse_param_good [OF q] 1(1) [OF refl refl False e q its'] 1(3) its show ?thesis by auto
  qed
qed

lemma sql_params_good:
  "sql_params sql = Inr occ \<Longrightarrow> p \<in> set occ \<Longrightarrow>
     good_name (p_name p) \<and> no_brace (type_string (p_type p)) \<and>
     (ch_supported (p_type p) \<longrightarrow> ch_wf (p_type p))"
  by (auto simp: sql_params_def dest: items_good)

lemma good_readable:
  assumes "good_name n" "ch_wf t" "no_brace (type_string t)"
  shows "readable n t"
proof -
  have "IndexByte (n @ CHR '':'' # type_string t) CHR '':'' = Some (length n)"
    using assms(1) by (intro IndexByte_append) (simp add: good_name_def)
  then show ?thesis
    using assms type_string_trimmed [OF assms(2)] Parse_type_string [OF assms(2)]
    by (simp add: readable_def parse_param_def good_name_def TrimSpace_trimmed)
qed

text \<open>A query whose parameters all have types that pggen knows.\<close>

definition known_types :: "string \<Rightarrow> bool" where
  "known_types sql = (case sql_params sql of Inl e \<Rightarrow> False
     | Inr occ \<Rightarrow> list_all (\<lambda>p. ch_supported (p_type p)) occ)"

text \<open>Rewriting a query, and the parameters of what is written.\<close>

lemma rewrite_params:
  assumes "known_types sql" "sql_params sql = Inr occ"
    "\<And>p. p \<in> set occ \<Longrightarrow> good_name (p_name p) \<Longrightarrow> ch_wf (p_type p) \<Longrightarrow>
      no_brace (type_string (p_type p)) \<Longrightarrow> replaces f keep p"
  shows "\<exists>its. items [] sql = Inr its \<and>
    sql_params (concat (map (render f) its)) = Inr (List.map_filter keep occ)"
proof -
  obtain its where its: "items [] sql = Inr its" "occ = params_of its"
    using assms(2) by (auto simp: sql_params_def)
  have "replaces f keep p" if "p \<in> set (params_of its)" for p
    using that its assms sql_params_good [OF assms(2)]
    by (auto simp: known_types_def list_all_iff)
  from reread [OF its(1) refl this] its show ?thesis by simp
qed

lemma map_filter_Some: "List.map_filter (\<lambda>x. Some (g x)) xs = map g xs"
  by (induction xs) (simp_all add: map_filter_simps)

lemma map_filter_if: "List.map_filter (\<lambda>x. if P x then Some x else None) xs = filter P xs"
  by (induction xs) (simp_all add: map_filter_simps)

lemma set_dedup: "set (dedup ps) \<subseteq> set ps"
  by (induction ps) auto

lemma dedup_rep: "p \<in> set ps \<Longrightarrow> \<exists>q \<in> set (dedup ps). p_name q = p_name p"
proof (induction ps)
  case (Cons a ps)
  then show ?case by (cases "p_name a = p_name p") (auto, metis)
qed simp

lemma dedup_map:
  assumes "inj_on f (p_name ` set ps)"
  shows "dedup (map (p_name_update f) ps) = map (p_name_update f) (dedup ps)"
  using assms
proof (induction ps)
  case (Cons p ps)
  have "f (p_name q) \<noteq> f (p_name p) \<longleftrightarrow> p_name q \<noteq> p_name p" if "q \<in> set (dedup ps)" for q
  proof -
    have "p_name q \<in> p_name ` set (p # ps)" "p_name p \<in> p_name ` set (p # ps)"
      using that set_dedup [of ps] by auto
    with inj_on_eq_iff [OF Cons.prems] show ?thesis by blast
  qed
  then show ?case
    using Cons by (simp add: filter_map o_def inj_on_def cong: filter_cong)
qed simp

lemma consistent_map:
  "inj_on f (p_name ` set ps) \<Longrightarrow> consistent ps \<Longrightarrow> consistent (map (p_name_update f) ps)"
  unfolding consistent_def
proof (intro ballI impI)
  fix a b
  assume inj: "inj_on f (p_name ` set ps)"
    and c: "\<forall>p \<in> set ps. \<forall>q \<in> set ps. p_name p = p_name q \<longrightarrow> type_string (p_type p) = type_string (p_type q)"
    and ab: "a \<in> set (map (p_name_update f) ps)" "b \<in> set (map (p_name_update f) ps)" "p_name a = p_name b"
  then obtain p q where pq: "p \<in> set ps" "q \<in> set ps" "a = p_name_update f p" "b = p_name_update f q"
    by auto
  have "f (p_name p) = f (p_name q)" using ab(3) unfolding pq(3,4) by simp
  with inj_on_eq_iff [OF inj] pq(1,2) have "p_name p = p_name q" by blast
  with c pq(1,2) have "type_string (p_type p) = type_string (p_type q)" by blast
  then show "type_string (p_type a) = type_string (p_type b)" unfolding pq(3,4) by simp
qed

lemma dedup_filter:
  assumes "\<And>p q. p \<in> set ps \<Longrightarrow> q \<in> set ps \<Longrightarrow> p_name p = p_name q \<Longrightarrow> P p \<longleftrightarrow> P q"
  shows "dedup (filter P ps) = filter P (dedup ps)"
  using assms
proof (induction ps)
  case (Cons p ps)
  then have IH: "dedup (filter P ps) = filter P (dedup ps)" by (meson list.set_intros(2))
  show ?case
  proof (cases "P p")
    case True
    with IH show ?thesis by (simp add: conj_commute)
  next
    case False
    have "p_name q \<noteq> p_name p" if "q \<in> set (dedup ps)" "P q" for q
      using that False Cons.prems [of q p] set_dedup [of ps] by auto
    then have "filter P (filter (\<lambda>q. p_name q \<noteq> p_name p) (dedup ps)) = filter P (dedup ps)"
      by (simp, intro filter_cong) auto
    with False IH show ?thesis by (simp del: filter_filter)
  qed
qed simp

subsection \<open>Properties\<close>

text \<open>C22: every statement that \<^verbatim>\<open>SplitStatements\<close> returns is one statement without comments and
  surrounding blanks: splitting it again gives it back unchanged, and \<^verbatim>\<open>SingleStatement\<close> accepts
  it as it is, so inference can splice it into a larger statement.\<close>

theorem SplitStatements_stable:
  assumes "t \<in> set (SplitStatements sql)"
  shows "t \<noteq> [] \<and> TrimSpace t = t \<and> SplitStatements t = [t] \<and> SingleStatement t = Inr t"
proof -
  have st: "statement t" using assms by (rule SplitStatements_statements)
  then have "SplitStatements t = [t]" by (rule SplitStatements_statement)
  with st show ?thesis by (simp add: statement_def TrimSpace_trimmed SingleStatement_def)
qed

theorem SplitStatements_stable_witness:
  "''SELECT 'a;b' x'' \<noteq> [] \<and> TrimSpace ''SELECT 'a;b' x'' = ''SELECT 'a;b' x'' \<and>
   SplitStatements ''SELECT 'a;b' x'' = [''SELECT 'a;b' x''] \<and>
   SingleStatement ''SELECT 'a;b' x'' = Inr ''SELECT 'a;b' x''"
  by (rule SplitStatements_stable [of _ "'' SELECT 'a;b' x -- c; d''"]) code_simp

text \<open>C23: \<^verbatim>\<open>ScanParams\<close> succeeds exactly when the braces outside literals and comments are all
  parameters and the occurrences of a name agree on the type, and then it returns the first
  occurrence of each name, in order.\<close>

theorem ScanParams_first_occurrences:
  "ScanParams sql = Inr ps \<longleftrightarrow> (\<exists>occ. sql_params sql = Inr occ \<and> consistent occ \<and> ps = dedup occ)"
  by (rule ScanParams_iff)

lemma rename_params_aux:
  assumes "ScanParams sql = Inr ps" "known_types sql" "inj_on f (p_name ` set ps)"
    "\<forall>p \<in> set ps. good_name (f (p_name p))"
  shows "\<exists>out. RenameParams sql f = Inr out \<and> ScanParams out = Inr (map (p_name_update f) ps)"
proof -
  obtain occ where occ: "sql_params sql = Inr occ" "consistent occ" "ps = dedup occ"
    using assms(1) by (auto simp: ScanParams_iff)
  have names: "p_name ` set (dedup ps) = p_name ` set ps" for ps
    using set_dedup [of ps] dedup_rep [of _ ps] by (auto simp: image_def, metis)
  have good: "good_name (f (p_name p))" if "p \<in> set occ" for p
  proof -
    have "p_name p \<in> p_name ` set ps" using that names [of occ] occ(3) by auto
    with assms(4) show ?thesis by auto
  qed
  let ?f = "\<lambda>p. braced (f (p_name p)) (p_type p)"
  obtain its where its: "items [] sql = Inr its"
    "sql_params (concat (map (render ?f) its)) = Inr (List.map_filter (\<lambda>p. Some (p_name_update f p)) occ)"
    using rewrite_params [OF assms(2) occ(1), of ?f "\<lambda>p. Some (p_name_update f p)"] good
    by (auto simp: replaces_def good_readable)
  have "inj_on f (p_name ` set occ)" using assms(3) occ(3) names by simp
  then show ?thesis
    using its occ
    by (auto simp: RenameParams_render ScanParams_iff map_filter_Some consistent_map dedup_map)
qed

text \<open>C24: a query with its parameters renamed has the renamed parameters and no others, whatever
  literals and comments surround them.\<close>

theorem RenameParams_reread:
  assumes "ScanParams sql = Inr ps" "known_types sql" "inj_on f (p_name ` set ps)"
    "\<forall>p \<in> set ps. good_name (f (p_name p))"
  shows "\<exists>out. RenameParams sql f = Inr out \<and> ScanParams out = Inr (map (p_name_update f) ps)"
  using rename_params_aux [OF assms] .

theorem RenameParams_reread_witness:
  "\<exists>out. RenameParams ''SELECT {a:UInt8}, '{b}' -- {c}'' (\<lambda>n. ''p_'' @ n) = Inr out \<and>
     ScanParams out = Inr (map (p_name_update (\<lambda>n. ''p_'' @ n)) [\<lparr>p_name = ''a'', p_type = Scalar ''UInt8''\<rparr>])"
proof (rule RenameParams_reread)
  show "ScanParams ''SELECT {a:UInt8}, '{b}' -- {c}'' = Inr [\<lparr>p_name = ''a'', p_type = Scalar ''UInt8''\<rparr>]"
    by code_simp
  show "known_types ''SELECT {a:UInt8}, '{b}' -- {c}''" by code_simp
  show "\<forall>p \<in> set [\<lparr>p_name = ''a'', p_type = Scalar ''UInt8''\<rparr>]. good_name (''p_'' @ p_name p)"
    by code_simp
qed (simp add: inj_on_def)

lemma IsIdentifier_iff: "IsIdentifier t \<longleftrightarrow> t = Scalar ''Identifier''"
  by (cases t) (simp_all add: IsIdentifier_def)

lemma identifier_consistent:
  assumes "sql_params sql = Inr occ" "known_types sql" "consistent occ" "p \<in> set occ" "q \<in> set occ"
    "p_name p = p_name q"
  shows "IsIdentifier (p_type p) \<longleftrightarrow> IsIdentifier (p_type q)"
proof -
  have "ch_wf (p_type p)" "ch_wf (p_type q)"
    using assms sql_params_good [OF assms(1)] by (auto simp: known_types_def list_all_iff)
  moreover have "type_string (p_type p) = type_string (p_type q)"
    using assms(3-6) unfolding consistent_def by blast
  ultimately have "p_type p = p_type q" by (metis Parse_type_string sum.inject(2))
  then show ?thesis by simp
qed

definition ident_names :: "string \<Rightarrow> bool" where
  "ident_names sql = (case sql_params sql of Inl e \<Rightarrow> False
     | Inr occ \<Rightarrow> list_all (\<lambda>p. list_all isIdentByte (p_name p)) occ)"

lemma substitute_identifiers_aux:
  assumes "ScanParams sql = Inr ps" "known_types sql"
    "\<forall>p \<in> set ps. IsIdentifier (p_type p) \<longrightarrow> value (p_name p) \<noteq> [] \<and> list_all isIdentByte (value (p_name p))"
  shows "\<exists>out. SubstituteIdentifiers sql value = Inr out \<and>
    ScanParams out = Inr (filter (\<lambda>p. \<not> IsIdentifier (p_type p)) ps) \<and> known_types out"
proof -
  let ?P = "\<lambda>p. \<not> IsIdentifier (p_type p)"
  obtain occ where occ: "sql_params sql = Inr occ" "consistent occ" "ps = dedup occ"
    using assms(1) by (auto simp: ScanParams_iff)
  note cons = identifier_consistent [OF occ(1) assms(2) occ(2)]
  have val: "value (p_name p) \<noteq> [] \<and> list_all isIdentByte (value (p_name p))"
    if p: "p \<in> set occ" "IsIdentifier (p_type p)" for p
  proof -
    obtain q where q: "q \<in> set ps" "p_name q = p_name p" using dedup_rep [OF p(1)] occ(3) by auto
    then have "q \<in> set occ" using set_dedup occ(3) by blast
    with cons [OF p(1)] q p(2) have "IsIdentifier (p_type q)" by simp
    with assms(3) q show ?thesis by force
  qed
  have reps: "replaces (substituted value) (\<lambda>p. if ?P p then Some p else None) p"
    if p: "p \<in> set occ" "good_name (p_name p)" "ch_wf (p_type p)" "no_brace (type_string (p_type p))" for p
  proof (cases "IsIdentifier (p_type p)")
    case True
    with val [OF p(1)] obtain c cs where c: "value (p_name p) = c # cs" "isIdentByte c"
      "list_all isIdentByte (c # cs)" by (cases "value (p_name p)") auto
    then have "opens c" by (auto simp: opens_def ident_simps)
    with True c closed_ident [OF c(3)] show ?thesis by (simp add: replaces_def substituted_def)
  qed (use p in \<open>simp add: replaces_def substituted_def good_readable\<close>)
  obtain its where its: "items [] sql = Inr its"
    "sql_params (concat (map (render (substituted value)) its)) = Inr (filter ?P occ)"
    using rewrite_params [OF assms(2) occ(1) reps] by (auto simp: map_filter_if)
  moreover have "dedup (filter ?P occ) = filter ?P ps"
    unfolding occ(3) using cons by (intro dedup_filter) blast
  moreover have "consistent (filter ?P occ)" using occ(2) by (rule consistent_subset) auto
  moreover have "known_types (concat (map (render (substituted value)) its))"
    using its(2) occ(1) assms(2) by (auto simp: known_types_def list_all_iff)
  ultimately show ?thesis by (auto simp: SubstituteIdentifiers_render ScanParams_iff)
qed

text \<open>C25: putting names into the text for the identifiers of a query leaves exactly its other
  parameters.\<close>

theorem SubstituteIdentifiers_reread:
  assumes "ScanParams sql = Inr ps" "known_types sql"
    "\<forall>p \<in> set ps. IsIdentifier (p_type p) \<longrightarrow> value (p_name p) \<noteq> [] \<and> list_all isIdentByte (value (p_name p))"
  shows "\<exists>out. SubstituteIdentifiers sql value = Inr out \<and>
    ScanParams out = Inr (filter (\<lambda>p. \<not> IsIdentifier (p_type p)) ps)"
  using substitute_identifiers_aux [OF assms] by blast

theorem SubstituteIdentifiers_reread_witness:
  "\<exists>out. SubstituteIdentifiers ''SELECT {a:UInt8} FROM {t:Identifier}'' (\<lambda>n. n) = Inr out \<and>
     ScanParams out = Inr (filter (\<lambda>p. \<not> IsIdentifier (p_type p))
       [\<lparr>p_name = ''a'', p_type = Scalar ''UInt8''\<rparr>, \<lparr>p_name = ''t'', p_type = Scalar ''Identifier''\<rparr>])"
  by (rule SubstituteIdentifiers_reread) code_simp+

text \<open>C11: in the query that generated code runs, every parameter but the identifiers has become
  a bound \<^verbatim>\<open>cast(@name AS Type)\<close>: no \<^verbatim>\<open>{name:Type}\<close> is left that would switch the driver to
  server-side parameters.\<close>

theorem RewriteParams_binds_all:
  assumes "ScanParams sql = Inr ps" "known_types sql" "ident_names sql"
  shows "\<exists>out. RewriteParams sql = Inr out \<and> ScanParams out = Inr (filter (\<lambda>p. IsIdentifier (p_type p)) ps)"
proof -
  let ?P = "\<lambda>p. IsIdentifier (p_type p)"
  obtain occ where occ: "sql_params sql = Inr occ" "consistent occ" "ps = dedup occ"
    using assms(1) by (auto simp: ScanParams_iff)
  have reps: "replaces rewritten (\<lambda>p. if ?P p then Some p else None) p"
    if p: "p \<in> set occ" "good_name (p_name p)" "ch_wf (p_type p)" "no_brace (type_string (p_type p))" for p
  proof (cases "IsIdentifier (p_type p)")
    case False
    have "closed (p_name p)"
      using assms(3) p(1) occ(1) by (intro closed_ident) (auto simp: ident_names_def list_all_iff)
    with False show ?thesis
      by (simp add: replaces_def rewritten_def closed_simps opens_def closed_type_string p(3))
  qed (use p in \<open>simp add: replaces_def rewritten_def good_readable\<close>)
  obtain its where its: "items [] sql = Inr its"
    "sql_params (concat (map (render rewritten) its)) = Inr (filter ?P occ)"
    using rewrite_params [OF assms(2) occ(1) reps] by (auto simp: map_filter_if)
  moreover have "dedup (filter ?P occ) = filter ?P ps"
    unfolding occ(3) using identifier_consistent [OF occ(1) assms(2) occ(2)] by (intro dedup_filter) blast
  moreover have "consistent (filter ?P occ)" using occ(2) by (rule consistent_subset) auto
  ultimately show ?thesis by (auto simp: RewriteParams_render ScanParams_iff)
qed

theorem RewriteParams_binds_all_witness:
  "\<exists>out. RewriteParams ''SELECT {a:Enum8('x' = 1)} FROM {t:Identifier}'' = Inr out \<and>
     ScanParams out = Inr (filter (\<lambda>p. IsIdentifier (p_type p))
       [\<lparr>p_name = ''a'', p_type = Enum 8 [(''x'', 1)]\<rparr>, \<lparr>p_name = ''t'', p_type = Scalar ''Identifier''\<rparr>])"
  by (rule RewriteParams_binds_all) code_simp+

end
