(* ===== verification/Ast.thy ===== *)
theory Ast
  imports GoPrelude
begin

text \<open>
  The syntax tree of a query file, \<^verbatim>\<open>internal/ast/ast.go\<close>. Positions are 1-based, 0 being
  \<^verbatim>\<open>NoPos\<close>. \<^verbatim>\<open>Cursor\<close> of a sort spec is a Go map; it is kept as a list of bindings with distinct
  columns, in the order in which they were first written.
\<close>

datatype NodeKind = KindLineComment | KindCommentGroup | KindBadQuery | KindTemplateQuery | KindFile

definition NodeKind_String :: "NodeKind \<Rightarrow> string" where
  "NodeKind_String k =
     (case k of KindLineComment \<Rightarrow> ''LineComment'' | KindCommentGroup \<Rightarrow> ''CommentGroup''
      | KindBadQuery \<Rightarrow> ''BadQuery'' | KindTemplateQuery \<Rightarrow> ''SourceQuery'' | KindFile \<Rightarrow> ''File'')"

datatype LineComment = LineCommentNode (lc_start: nat) (lc_text: string)

type_synonym CommentGroup = "LineComment list"

definition LineComment_End :: "LineComment \<Rightarrow> nat" where
  "LineComment_End c = lc_start c + length (lc_text c)"

definition CommentGroup_Pos :: "CommentGroup \<Rightarrow> nat" where
  "CommentGroup_Pos g = lc_start (hd g)"

definition CommentGroup_End :: "CommentGroup \<Rightarrow> nat" where
  "CommentGroup_End g = LineComment_End (last g)"

datatype ResultKind = ResultKindMany | ResultKindOne | ResultKindExec

definition ResultKind_text :: "ResultKind \<Rightarrow> string" where
  "ResultKind_text k =
     (case k of ResultKindMany \<Rightarrow> '':many'' | ResultKindOne \<Rightarrow> '':one'' | ResultKindExec \<Rightarrow> '':exec'')"

record Pragmas =
  ProtobufType :: string
  OutputType :: string
  Paginate :: string
  SQLConst :: string

definition no_pragmas :: Pragmas where
  "no_pragmas = \<lparr>ProtobufType = [], OutputType = [], Paginate = [], SQLConst = []\<rparr>"

record SortKey =
  sk_name :: string
  sk_columns :: "string list"
  sk_nullable :: "string list"

record SortSpec =
  ss_name :: string
  ss_keys :: "SortKey list"
  ss_default :: "string list"
  ss_cursor :: "(string \<times> string) list"
  ss_tiebreak :: string

definition IsKeyset :: "SortSpec \<Rightarrow> bool" where
  "IsKeyset s = (ss_cursor s \<noteq> [])"

definition key_IsNullable :: "SortKey \<Rightarrow> string \<Rightarrow> bool" where
  "key_IsNullable k col = list_ex (\<lambda>c. c = col) (sk_nullable k)"

record VariantKey =
  vk_sort :: string
  vk_descending :: bool
  vk_default :: bool

definition no_variant :: VariantKey where
  "no_variant = \<lparr>vk_sort = [], vk_descending = False, vk_default = False\<rparr>"

record SourceQuery =
  sq_name :: string
  sq_doc :: "CommentGroup option"
  sq_start :: nat
  sq_sql :: string
  sq_prepared :: string
  sq_params :: "string list"
  sq_kind :: ResultKind
  sq_pragmas :: Pragmas
  sq_semi :: nat
  sq_group :: string
  sq_variant :: VariantKey

datatype Query = BadQuery nat nat | SourceQ SourceQuery

definition Query_Pos :: "Query \<Rightarrow> nat" where
  "Query_Pos q = (case q of BadQuery from to \<Rightarrow> from | SourceQ sq \<Rightarrow> sq_start sq)"

definition Query_End :: "Query \<Rightarrow> nat" where
  "Query_End q = (case q of BadQuery from to \<Rightarrow> to | SourceQ sq \<Rightarrow> sq_semi sq)"

definition Query_Kind :: "Query \<Rightarrow> NodeKind" where
  "Query_Kind q = (case q of BadQuery from to \<Rightarrow> KindBadQuery | SourceQ sq \<Rightarrow> KindTemplateQuery)"

record File =
  f_name :: string
  f_doc :: "CommentGroup option"
  f_queries :: "Query list"
  f_comments :: "CommentGroup list"

definition File_Pos :: "File \<Rightarrow> nat" where
  "File_Pos f = 1"

definition File_End :: "File \<Rightarrow> nat" where
  "File_End f = (if f_queries f \<noteq> [] then Query_End (last (f_queries f)) else 1)"

end
