(* ===== verification/ChInfer.thy ===== *)
theory ChInfer
  imports ChSqlProps ChInsert Ast "HOL-Library.List_Lexorder" "HOL-Library.Char_ord"
begin

text \<open>
  Type inference for ClickHouse, \<^verbatim>\<open>internal/chinfer/chinfer.go\<close>, and the typed queries it produces,
  \<^verbatim>\<open>internal/codegen/common.go\<close>. The server is the parameter \<open>conn\<close>: a query and its arguments give an
  error or an answer. An answer has column names, rows, each of which scans to strings, one for each
  column, or fails to scan, and the error that the iteration ended with, if any. The settings of the
  connection are part of the parameter.
\<close>

subsection \<open>Typed queries\<close>

record 't InputParam =
  ip_name :: string
  ip_type :: 't

record 't OutputColumn =
  oc_name :: string
  oc_type :: 't
  oc_nullable :: bool

record 't TypedQuery =
  tq_name :: string
  tq_kind :: ResultKind
  tq_doc :: "string list"
  tq_sql :: string
  tq_inputs :: "'t InputParam list"
  tq_outputs :: "'t OutputColumn list"
  tq_proto :: string
  tq_output :: string
  tq_const :: string
  tq_group :: string
  tq_variant :: VariantKey

definition ExtractDoc :: "SourceQuery \<Rightarrow> string list" where
  "ExtractDoc query =
     (case sq_doc query of
        None \<Rightarrow> []
      | Some g \<Rightarrow>
          if length g \<le> 1 then []
          else map (\<lambda>c. TrimSpace (dropWhile (\<lambda>x. x = CHR ''-'') (lc_text c))) (butlast g))"

definition typed_query :: "SourceQuery \<Rightarrow> 't InputParam list \<Rightarrow> 't OutputColumn list \<Rightarrow> 't TypedQuery" where
  "typed_query query inputs outputs =
     \<lparr>tq_name = sq_name query, tq_kind = sq_kind query, tq_doc = ExtractDoc query,
      tq_sql = sq_prepared query, tq_inputs = inputs, tq_outputs = outputs,
      tq_proto = ProtobufType (sq_pragmas query), tq_output = OutputType (sq_pragmas query),
      tq_const = SQLConst (sq_pragmas query), tq_group = sq_group query, tq_variant = sq_variant query\<rparr>"

subsection \<open>The server\<close>

datatype conn_error =
    ServerException int string
  | OtherError string

record rows =
  r_Columns :: "string list"
  r_cells :: "(string + string list) list"
  r_Err :: "conn_error option"

type_synonym ch_conn = "string \<Rightarrow> (string \<times> string) list \<Rightarrow> conn_error + rows"

definition describeError :: "conn_error \<Rightarrow> string" where
  "describeError err =
     (case err of
        ServerException code msg \<Rightarrow> ''clickhouse rejected the query (code '' @ itoa code @ ''): '' @ msg
      | OtherError msg \<Rightarrow> msg)"

datatype infer_error =
    BadParams sql_error
  | NoZero zero_error
  | Rejected string
  | RejectedIdentifiers string "string list"
  | NoNameOrType "string list"
  | BadRow string
  | IndexPanic
  | BadColumnType string
  | NoInsertColumn string string "string list"
  | NoColumns string ResultKind

definition lift_sql :: "sql_error + 'a \<Rightarrow> infer_error + 'a" where
  "lift_sql r = (case r of Inl e \<Rightarrow> Inl (BadParams e) | Inr x \<Rightarrow> Inr x)"

lemma lift_sql_simps [simp]: "lift_sql (Inr x) = Inr x" "lift_sql r = Inr y \<longleftrightarrow> r = Inr y"
  by (auto simp: lift_sql_def split: sum.splits)

subsection \<open>Preparing a query\<close>

definition describeParamPrefix :: string where
  "describeParamPrefix = ''pggen_param_''"

definition param_alias :: "nat \<Rightarrow> string" where
  "param_alias i = describeParamPrefix @ itoa (int i)"

text \<open>The loop over the parameters: the names to rename them to, and the arguments to send.\<close>

fun args_loop :: "(nat \<times> Param) list \<Rightarrow> (string \<rightharpoonup> string) \<Rightarrow> (string \<times> string) list
    \<Rightarrow> infer_error + (string \<rightharpoonup> string) \<times> (string \<times> string) list" where
  "args_loop [] names args = Inr (names, args)"
| "args_loop ((i, p) # ps) names args =
     (if IsIdentifier (p_type p) then args_loop ps names args
      else case ZeroLiteral (p_type p) of
        Inl e \<Rightarrow> Inl (NoZero e)
      | Inr lit \<Rightarrow> args_loop ps (names(p_name p \<mapsto> param_alias i)) (args @ [(param_alias i, lit)]))"

definition bind_params :: "string \<Rightarrow> Param list \<Rightarrow> infer_error + string \<times> (string \<times> string) list" where
  "bind_params sql params =
     res_bind (lift_sql (SubstituteIdentifiers sql (\<lambda>name. name))) (\<lambda>sql1.
     res_bind (args_loop (List.enumerate 0 params) Map.empty []) (\<lambda>(names, args).
     map_res (\<lambda>sql2. (sql2, args))
       (lift_sql (RenameParams sql1 (\<lambda>name. case names name of None \<Rightarrow> [] | Some n \<Rightarrow> n)))))"

definition ch_prepare :: "string \<Rightarrow> Param list \<Rightarrow> infer_error + string \<times> (string \<times> string) list" where
  "ch_prepare sql params =
     res_bind (bind_params sql params) (\<lambda>(sql2, args).
     map_res (\<lambda>stmt. (stmt, args)) (lift_sql (SingleStatement sql2)))"

subsection \<open>Checking and describing\<close>

definition identifierHint :: "string \<Rightarrow> Param list \<Rightarrow> infer_error" where
  "identifierHint err params =
     (let names = map p_name (filter (\<lambda>p. IsIdentifier (p_type p)) params) in
      if names = [] then Rejected err else RejectedIdentifiers err names)"

text \<open>The rows are consumed one by one; the error of the iteration is read after the last one.\<close>

fun each_row :: "(string list \<Rightarrow> infer_error + 'a) \<Rightarrow> (string + string list) list \<Rightarrow> conn_error option
    \<Rightarrow> infer_error + 'a list" where
  "each_row f [] err = (case err of None \<Rightarrow> Inr [] | Some e \<Rightarrow> Inl (Rejected (describeError e)))"
| "each_row f (Inl scan # rs) err = Inl (BadRow scan)"
| "each_row f (Inr cells # rs) err =
     res_bind (f cells) (\<lambda>x. map_res (\<lambda>xs. x # xs) (each_row f rs err))"

text \<open>The index that the loop over the columns ends with: that of the last one of the name.\<close>

definition column_index :: "string \<Rightarrow> string list \<Rightarrow> nat option" where
  "column_index name cols =
     (case filter (\<lambda>i. cols ! i = name) [0..<length cols] of [] \<Rightarrow> None | idxs \<Rightarrow> Some (last idxs))"

definition output_column :: "nat \<Rightarrow> nat \<Rightarrow> string list \<Rightarrow> infer_error + chtype OutputColumn" where
  "output_column nameIdx typeIdx cells =
     (case Parse (cells ! typeIdx) of
        Inl e \<Rightarrow> Inl (BadColumnType (cells ! nameIdx))
      | Inr typ \<Rightarrow> Inr \<lparr>oc_name = cells ! nameIdx, oc_type = typ, oc_nullable = IsNullable typ\<rparr>)"

definition ch_describe :: "ch_conn \<Rightarrow> string \<Rightarrow> Param list \<Rightarrow> infer_error + chtype OutputColumn list" where
  "ch_describe conn sql params =
     res_bind (ch_prepare sql params) (\<lambda>(stmt, args).
       case conn (''DESCRIBE ('' @ stmt @ '')'') args of
         Inl err \<Rightarrow> Inl (identifierHint (describeError err) params)
       | Inr answer \<Rightarrow>
           (case (column_index ''name'' (r_Columns answer), column_index ''type'' (r_Columns answer)) of
              (Some nameIdx, Some typeIdx) \<Rightarrow>
                each_row (output_column nameIdx typeIdx) (r_cells answer) (r_Err answer)
            | _ \<Rightarrow> Inl (NoNameOrType (r_Columns answer))))"

definition checkSyntax :: "ch_conn \<Rightarrow> string \<Rightarrow> Param list \<Rightarrow> infer_error + unit" where
  "checkSyntax conn sql params =
     res_bind (ch_prepare sql params) (\<lambda>(stmt, args).
       case conn (''EXPLAIN AST '' @ stmt) args of
         Inl err \<Rightarrow> Inl (Rejected (describeError err))
       | Inr answer \<Rightarrow>
           (case r_Err answer of None \<Rightarrow> Inr () | Some err \<Rightarrow> Inl (Rejected (describeError err))))"

definition first_cell :: "string list \<Rightarrow> infer_error + string" where
  "first_cell cells = (case cells of [] \<Rightarrow> Inl IndexPanic | name # _ \<Rightarrow> Inr name)"

definition describeTable :: "ch_conn \<Rightarrow> string \<Rightarrow> infer_error + string set" where
  "describeTable conn table =
     (case conn (''DESCRIBE TABLE '' @ table) [] of
        Inl err \<Rightarrow> Inl (Rejected (describeError err))
      | Inr answer \<Rightarrow> map_res set (each_row first_cell (r_cells answer) (r_Err answer)))"

definition sortedNames :: "string set \<Rightarrow> string list" where
  "sortedNames names = sorted_list_of_set names"

definition checkInsertTarget :: "ch_conn \<Rightarrow> string \<Rightarrow> infer_error + unit" where
  "checkInsertTarget conn sql =
     res_bind (lift_sql (SingleStatement sql)) (\<lambda>stmt.
       case ScanInsertTarget stmt of
         None \<Rightarrow> Inr ()
       | Some target \<Rightarrow>
           res_bind (describeTable conn (SQLName target)) (\<lambda>existing.
             case find (\<lambda>c. c \<notin> existing) (Columns target) of
               None \<Rightarrow> Inr ()
             | Some c \<Rightarrow> Inl (NoInsertColumn (Table target) c (sortedNames existing))))"

definition checkExec :: "ch_conn \<Rightarrow> string \<Rightarrow> Param list \<Rightarrow> infer_error + unit" where
  "checkExec conn sql params =
     res_bind (checkSyntax conn sql params) (\<lambda>_. checkInsertTarget conn sql)"

definition ch_InferTypes :: "ch_conn \<Rightarrow> SourceQuery \<Rightarrow> infer_error + chtype TypedQuery" where
  "ch_InferTypes conn query =
     res_bind (lift_sql (ScanParams (sq_prepared query))) (\<lambda>params.
       let inputs = map (\<lambda>p. \<lparr>ip_name = p_name p, ip_type = p_type p\<rparr>) params in
       if sq_kind query = ResultKindExec then
         map_res (\<lambda>_. typed_query query inputs []) (checkExec conn (sq_prepared query) params)
       else
         res_bind (ch_describe conn (sq_prepared query) params) (\<lambda>outputs.
           if outputs = [] then Inl (NoColumns (sq_name query) (sq_kind query))
           else Inr (typed_query query inputs outputs)))"

end
