(* ===== verification/ChInferProps.thy ===== *)
theory ChInferProps
  imports ChInfer
begin

text \<open>
  What inference tells the server and what it reports: the renamed query and its arguments, the
  statements that are sent, and the typed query that comes back.
\<close>

subsection \<open>The arguments\<close>

abbreviation (input) bound :: "nat \<times> Param \<Rightarrow> bool" where
  "bound ip \<equiv> \<not> IsIdentifier (p_type (snd ip))"

definition zero_of :: "chtype \<Rightarrow> string" where
  "zero_of t = (case ZeroLiteral t of Inl e \<Rightarrow> [] | Inr lit \<Rightarrow> lit)"

definition has_zero :: "chtype \<Rightarrow> bool" where
  "has_zero t \<longleftrightarrow> (case ZeroLiteral t of Inl e \<Rightarrow> False | Inr lit \<Rightarrow> True)"

lemma args_loop_eq:
  assumes "\<forall>ip \<in> set ips. bound ip \<longrightarrow> has_zero (p_type (snd ip))"
  shows "args_loop ips names args =
    Inr (names(map (p_name \<circ> snd) (filter bound ips) [\<mapsto>] map (param_alias \<circ> fst) (filter bound ips)),
         args @ map (\<lambda>ip. (param_alias (fst ip), zero_of (p_type (snd ip)))) (filter bound ips))"
  using assms
  by (induction ips names args rule: args_loop.induct) (auto simp: has_zero_def zero_of_def split: sum.splits)

lemma filter_enumerate: "map snd (filter (\<lambda>ip. P (snd ip)) (List.enumerate n xs)) = filter P xs"
  by (induction xs arbitrary: n) auto

lemma map_upds_distinct:
  "distinct (map k xs) \<Longrightarrow> x \<in> set xs \<Longrightarrow> (m(map k xs [\<mapsto>] map v xs)) (k x) = Some (v x)"
proof (induction xs arbitrary: m)
  case (Cons y ys)
  show ?case
  proof (cases "x = y")
    case True
    with Cons.prems show ?thesis by (simp add: map_upds_apply_nontin)
  next
    case False
    with Cons show ?thesis by (auto simp: image_iff)
  qed
qed simp

lemma param_alias_inj: "param_alias i = param_alias j \<longleftrightarrow> i = j"
  by (auto simp: param_alias_def dest: itoa_nat_inj)

text \<open>An alias starts with a letter and ends in a digit, so that it can be read back from its braces.\<close>

lemma digit_cases: "is_digit c \<Longrightarrow> c \<in> set ''0123456789''"
proof -
  have "\<forall>c. is_digit c \<longrightarrow> c \<in> set ''0123456789''" by code_simp
  then show "is_digit c \<Longrightarrow> c \<in> set ''0123456789''" by blast
qed

lemma good_alias: "good_name (param_alias i)"
proof -
  let ?d = "nat_digits i"
  have al: "param_alias i = ''pggen_param_'' @ ?d"
    by (simp add: param_alias_def describeParamPrefix_def itoa_def)
  have digits: "set ?d \<subseteq> set ''0123456789''"
    using nat_digits_all [of i] digit_cases by (auto simp: list_all_iff)
  obtain ds c where dc: "?d = ds @ [c]" by (metis nat_digits_ne rev_exhaust)
  have c: "c \<in> set ''0123456789''" using digits dc by auto
  have pre: "\<not> prefix w (param_alias i)" if "w \<in> set space_runes" for w
  proof -
    have "list_all (\<lambda>w. w \<noteq> [] \<and> hd w \<noteq> CHR ''p'') space_runes" by code_simp
    then have "w \<noteq> [] \<and> hd w \<noteq> CHR ''p''" using that by (simp add: list_all_iff)
    then show ?thesis by (cases w) (auto simp: al)
  qed
  have suf: "\<not> suffix w (param_alias i)" if "w \<in> set space_runes" for w
  proof -
    have "list_all (\<lambda>w. w \<noteq> [] \<and> last w \<notin> set ''0123456789'') space_runes" by code_simp
    then have w: "w \<noteq> []" "last w \<notin> set ''0123456789''" using that by (simp_all add: list_all_iff)
    have "last (param_alias i) = c" by (simp add: al dc)
    with w c show ?thesis by (metis suffix_def last_appendR)
  qed
  have rest: "CHR '':'' \<notin> set (param_alias i)" "no_brace (param_alias i)"
    using digits by (auto simp: al)
  from pre suf rest show ?thesis
    by (simp add: good_name_def trimmed_def list_all_iff) (simp add: al)
qed

lemma p_name_alias: "p_name_update f p = \<lparr>p_name = f (p_name p), p_type = p_type p\<rparr>"
  by (cases p) simp

lemma distinct_dedup: "distinct (map p_name (dedup ps))"
  by (induction ps) (auto simp: distinct_map_filter)

lemma ScanParams_distinct: "ScanParams sql = Inr ps \<Longrightarrow> distinct (map p_name ps)"
  by (auto simp: ScanParams_iff distinct_dedup)

text \<open>C34: the query that inference sends has no identifier parameter, and its other parameters are
  renamed apart from every setting of the server, to \<^verbatim>\<open>pggen_param_<i>\<close>, in order and with their
  types; exactly they are sent as arguments, each with a zero literal of its type.\<close>

theorem bind_params_complete:
  assumes "ScanParams sql = Inr ps" "known_types sql"
    "\<forall>p \<in> set ps. IsIdentifier (p_type p) \<longrightarrow> p_name p \<noteq> [] \<and> list_all isIdentByte (p_name p)"
    "\<forall>p \<in> set ps. \<not> IsIdentifier (p_type p) \<longrightarrow> has_zero (p_type p)"
  shows "\<exists>out. bind_params sql ps =
      Inr (out, map (\<lambda>(i, p). (param_alias i, zero_of (p_type p))) (filter bound (List.enumerate 0 ps))) \<and>
    ScanParams out =
      Inr (map (\<lambda>(i, p). \<lparr>p_name = param_alias i, p_type = p_type p\<rparr>) (filter bound (List.enumerate 0 ps)))"
proof -
  let ?ips = "filter bound (List.enumerate 0 ps)" and ?qs = "filter (\<lambda>p. \<not> IsIdentifier (p_type p)) ps"
  let ?names = "Map.empty(map (p_name \<circ> snd) ?ips [\<mapsto>] map (param_alias \<circ> fst) ?ips)"
  let ?f = "\<lambda>name. case ?names name of None \<Rightarrow> [] | Some n \<Rightarrow> n"
  obtain sql1 where sub: "SubstituteIdentifiers sql (\<lambda>name. name) = Inr sql1"
    "ScanParams sql1 = Inr ?qs" "known_types sql1"
    using substitute_identifiers_aux [OF assms(1,2), of "\<lambda>name. name"] assms(3) by auto
  have enum: "map snd ?ips = ?qs" by (rule filter_enumerate)
  have dist: "distinct (map (p_name \<circ> snd) ?ips)"
    using ScanParams_distinct [OF sub(2)] enum by (metis map_map)
  have f: "?f (p_name (snd ip)) = param_alias (fst ip)" if "ip \<in> set ?ips" for ip
    using map_upds_distinct [OF dist that, of Map.empty "param_alias \<circ> fst"] by simp
  have qs: "p_name ` set ?qs = (\<lambda>ip. p_name (snd ip)) ` set ?ips"
    using arg_cong [OF enum, of "\<lambda>xs. p_name ` set xs"] by (simp add: image_image)
  have inj: "inj_on ?f (p_name ` set ?qs)"
  proof (rule inj_onI)
    fix a b
    assume "a \<in> p_name ` set ?qs" "b \<in> p_name ` set ?qs" and eq: "?f a = ?f b"
    then obtain x y where xy: "x \<in> set ?ips" "y \<in> set ?ips" "a = p_name (snd x)" "b = p_name (snd y)"
      unfolding qs by blast
    then have "fst x = fst y" using eq f [OF xy(1)] f [OF xy(2)] by (simp add: param_alias_inj)
    then have "snd x = snd y" using xy(1,2) by (auto simp: in_set_enumerate_eq)
    with xy show "a = b" by simp
  qed
  have good: "\<forall>p \<in> set ?qs. good_name (?f (p_name p))"
  proof
    fix p
    assume "p \<in> set ?qs"
    then have "p_name p \<in> p_name ` set ?qs" by blast
    then obtain ip where "ip \<in> set ?ips" "p_name p = p_name (snd ip)" unfolding qs by blast
    then show "good_name (?f (p_name p))" using f good_alias by metis
  qed
  obtain out where ren: "RenameParams sql1 ?f = Inr out" "ScanParams out = Inr (map (p_name_update ?f) ?qs)"
    using rename_params_aux [OF sub(2,3) inj good] by blast
  have renamed: "map (p_name_update ?f) ?qs =
      map (\<lambda>(i, p). \<lparr>p_name = param_alias i, p_type = p_type p\<rparr>) ?ips"
    unfolding enum [symmetric] using f by (auto simp: p_name_alias)
  have args: "args_loop (List.enumerate 0 ps) Map.empty [] = Inr (?names,
      map (\<lambda>ip. (param_alias (fst ip), zero_of (p_type (snd ip)))) ?ips)"
  proof -
    have "\<forall>ip \<in> set (List.enumerate 0 ps). bound ip \<longrightarrow> has_zero (p_type (snd ip))"
      using assms(4) by (auto simp: in_set_enumerate_eq)
    from args_loop_eq [OF this, of Map.empty "[]"] show ?thesis by simp
  qed
  show ?thesis
    using ren renamed
    by (simp add: bind_params_def sub(1) args case_prod_unfold)
qed

theorem bind_params_complete_witness:
  "\<exists>out. bind_params ''SELECT {limit:UInt8} FROM {usage:Identifier}''
       [\<lparr>p_name = ''limit'', p_type = Scalar ''UInt8''\<rparr>, \<lparr>p_name = ''usage'', p_type = Scalar ''Identifier''\<rparr>] =
     Inr (out, [(''pggen_param_0'', ''0'')]) \<and>
   ScanParams out = Inr [\<lparr>p_name = ''pggen_param_0'', p_type = Scalar ''UInt8''\<rparr>]"
proof -
  let ?ps = "[\<lparr>p_name = ''limit'', p_type = Scalar ''UInt8''\<rparr>, \<lparr>p_name = ''usage'', p_type = Scalar ''Identifier''\<rparr>]"
  have args: "map (\<lambda>(i, p). (param_alias i, zero_of (p_type p))) (filter bound (List.enumerate 0 ?ps)) =
      [(''pggen_param_0'', ''0'')]"
    by code_simp
  have ps: "map (\<lambda>(i, p). \<lparr>p_name = param_alias i, p_type = p_type p\<rparr>) (filter bound (List.enumerate 0 ?ps)) =
      [\<lparr>p_name = ''pggen_param_0'', p_type = Scalar ''UInt8''\<rparr>]"
    by code_simp
  show ?thesis
    unfolding args [symmetric] ps [symmetric]
    by (rule bind_params_complete) code_simp+
qed

subsection \<open>The statements that are sent\<close>


definition answering :: "string \<Rightarrow> rows \<Rightarrow> ch_conn" where
  "answering known answer stmt args =
     (if stmt = known then Inr answer else Inl (ServerException 62 ''syntax error''))"

definition count_rows :: rows where
  "count_rows = \<lparr>r_Columns = [''name'', ''type'', ''comment''],
     r_cells = [Inr [''n'', ''Nullable(UInt64)'', []]], r_Err = None\<rparr>"

definition count_query :: SourceQuery where
  "count_query = \<lparr>sq_name = ''Count'', sq_doc = None, sq_start = 1, sq_sql = [],
     sq_prepared = ''SELECT {n:UInt8};'', sq_params = [], sq_kind = ResultKindOne,
     sq_pragmas = no_pragmas, sq_semi = 0, sq_group = [], sq_variant = no_variant\<rparr>"


subsection \<open>The typed query\<close>

lemma each_row_Inr:
  "each_row f rs err = Inr xs \<Longrightarrow>
     err = None \<and> (\<exists>cells. rs = map Inr cells \<and> list_all2 (\<lambda>c x. f c = Inr x) cells xs)"
proof (induction f rs err arbitrary: xs rule: each_row.induct)
  case (3 f cells rs err)
  then obtain x ys where x: "f cells = Inr x" "each_row f rs err = Inr ys" "xs = x # ys"
    by auto
  from 3(1) [OF x(1,2)] obtain more where "err = None" "rs = map Inr more" "list_all2 (\<lambda>c x. f c = Inr x) more ys"
    by blast
  with x show ?case by (intro conjI exI [of _ "cells # more"]) auto
qed (auto split: option.splits)

lemma output_column_nullable: "output_column n t cells = Inr c \<Longrightarrow> oc_nullable c = IsNullable (oc_type c)"
  by (auto simp: output_column_def split: sum.splits)

lemma output_columns_nullable:
  "list_all2 (\<lambda>cells c. output_column n t cells = Inr c) cs outs \<Longrightarrow>
     list_all (\<lambda>c. oc_nullable c = IsNullable (oc_type c)) outs"
  by (induction rule: list_all2_induct) (auto dest: output_column_nullable)

lemma ch_describe_nullable:
  "ch_describe conn sql ps = Inr outs \<Longrightarrow> list_all (\<lambda>c. oc_nullable c = IsNullable (oc_type c)) outs"
  by (auto simp: ch_describe_def res_bind_def split: sum.splits option.splits
      dest!: each_row_Inr output_columns_nullable)

text \<open>The condition on the target of an \<^verbatim>\<open>INSERT\<close>: the server knows the table and each column.\<close>

definition target_exists :: "ch_conn \<Rightarrow> string \<Rightarrow> bool" where
  "target_exists conn sql \<longleftrightarrow>
     (case SingleStatement sql of
        Inl e \<Rightarrow> False
      | Inr stmt \<Rightarrow>
          (case ScanInsertTarget stmt of
             None \<Rightarrow> True
           | Some target \<Rightarrow>
               (case describeTable conn (SQLName target) of
                  Inl e \<Rightarrow> False
                | Inr names \<Rightarrow> list_all (\<lambda>c. c \<in> names) (Columns target))))"

lemma checkInsertTarget_exists: "checkInsertTarget conn sql = Inr () \<longleftrightarrow> target_exists conn sql"
  by (auto simp: checkInsertTarget_def target_exists_def res_bind_def lift_sql_def find_None_iff list_all_iff
      split: sum.splits option.splits intro: nth_mem simp: find_Some_iff)



end
