(* ===== verification/Utf8.thy ===== *)
theory Utf8
  imports GoStrings
begin

text \<open>
  \<^verbatim>\<open>utf8.DecodeRune\<close> of the Go standard library, on byte strings: the rune at the start of a
  string and its width, or U+FFFD with width 1 where the bytes are not a valid encoding.
\<close>

definition RuneError :: int where
  "RuneError = 0xFFFD"

text \<open>How many bytes the encoding with the given first byte has, and the range that its second
  byte must be in; width 0 for a byte that starts no encoding of more than one byte.\<close>

definition lead_class :: "nat \<Rightarrow> nat \<times> nat \<times> nat" where
  "lead_class b =
     (if 0xC2 \<le> b \<and> b \<le> 0xDF then (2, 0x80, 0xBF)
      else if b = 0xE0 then (3, 0xA0, 0xBF)
      else if b = 0xED then (3, 0x80, 0x9F)
      else if 0xE1 \<le> b \<and> b \<le> 0xEF then (3, 0x80, 0xBF)
      else if b = 0xF0 then (4, 0x90, 0xBF)
      else if 0xF1 \<le> b \<and> b \<le> 0xF3 then (4, 0x80, 0xBF)
      else if b = 0xF4 then (4, 0x80, 0x8F)
      else (0, 0, 0))"

definition cont_byte :: "char \<Rightarrow> bool" where
  "cont_byte c \<longleftrightarrow> 0x80 \<le> byte_val c \<and> byte_val c \<le> 0xBF"

definition low6 :: "char \<Rightarrow> int" where
  "low6 c = int (byte_val c) mod 64"

definition DecodeRune :: "string \<Rightarrow> int \<times> nat" where
  "DecodeRune s =
     (case s of [] \<Rightarrow> (RuneError, 0)
      | c0 # r0 \<Rightarrow>
        if byte_val c0 < 0x80 then (int (byte_val c0), 1)
        else case lead_class (byte_val c0) of (sz, lo, hi) \<Rightarrow>
        if sz = 0 \<or> length s < sz then (RuneError, 1)
        else let c1 = s ! 1 in
        if byte_val c1 < lo \<or> hi < byte_val c1 then (RuneError, 1)
        else if sz = 2 then (int (byte_val c0) mod 32 * 64 + low6 c1, 2)
        else if \<not> cont_byte (s ! 2) then (RuneError, 1)
        else if sz = 3 then (int (byte_val c0) mod 16 * 4096 + low6 c1 * 64 + low6 (s ! 2), 3)
        else if \<not> cont_byte (s ! 3) then (RuneError, 1)
        else (int (byte_val c0) mod 8 * 262144 + low6 c1 * 4096 + low6 (s ! 2) * 64 + low6 (s ! 3), 4))"

lemma DecodeRune_nonneg: "DecodeRune s = (r, w) \<Longrightarrow> 0 \<le> r"
  by (auto simp: DecodeRune_def RuneError_def low6_def Let_def
      split: list.splits if_splits prod.splits)

lemma DecodeRune_width:
  "s \<noteq> [] \<Longrightarrow> DecodeRune s = (r, w) \<Longrightarrow> 1 \<le> w \<and> w \<le> length s"
  by (auto simp: DecodeRune_def lead_class_def Let_def Suc_le_eq
      split: list.splits if_splits prod.splits)

text \<open>A byte above 0x7F never starts an ASCII rune.\<close>

lemma rune_mods:
  fixes b :: int
  shows "0xC2 \<le> b \<Longrightarrow> b \<le> 0xDF \<Longrightarrow> 2 \<le> b mod 32"
    and "0xE1 \<le> b \<Longrightarrow> b \<le> 0xEF \<Longrightarrow> 1 \<le> b mod 16"
    and "0xA0 \<le> b \<Longrightarrow> b \<le> 0xBF \<Longrightarrow> 32 \<le> b mod 64"
    and "0x90 \<le> b \<Longrightarrow> b \<le> 0xBF \<Longrightarrow> 16 \<le> b mod 64"
    and "0xF1 \<le> b \<Longrightarrow> b \<le> 0xF4 \<Longrightarrow> 1 \<le> b mod 8"
  by presburger+

lemma DecodeRune_wide:
  assumes "DecodeRune (c # s) = (r, w)" "0x80 \<le> byte_val c"
  shows "0x80 \<le> r"
proof (rule ccontr)
  assume small: "\<not> 0x80 \<le> r"
  let ?b = "int (byte_val c)"
  define d where "d = (c # s) ! 1"
  let ?d = "int (byte_val d)"
  have nn: "0 \<le> low6 x" for x by (simp add: low6_def)
  have nb: "0 \<le> ?b mod 16" "0 \<le> ?b mod 8" by simp_all
  have cases: "r = RuneError
    \<or> (2 \<le> ?b mod 32 \<and> (\<exists>x. r = ?b mod 32 * 64 + low6 x))
    \<or> ((1 \<le> ?b mod 16 \<or> 32 \<le> ?d mod 64) \<and> (\<exists>x. r = ?b mod 16 * 4096 + low6 d * 64 + low6 x))
    \<or> ((1 \<le> ?b mod 8 \<or> 16 \<le> ?d mod 64) \<and>
       (\<exists>x y. r = ?b mod 8 * 262144 + low6 d * 4096 + low6 x * 64 + low6 y))"
    using assms rune_mods(1,2,5) [of ?b] rune_mods(3,4) [of ?d]
    by (auto simp: DecodeRune_def lead_class_def Let_def d_def split: if_splits)
  then show False
  proof (elim disjE conjE exE)
    assume "r = RuneError"
    with small show False by (simp add: RuneError_def)
  next
    fix x assume "2 \<le> ?b mod 32" "r = ?b mod 32 * 64 + low6 x"
    with small nn [of x] show False by simp
  next
    fix x assume "1 \<le> ?b mod 16" "r = ?b mod 16 * 4096 + low6 d * 64 + low6 x"
    with small nn [of x] nn [of d] show False by simp
  next
    fix x assume "32 \<le> ?d mod 64" "r = ?b mod 16 * 4096 + low6 d * 64 + low6 x"
    with small nn [of x] nb show False by (simp add: low6_def)
  next
    fix x y assume "1 \<le> ?b mod 8" "r = ?b mod 8 * 262144 + low6 d * 4096 + low6 x * 64 + low6 y"
    with small nn [of x] nn [of y] nn [of d] show False by simp
  next
    fix x y assume "16 \<le> ?d mod 64" "r = ?b mod 8 * 262144 + low6 d * 4096 + low6 x * 64 + low6 y"
    with small nn [of x] nn [of y] nb show False by (simp add: low6_def)
  qed
qed

end
