(* ===== verification/Scanner.thy ===== *)
theory Scanner
  imports Utf8
begin

unbundle bit_operations_syntax

text \<open>
  The tokens of a query file, \<^verbatim>\<open>internal/token/token.go\<close>, and the scanner that finds them,
  \<^verbatim>\<open>internal/scanner/scanner.go\<close>. The scanner state is the struct of the source; the line table
  of \<^verbatim>\<open>go/token.File\<close> and the list that the error handler of the parser fills are part of it. A
  rune is an \<^typ>\<open>int\<close>, with \<open>- 1\<close> for the end of the file. Positions are those of a file that is
  the only one of its \<^verbatim>\<open>FileSet\<close>, so \<^verbatim>\<open>Pos\<close> is the offset plus one and 0 is \<^verbatim>\<open>NoPos\<close>. The Unicode
  letter table is the parameter \<open>ul\<close>.
\<close>

subsection \<open>Tokens\<close>

datatype token =
    Illegal | EOF | LineComment | BlockComment | String | QuotedIdent | QueryFragment | Semicolon

definition token_String :: "token \<Rightarrow> string" where
  "token_String t =
     (case t of Illegal \<Rightarrow> ''Illegal'' | EOF \<Rightarrow> ''EOF'' | LineComment \<Rightarrow> ''LineComment''
      | BlockComment \<Rightarrow> ''BlockComment'' | String \<Rightarrow> ''String'' | QuotedIdent \<Rightarrow> ''QuotedIdent''
      | QueryFragment \<Rightarrow> ''QueryFragment'' | Semicolon \<Rightarrow> ''Semicolon'')"

subsection \<open>State\<close>

datatype scan_msg =
    IllegalNUL
  | IllegalUTF8
  | IllegalBOM
  | UnterminatedBlockComment
  | UnterminatedSingleQuote string
  | UnterminatedDollarQuote string
  | InvalidDollarTag string
  | NoClosingDollar string
  | UnterminatedDoubleQuote string
  | UnterminatedFragment string

text \<open>An error has the line it is reported on, its offset, and a message of the scanner or of
  the parser.\<close>

datatype 'm file_error = FileError (err_line: nat) (err_offset: nat) (err_msg: 'm)

record 'm scanner =
  sc_src :: string
  sc_ch :: int
  sc_offset :: nat
  sc_rdOffset :: nat
  sc_prev :: token
  sc_prevCh :: int
  sc_lines :: "nat list"
  sc_errs :: "'m file_error list"
  sc_wrap :: "scan_msg \<Rightarrow> 'm"

text \<open>\<^verbatim>\<open>File.AddLine\<close> ignores an offset that does not extend the table or is not inside the file;
  \<^verbatim>\<open>File.Line\<close> counts the line starts up to an offset.\<close>

definition AddLine :: "nat \<Rightarrow> 'm scanner \<Rightarrow> 'm scanner" where
  "AddLine off s =
     (if (sc_lines s = [] \<or> last (sc_lines s) < off) \<and> off < length (sc_src s)
      then s\<lparr>sc_lines := sc_lines s @ [off]\<rparr> else s)"

definition line_at :: "nat list \<Rightarrow> nat \<Rightarrow> nat" where
  "line_at lns off = length (filter (\<lambda>l. l \<le> off) lns)"

definition line_of_pos :: "nat list \<Rightarrow> nat \<Rightarrow> nat" where
  "line_of_pos lns pos = (if pos = 0 then 0 else line_at lns (pos - 1))"

definition sc_error :: "nat \<Rightarrow> scan_msg \<Rightarrow> 'm scanner \<Rightarrow> 'm scanner" where
  "sc_error offs m s =
     s\<lparr>sc_errs := sc_errs s @ [FileError (line_at (sc_lines s) offs) offs (sc_wrap s m)]\<rparr>"

definition rune :: "char \<Rightarrow> int" where
  "rune c = int (byte_val c)"

definition eof :: int where
  "eof = - 1"

definition bom :: int where
  "bom = 0xFEFF"

subsection \<open>Moving on\<close>

text \<open>The rune at the reading offset, its width and the error it is reported with, if any.\<close>

definition read_rune :: "'m scanner \<Rightarrow> int \<times> nat \<times> scan_msg option" where
  "read_rune s =
     (let b = sc_src s ! sc_rdOffset s in
      if rune b = 0 then (0, 1, Some IllegalNUL)
      else if rune b \<ge> 0x80 then
        (case DecodeRune (drop (sc_rdOffset s) (sc_src s)) of (r, w) \<Rightarrow>
           if r = RuneError \<and> w = 1 then (r, w, Some IllegalUTF8)
           else if r = bom \<and> sc_rdOffset s > 0 then (r, w, Some IllegalBOM)
           else (r, w, None))
      else (rune b, 1, None))"

definition sc_next :: "'m scanner \<Rightarrow> 'm scanner" where
  "sc_next s =
     (if sc_rdOffset s < length (sc_src s) then
        (let s1 = s\<lparr>sc_offset := sc_rdOffset s\<rparr>;
             s2 = (if sc_ch s = rune CHR 0x0A then AddLine (sc_offset s1) s1 else s1) in
         case read_rune s2 of (r, w, e) \<Rightarrow>
           let s3 = (case e of None \<Rightarrow> s2 | Some m \<Rightarrow> sc_error (sc_offset s2) m s2) in
           s3\<lparr>sc_rdOffset := sc_rdOffset s3 + w, sc_prevCh := sc_ch s3, sc_ch := r\<rparr>)
      else
        (let s1 = s\<lparr>sc_offset := length (sc_src s)\<rparr>;
             s2 = (if sc_ch s = rune CHR 0x0A then AddLine (sc_offset s1) s1 else s1) in
         s2\<lparr>sc_prevCh := sc_ch s2, sc_ch := eof\<rparr>))"

definition scanner_Init :: "(scan_msg \<Rightarrow> 'm) \<Rightarrow> string \<Rightarrow> 'm scanner" where
  "scanner_Init wrap src =
     (let s = sc_next \<lparr>sc_src = src, sc_ch = rune CHR '' '', sc_offset = 0, sc_rdOffset = 0,
                       sc_prev = Illegal, sc_prevCh = 0, sc_lines = [0], sc_errs = [],
                       sc_wrap = wrap\<rparr>
      in if sc_ch s = bom then sc_next s else s)"

definition sc_peek :: "'m scanner \<Rightarrow> char" where
  "sc_peek s =
     (if sc_rdOffset s < length (sc_src s) then sc_src s ! sc_rdOffset s else CHR 0x00)"

text \<open>What is left to read; it shrinks with every \<^verbatim>\<open>next\<close> until the end of the file is reached.\<close>

definition todo :: "'m scanner \<Rightarrow> nat" where
  "todo s = (if sc_ch s = eof \<and> length (sc_src s) \<le> sc_rdOffset s then 0 else Suc (length (sc_src s) - sc_rdOffset s))"

lemma AddLine_simps [simp]:
  "sc_src (AddLine k s) = sc_src s" "sc_ch (AddLine k s) = sc_ch s"
  "sc_offset (AddLine k s) = sc_offset s" "sc_rdOffset (AddLine k s) = sc_rdOffset s"
  "sc_prev (AddLine k s) = sc_prev s" "sc_prevCh (AddLine k s) = sc_prevCh s"
  "sc_errs (AddLine k s) = sc_errs s" "sc_wrap (AddLine k s) = sc_wrap s"
  by (simp_all add: AddLine_def)

lemma sc_error_simps [simp]:
  "sc_src (sc_error k m s) = sc_src s" "sc_ch (sc_error k m s) = sc_ch s"
  "sc_offset (sc_error k m s) = sc_offset s" "sc_rdOffset (sc_error k m s) = sc_rdOffset s"
  "sc_prev (sc_error k m s) = sc_prev s" "sc_prevCh (sc_error k m s) = sc_prevCh s"
  "sc_lines (sc_error k m s) = sc_lines s" "sc_wrap (sc_error k m s) = sc_wrap s"
  "todo (sc_error k m s) = todo s"
  by (simp_all add: sc_error_def todo_def)

lemma read_rune_bounds:
  assumes "sc_rdOffset s < length (sc_src s)" "read_rune s = (r, w, e)"
  shows "0 \<le> r" "1 \<le> w" "sc_rdOffset s + w \<le> length (sc_src s)"
proof -
  let ?d = "drop (sc_rdOffset s) (sc_src s)"
  obtain r' w' where d: "DecodeRune ?d = (r', w')" by (cases "DecodeRune ?d")
  have "0 \<le> r'" using DecodeRune_nonneg [OF d] .
  moreover have "1 \<le> w'" "w' \<le> length ?d" using DecodeRune_width [OF _ d] assms(1) by auto
  ultimately show "0 \<le> r" "1 \<le> w" "sc_rdOffset s + w \<le> length (sc_src s)"
    using assms d by (auto simp: read_rune_def Let_def rune_def split: if_splits)
qed

lemma sc_next_src [simp]: "sc_src (sc_next s) = sc_src s"
  by (simp add: sc_next_def Let_def split: prod.split option.split)

lemma sc_next_ch: "sc_ch (sc_next s) = eof \<or> 0 \<le> sc_ch (sc_next s)"
proof (cases "sc_rdOffset s < length (sc_src s)")
  case True
  let ?s2 = "if sc_ch s = rune CHR 0x0A then AddLine (sc_rdOffset s) (s\<lparr>sc_offset := sc_rdOffset s\<rparr>)
      else s\<lparr>sc_offset := sc_rdOffset s\<rparr>"
  obtain r w e where r: "read_rune ?s2 = (r, w, e)" by (cases "read_rune ?s2")
  have "0 \<le> r" using read_rune_bounds(1) [OF _ r] True by (simp split: if_splits)
  with True r show ?thesis by (auto simp: sc_next_def Let_def split: option.split)
qed (simp add: sc_next_def Let_def)

lemma todo_next: "todo s \<noteq> 0 \<Longrightarrow> todo (sc_next s) < todo s"
proof (cases "sc_rdOffset s < length (sc_src s)")
  case True
  let ?s2 = "if sc_ch s = rune CHR 0x0A then AddLine (sc_rdOffset s) (s\<lparr>sc_offset := sc_rdOffset s\<rparr>)
      else s\<lparr>sc_offset := sc_rdOffset s\<rparr>"
  obtain r w e where r: "read_rune ?s2 = (r, w, e)" by (cases "read_rune ?s2")
  have "1 \<le> w" using read_rune_bounds(2) [OF _ r] True by (simp split: if_splits)
  with True r show ?thesis
    by (auto simp: sc_next_def Let_def todo_def split: option.split)
qed (auto simp: sc_next_def Let_def todo_def split: if_splits)

lemma todo_next_le: "todo (sc_next s) \<le> todo s"
proof (cases "todo s = 0")
  case True
  then show ?thesis by (auto simp: sc_next_def Let_def todo_def split: if_splits)
qed (use todo_next [of s] in simp)

lemma todo_not_eof: "sc_ch s \<noteq> eof \<Longrightarrow> todo s \<noteq> 0"
  by (simp add: todo_def)

lemma todo_next_ch: "sc_ch s \<noteq> eof \<Longrightarrow> todo (sc_next s) < todo s"
  by (intro todo_next todo_not_eof)

text \<open>\<^verbatim>\<open>for P(s.ch) { s.next() }\<close>, where \<open>P\<close> does not hold at the end of the file.\<close>

function next_while :: "(int \<Rightarrow> bool) \<Rightarrow> 'm scanner \<Rightarrow> 'm scanner" where
  "next_while P s = (if sc_ch s \<noteq> eof \<and> P (sc_ch s) then next_while P (sc_next s) else s)"
  by pat_completeness auto
termination
  by (relation "measure (\<lambda>(P, s). todo s)") (auto intro: todo_next_ch)

declare next_while.simps [simp del]

definition next_times :: "nat \<Rightarrow> 'm scanner \<Rightarrow> 'm scanner" where
  "next_times n s = (sc_next ^^ n) s"

subsection \<open>Character classes\<close>

definition sc_lower :: "int \<Rightarrow> int" where
  "sc_lower ch = 0x20 OR ch"

definition isDecimal :: "int \<Rightarrow> bool" where
  "isDecimal ch \<longleftrightarrow> rune CHR ''0'' \<le> ch \<and> ch \<le> rune CHR ''9''"

definition isSpace :: "int \<Rightarrow> bool" where
  "isSpace ch \<longleftrightarrow> ch = rune CHR '' '' \<or> ch = rune CHR 0x09 \<or> ch = rune CHR 0x0A \<or> ch = rune CHR 0x0D"

definition isLetter :: "(int \<Rightarrow> bool) \<Rightarrow> int \<Rightarrow> bool" where
  "isLetter ul ch \<longleftrightarrow>
     rune CHR ''a'' \<le> sc_lower ch \<and> sc_lower ch \<le> rune CHR ''z'' \<or> ch = rune CHR ''_'' \<or>
     ch \<ge> 0x80 \<and> ul ch"

subsection \<open>Scanning one token\<close>

definition skipWhitespace :: "'m scanner \<Rightarrow> 'm scanner" where
  "skipWhitespace s = next_while isSpace s"

text \<open>\<^verbatim>\<open>string(s.src[offs:s.offset])\<close>\<close>

definition text_from :: "nat \<Rightarrow> 'm scanner \<Rightarrow> string" where
  "text_from offs s = take (sc_offset s - offs) (drop offs (sc_src s))"

definition scanLineComment :: "'m scanner \<Rightarrow> string \<times> 'm scanner" where
  "scanLineComment s =
     (let s' = next_while (\<lambda>ch. ch \<noteq> rune CHR 0x0A \<and> ch \<ge> 0) s in (text_from (sc_offset s) s', s'))"

text \<open>The loop of \<^verbatim>\<open>scanBlockComment\<close>; the first component is \<^term>\<open>False\<close> when the end of the file
  is met.\<close>

function block_loop :: "nat \<Rightarrow> 'm scanner \<Rightarrow> bool \<times> 'm scanner" where
  "block_loop depth s =
     (if depth = 0 then (True, s)
      else if sc_ch s = eof then (False, s)
      else if sc_ch s = rune CHR ''*'' \<and> sc_peek s = CHR ''/'' then
        block_loop (depth - 1) (sc_next (sc_next s))
      else if sc_ch s = rune CHR ''/'' \<and> sc_peek s = CHR ''*'' then
        block_loop (depth + 1) (sc_next (sc_next s))
      else block_loop depth (sc_next s))"
  by pat_completeness auto
termination
  by (relation "measure (\<lambda>(depth, s). todo s)")
    (auto intro: todo_next_ch le_less_trans [OF todo_next_le todo_next_ch])

declare block_loop.simps [simp del]

definition scanBlockComment :: "'m scanner \<Rightarrow> token \<times> string \<times> 'm scanner" where
  "scanBlockComment s =
     (case block_loop 1 (sc_next (sc_next s)) of (ok, s') \<Rightarrow>
        if ok then (BlockComment, text_from (sc_offset s) s', s')
        else (Illegal, [], sc_error (sc_offset s) UnterminatedBlockComment s'))"

text \<open>The loop of both quoted scanners: a doubled quote is part of the literal, and the loop
  also stops at a NUL byte.\<close>

function quote_loop :: "char \<Rightarrow> 'm scanner \<Rightarrow> bool \<times> 'm scanner" where
  "quote_loop q s =
     (if sc_ch s > 0 then
        if sc_ch s = rune q then
          (if sc_peek s = q then quote_loop q (sc_next (sc_next s)) else (True, sc_next s))
        else quote_loop q (sc_next s)
      else (False, s))"
  by pat_completeness auto
termination
  by (relation "measure (\<lambda>(q, s). todo s)")
    (auto simp: eof_def intro!: todo_next_ch le_less_trans [OF todo_next_le todo_next_ch])

declare quote_loop.simps [simp del]

definition scanSingleQuoteString :: "'m scanner \<Rightarrow> token \<times> string \<times> 'm scanner" where
  "scanSingleQuoteString s =
     (case quote_loop CHR 0x27 (sc_next s) of (ok, s') \<Rightarrow>
        if ok then (String, text_from (sc_offset s) s', s')
        else (Illegal, [], sc_error (sc_offset s) (UnterminatedSingleQuote (text_from (sc_offset s) s')) s'))"

definition scanDoubleQuoteString :: "'m scanner \<Rightarrow> token \<times> string \<times> 'm scanner" where
  "scanDoubleQuoteString s =
     (case quote_loop CHR 0x22 (sc_next s) of (ok, s') \<Rightarrow>
        if ok then (QuotedIdent, text_from (sc_offset s) s', s')
        else (Illegal, [], sc_error (sc_offset s) (UnterminatedDoubleQuote (text_from (sc_offset s) s')) s'))"

text \<open>The opening tag of a dollar-quoted string: everything up to the next dollar sign.\<close>

function tag_loop :: "(int \<Rightarrow> bool) \<Rightarrow> nat \<Rightarrow> 'm scanner \<Rightarrow> scan_msg option \<times> 'm scanner" where
  "tag_loop ul offs s =
     (if sc_ch s \<noteq> rune CHR ''$'' then
        if sc_ch s = eof then (Some (UnterminatedDollarQuote (text_from offs s)), s)
        else if \<not> isLetter ul (sc_ch s) \<and> \<not> isDecimal (sc_ch s)
        then (Some (InvalidDollarTag (text_from offs s)), s)
        else tag_loop ul offs (sc_next s)
      else (None, s))"
  by pat_completeness auto
termination
  by (relation "measure (\<lambda>(ul, offs, s). todo s)") (auto intro: todo_next_ch)

declare tag_loop.simps [simp del]

definition scanDollarQuoteString :: "(int \<Rightarrow> bool) \<Rightarrow> 'm scanner \<Rightarrow> token \<times> string \<times> 'm scanner" where
  "scanDollarQuoteString ul s =
     (let offs = sc_offset s in
      case tag_loop ul offs (sc_next s) of
        (Some m, s1) \<Rightarrow> (Illegal, [], sc_error offs m s1)
      | (None, s1) \<Rightarrow>
          (let s2 = sc_next s1; tag = text_from offs s2 in
           case strings_Index (drop (sc_offset s2) (sc_src s2)) tag of
             None \<Rightarrow> (Illegal, [], sc_error offs (NoClosingDollar (text_from offs s2)) s2)
           | Some idx \<Rightarrow>
               (let s3 = next_times (length tag) (next_times idx s2)
                in (String, text_from offs s3, s3))))"

definition ident_rune :: "(int \<Rightarrow> bool) \<Rightarrow> int \<Rightarrow> bool" where
  "ident_rune ul ch \<longleftrightarrow> isLetter ul ch \<or> isDecimal ch"

lemma todo_next_while: "todo (next_while P s) \<le> todo s"
proof (induction P s rule: next_while.induct)
  case (1 P s)
  then show ?case
    using todo_next_le [of s] by (subst next_while.simps) auto
qed

lemma todo_next_while_less:
  assumes "sc_ch s \<noteq> eof" "P (sc_ch s)"
  shows "todo (next_while P s) < todo s"
proof -
  have "todo (next_while P s) = todo (next_while P (sc_next s))"
    using assms by (subst next_while.simps) simp
  also have "\<dots> < todo s" using todo_next_while todo_next_ch [OF assms(1)] by (rule le_less_trans)
  finally show ?thesis .
qed

text \<open>The loop of \<^verbatim>\<open>scanQueryFragment\<close>. Its case for the end of the file is never reached, because
  the loop runs while the rune is positive.\<close>

function fragment_loop :: "(int \<Rightarrow> bool) \<Rightarrow> 'm scanner \<Rightarrow> 'm scanner" where
  "fragment_loop ul s =
     (if sc_ch s > 0 then
        if sc_ch s = rune CHR '';'' then s
        else if sc_ch s = rune CHR ''-'' \<and> sc_peek s = CHR ''-'' then s
        else if sc_ch s = rune CHR ''/'' \<and> sc_peek s = CHR ''*'' then s
        else if sc_ch s = rune CHR 0x27 \<or> sc_ch s = rune CHR 0x22 then s
        else if sc_ch s = rune CHR ''$'' then
          (if ident_rune ul (sc_prevCh s)
           then fragment_loop ul (next_while (\<lambda>ch. ident_rune ul ch \<or> ch = rune CHR ''$'') s)
           else s)
        else fragment_loop ul (sc_next s)
      else s)"
  by pat_completeness auto
termination
  by (relation "measure (\<lambda>(ul, s). todo s)")
    (auto simp: eof_def intro!: todo_next_ch todo_next_while_less)

declare fragment_loop.simps [simp del]

definition scanQueryFragment :: "(int \<Rightarrow> bool) \<Rightarrow> 'm scanner \<Rightarrow> token \<times> string \<times> 'm scanner" where
  "scanQueryFragment ul s =
     (let s' = fragment_loop ul s in (QueryFragment, text_from (sc_offset s) s', s'))"

definition scan_token :: "(int \<Rightarrow> bool) \<Rightarrow> 'm scanner \<Rightarrow> token \<times> string \<times> 'm scanner" where
  "scan_token ul s =
     (if sc_ch s = eof then (EOF, [], s)
      else if sc_ch s = rune CHR ''-'' then
        (if sc_peek s = CHR ''-'' then (case scanLineComment s of (lit, s') \<Rightarrow> (LineComment, lit, s'))
         else scanQueryFragment ul s)
      else if sc_ch s = rune CHR ''/'' then
        (if sc_peek s = CHR ''*'' then scanBlockComment s else scanQueryFragment ul s)
      else if sc_ch s = rune CHR 0x27 then scanSingleQuoteString s
      else if sc_ch s = rune CHR ''$'' then scanDollarQuoteString ul s
      else if sc_ch s = rune CHR 0x22 then scanDoubleQuoteString s
      else if sc_ch s = rune CHR '';'' then (Semicolon, [], sc_next s)
      else scanQueryFragment ul s)"

definition Scan :: "(int \<Rightarrow> bool) \<Rightarrow> 'm scanner \<Rightarrow> nat \<times> token \<times> string \<times> 'm scanner" where
  "Scan ul s =
     (let s1 = skipWhitespace s; pos = sc_offset s1 + 1 in
      case scan_token ul s1 of (tok, lit, s2) \<Rightarrow> (pos, tok, lit, s2\<lparr>sc_prev := tok\<rparr>))"

end
