(* ===== verification/ScannerFacts.thy ===== *)
theory ScannerFacts
  imports Scanner
begin

text \<open>
  Facts about the scanner: every step leaves the source alone, moves forward and stays inside
  it; the literal of a token is the part of the source that the token covers; a token is
  always found, and scanning comes closer to the end of the file unless a NUL byte is met.
\<close>

subsection \<open>Reachable scanner states\<close>

text \<open>The current rune lies between the two offsets, and its rune is the end of the file exactly
  at the end of the source.\<close>

definition sc_ok :: "'m scanner \<Rightarrow> bool" where
  "sc_ok s \<longleftrightarrow> sc_offset s \<le> sc_rdOffset s \<and> sc_rdOffset s \<le> length (sc_src s) \<and>
     (sc_ch s = eof \<or> 0 \<le> sc_ch s) \<and>
     (sc_ch s = eof \<longrightarrow> sc_offset s = length (sc_src s)) \<and>
     (sc_ch s \<noteq> eof \<longrightarrow> sc_offset s < sc_rdOffset s)"

text \<open>How a state relates to a later one.\<close>

definition later :: "'m scanner \<Rightarrow> 'm scanner \<Rightarrow> bool" where
  "later s s' \<longleftrightarrow> sc_src s' = sc_src s \<and> sc_wrap s' = sc_wrap s \<and> sc_offset s \<le> sc_offset s' \<and>
     todo s' \<le> todo s \<and> (\<exists>es. sc_errs s' = sc_errs s @ es)"

lemma later_refl [intro, simp]: "later s s"
  by (simp add: later_def)

lemma later_trans: "later s t \<Longrightarrow> later t u \<Longrightarrow> later s u"
  by (auto simp: later_def)

lemma sc_next_cases:
  fixes s :: "'m scanner"
  obtains (rune) r w e where "sc_rdOffset s < length (sc_src s)" "0 \<le> r" "1 \<le> w"
    "sc_rdOffset s + w \<le> length (sc_src s)"
    "sc_offset (sc_next s) = sc_rdOffset s" "sc_rdOffset (sc_next s) = sc_rdOffset s + w"
    "sc_ch (sc_next s) = r" "sc_prevCh (sc_next s) = sc_ch s" "sc_wrap (sc_next s) = sc_wrap s"
    "sc_errs (sc_next s) = sc_errs s @ e"
  | (stop) "length (sc_src s) \<le> sc_rdOffset s" "sc_offset (sc_next s) = length (sc_src s)"
    "sc_rdOffset (sc_next s) = sc_rdOffset s" "sc_ch (sc_next s) = eof" "sc_errs (sc_next s) = sc_errs s"
    "sc_prevCh (sc_next s) = sc_ch s" "sc_wrap (sc_next s) = sc_wrap s"
proof (cases "sc_rdOffset s < length (sc_src s)")
  case True
  let ?s2 = "if sc_ch s = rune CHR 0x0A then AddLine (sc_rdOffset s) (s\<lparr>sc_offset := sc_rdOffset s\<rparr>)
      else s\<lparr>sc_offset := sc_rdOffset s\<rparr>"
  obtain r w e where r: "read_rune ?s2 = (r, w, e)" by (cases "read_rune ?s2")
  have b: "0 \<le> r" "1 \<le> w" "sc_rdOffset s + w \<le> length (sc_src s)"
  proof -
    have eq: "sc_rdOffset ?s2 = sc_rdOffset s" "sc_src ?s2 = sc_src s" by simp_all
    from read_rune_bounds [OF _ r, unfolded eq, OF True]
    show "0 \<le> r" "1 \<le> w" "sc_rdOffset s + w \<le> length (sc_src s)" .
  qed
  let ?e = "case e of None \<Rightarrow> [] | Some m \<Rightarrow>
      [FileError (line_at (sc_lines ?s2) (sc_rdOffset s)) (sc_rdOffset s) (sc_wrap s m)]"
  have "sc_errs (sc_next s) = sc_errs s @ ?e"
    using True r by (auto simp: sc_next_def Let_def sc_error_def split: option.split)
  with True b r show ?thesis
    by (intro rune [of r w ?e]) (auto simp: sc_next_def Let_def split: option.split)
next
  case False
  then show ?thesis by (intro stop) (auto simp: sc_next_def Let_def)
qed

lemma sc_next_ok: "sc_ok s \<Longrightarrow> sc_ok (sc_next s)"
  by (cases s rule: sc_next_cases) (auto simp: sc_ok_def eof_def)

lemma sc_next_later: "sc_ok s \<Longrightarrow> later s (sc_next s)"
  using todo_next_le [of s]
  by (cases s rule: sc_next_cases) (auto simp: sc_ok_def later_def)

lemma next_while_facts:
  "sc_ok s \<Longrightarrow> sc_ok (next_while P s) \<and> later s (next_while P s)"
proof (induction P s rule: next_while.induct)
  case (1 P s)
  then show ?case
    using sc_next_ok [of s] sc_next_later [of s]
    by (subst (1 2) next_while.simps) (auto intro: later_trans)
qed

lemma next_while_stop: "sc_ch (next_while P s) = eof \<or> \<not> P (sc_ch (next_while P s))"
proof (induction P s rule: next_while.induct)
  case (1 P s)
  then show ?case by (subst (1 2) next_while.simps) auto
qed

lemma next_times_facts:
  "sc_ok s \<Longrightarrow> sc_ok (next_times n s) \<and> later s (next_times n s)"
proof (induction n)
  case (Suc n)
  then have "sc_ok (next_times n s)" "later s (next_times n s)" by simp_all
  then show ?case
    using sc_next_ok [of "next_times n s"] sc_next_later [of "next_times n s"]
    by (auto simp: next_times_def intro: later_trans)
qed (simp add: next_times_def)

lemma block_loop_facts:
  "block_loop d s = (b, s') \<Longrightarrow> sc_ok s \<Longrightarrow> sc_ok s' \<and> later s s'"
proof (induction d s rule: block_loop.induct)
  case (1 d s)
  have "sc_ok (sc_next (sc_next s))" "later s (sc_next (sc_next s))"
    using 1(5) sc_next_ok sc_next_later later_trans by blast+
  then show ?case
    using 1 sc_next_ok [OF 1(5)] sc_next_later [OF 1(5)]
    by (subst (asm) (4) block_loop.simps) (auto split: if_splits intro: later_trans)
qed

lemma quote_loop_facts:
  "quote_loop q s = (b, s') \<Longrightarrow> sc_ok s \<Longrightarrow> sc_ok s' \<and> later s s'"
proof (induction q s rule: quote_loop.induct)
  case (1 q s)
  have "sc_ok (sc_next (sc_next s))" "later s (sc_next (sc_next s))"
    using 1(4) sc_next_ok sc_next_later later_trans by blast+
  then show ?case
    using 1 sc_next_ok [OF 1(4)] sc_next_later [OF 1(4)]
    by (subst (asm) (3) quote_loop.simps) (auto split: if_splits intro: later_trans)
qed

lemma tag_loop_facts:
  "tag_loop ul offs s = (m, s') \<Longrightarrow> sc_ok s \<Longrightarrow> sc_ok s' \<and> later s s'"
proof (induction ul offs s rule: tag_loop.induct)
  case (1 ul offs s)
  then show ?case
    using sc_next_ok [OF 1(3)] sc_next_later [OF 1(3)]
    by (subst (asm) (2) tag_loop.simps) (auto split: if_splits intro: later_trans)
qed

lemma fragment_loop_facts: "sc_ok s \<Longrightarrow> sc_ok (fragment_loop ul s) \<and> later s (fragment_loop ul s)"
proof (induction ul s rule: fragment_loop.induct)
  case (1 ul s)
  then show ?case
    using sc_next_ok [OF 1(3)] sc_next_later [OF 1(3)]
      next_while_facts [OF 1(3), of "\<lambda>ch. ident_rune ul ch \<or> ch = rune CHR ''$''"]
    by (subst (1 2) fragment_loop.simps) (auto intro: later_trans)
qed

lemma sc_error_ok: "sc_ok s \<Longrightarrow> sc_ok (sc_error k m s)"
  by (simp add: sc_ok_def)

lemma sc_error_later: "later s (sc_error k m s)"
  by (simp add: later_def) (simp add: sc_error_def)

lemma rune_pos [simp]: "rune c = rune d \<longleftrightarrow> c = d" "0 \<le> rune c" "rune c \<noteq> eof" "eof \<noteq> rune c"
  by (auto simp: rune_def eof_def)

lemma todo_two: "sc_ok s \<Longrightarrow> sc_ch s \<noteq> eof \<Longrightarrow> todo (sc_next (sc_next s)) < todo s"
  using todo_next_le [of "sc_next s"] todo_next_ch [of s] by simp

subsection \<open>One token\<close>

text \<open>What a scanned token is: nothing before the current offset is touched, a literal is the text
  that was passed over, and the scanner comes closer to the end of the file.\<close>

definition token_ok :: "'m scanner \<Rightarrow> token \<Rightarrow> string \<Rightarrow> 'm scanner \<Rightarrow> bool" where
  "token_ok s tok lit s' \<longleftrightarrow> sc_ok s' \<and> later s s' \<and> todo s' < todo s \<and>
     (tok \<noteq> Illegal \<and> tok \<noteq> Semicolon \<longrightarrow> lit = text_from (sc_offset s) s')"

lemma scanLineComment_ok:
  assumes "sc_ok s" "sc_ch s = rune CHR ''-''" "scanLineComment s = (lit, s')"
  shows "token_ok s LineComment lit s'"
  using assms next_while_facts [OF assms(1)] todo_next_while_less [of s "\<lambda>ch. ch \<noteq> rune CHR 0x0A \<and> ch \<ge> 0"]
  by (auto simp: scanLineComment_def Let_def token_ok_def)

lemma after_next:
  assumes "sc_ok s" "sc_ch s \<noteq> eof" "sc_ok s'" "later (sc_next s) s'"
  shows "later s s'" "todo s' < todo s"
proof -
  show "later s s'" using sc_next_later [OF assms(1)] assms(4) by (rule later_trans)
  have "todo s' \<le> todo (sc_next s)" using assms(4) by (simp add: later_def)
  with todo_next_ch [OF assms(2)] show "todo s' < todo s" by simp
qed

lemma error_token_ok:
  assumes "sc_ok s'" "later s s'" "todo s' < todo s"
  shows "token_ok s Illegal lit (sc_error k m s')"
  using assms sc_error_later [of s' k m]
  by (auto simp: token_ok_def sc_error_ok intro: later_trans)

lemma good_token_ok:
  "sc_ok s' \<Longrightarrow> later s s' \<Longrightarrow> todo s' < todo s \<Longrightarrow> token_ok s tok (text_from (sc_offset s) s') s'"
  by (simp add: token_ok_def)

lemma scanBlockComment_ok:
  assumes "sc_ok s" "sc_ch s \<noteq> eof" "scanBlockComment s = (tok, lit, s')"
  shows "token_ok s tok lit s'"
proof -
  obtain ok s1 where b: "block_loop 1 (sc_next (sc_next s)) = (ok, s1)" by (cases "block_loop 1 (sc_next (sc_next s))")
  have ok1: "sc_ok (sc_next s)" using assms(1) by (rule sc_next_ok)
  have "sc_ok s1" "later (sc_next (sc_next s)) s1"
    using block_loop_facts [OF b] sc_next_ok [OF ok1] by simp_all
  moreover have "later (sc_next s) s1"
    using sc_next_later [OF ok1] calculation(2) by (rule later_trans)
  ultimately show ?thesis
    using after_next [OF assms(1,2)] assms(3) b
    by (auto simp: scanBlockComment_def intro: good_token_ok error_token_ok split: if_splits)
qed

lemma quoted_ok:
  assumes "sc_ok s" "sc_ch s \<noteq> eof" "quote_loop q (sc_next s) = (ok, s1)"
  shows "sc_ok s1" "later s s1" "todo s1 < todo s"
  using quote_loop_facts [OF assms(3) sc_next_ok [OF assms(1)]] after_next [OF assms(1,2)] by auto

lemma scanSingleQuoteString_ok:
  assumes "sc_ok s" "sc_ch s \<noteq> eof" "scanSingleQuoteString s = (tok, lit, s')"
  shows "token_ok s tok lit s'"
proof -
  obtain ok s1 where b: "quote_loop CHR 0x27 (sc_next s) = (ok, s1)" by (cases "quote_loop CHR 0x27 (sc_next s)")
  show ?thesis
    using quoted_ok [OF assms(1,2) b] assms(3) b
    by (auto simp: scanSingleQuoteString_def intro: good_token_ok error_token_ok split: if_splits)
qed

lemma scanDoubleQuoteString_ok:
  assumes "sc_ok s" "sc_ch s \<noteq> eof" "scanDoubleQuoteString s = (tok, lit, s')"
  shows "token_ok s tok lit s'"
proof -
  obtain ok s1 where b: "quote_loop CHR 0x22 (sc_next s) = (ok, s1)" by (cases "quote_loop CHR 0x22 (sc_next s)")
  show ?thesis
    using quoted_ok [OF assms(1,2) b] assms(3) b
    by (auto simp: scanDoubleQuoteString_def intro: good_token_ok error_token_ok split: if_splits)
qed

lemma scanDollarQuoteString_ok:
  assumes "sc_ok s" "sc_ch s \<noteq> eof" "scanDollarQuoteString ul s = (tok, lit, s')"
  shows "token_ok s tok lit s'"
proof -
  obtain m s1 where t: "tag_loop ul (sc_offset s) (sc_next s) = (m, s1)"
    by (cases "tag_loop ul (sc_offset s) (sc_next s)")
  have s1: "sc_ok s1" "later (sc_next s) s1"
    using tag_loop_facts [OF t sc_next_ok [OF assms(1)]] by simp_all
  show ?thesis
  proof (cases m)
    case (Some m')
    with assms(3) t s1 after_next [OF assms(1,2)] show ?thesis
      by (auto simp: scanDollarQuoteString_def Let_def error_token_ok)
  next
    case None
    let ?s2 = "sc_next s1"
    have s2: "sc_ok ?s2" "later (sc_next s) ?s2"
      using sc_next_ok [OF s1(1)] sc_next_later [OF s1(1)] s1(2) later_trans by blast+
    have s3: "sc_ok (next_times k (next_times j ?s2))" "later (sc_next s) (next_times k (next_times j ?s2))"
      for j k
      using next_times_facts [OF s2(1), of j] next_times_facts [of "next_times j ?s2" k] s2(2) later_trans
      by blast+
    show ?thesis
      using assms(3) t None s2 s3 after_next [OF assms(1,2)]
      by (auto simp: scanDollarQuoteString_def Let_def intro: good_token_ok error_token_ok split: option.splits)
  qed
qed

lemma scanQueryFragment_ok:
  assumes "sc_ok s" "sc_ch s > 0" "scanQueryFragment ul s = (tok, lit, s')"
    "\<not> (sc_ch s = rune CHR ''-'' \<and> sc_peek s = CHR ''-'')" "\<not> (sc_ch s = rune CHR ''/'' \<and> sc_peek s = CHR ''*'')"
    "sc_ch s \<noteq> rune CHR '';''" "sc_ch s \<noteq> rune CHR 0x27" "sc_ch s \<noteq> rune CHR 0x22" "sc_ch s \<noteq> rune CHR ''$''"
  shows "token_ok s tok lit s'"
proof -
  have "fragment_loop ul s = fragment_loop ul (sc_next s)"
    using assms(2,4-) by (subst fragment_loop.simps) auto
  then show ?thesis
    using assms(3) fragment_loop_facts [OF sc_next_ok [OF assms(1)], of ul] after_next [OF assms(1)] assms(2)
    by (auto simp: scanQueryFragment_def Let_def token_ok_def eof_def)
qed

lemma scan_not_EOF:
  "fst (scanBlockComment s) \<noteq> EOF" "fst (scanSingleQuoteString s) \<noteq> EOF"
  "fst (scanDoubleQuoteString s) \<noteq> EOF" "fst (scanDollarQuoteString ul s) \<noteq> EOF"
  by (simp_all add: scanBlockComment_def scanSingleQuoteString_def scanDoubleQuoteString_def
      scanDollarQuoteString_def Let_def split: prod.split option.split)

lemma scan_token_ok:
  assumes "sc_ok s" "scan_token ul s = (tok, lit, s')"
  shows "(tok = EOF \<and> lit = [] \<and> s' = s \<and> sc_ch s = eof) \<or>
    (tok = QueryFragment \<and> lit = [] \<and> s' = s \<and> sc_ch s = 0) \<or> (tok \<noteq> EOF \<and> token_ok s tok lit s')"
proof (cases "sc_ch s = eof \<or> sc_ch s = 0")
  case True
  then show ?thesis
    using assms(2)
    by (auto simp: scan_token_def scanQueryFragment_def Let_def text_from_def eof_def rune_def
        fragment_loop.simps)
next
  case False
  then have pos: "sc_ch s > 0" using assms(1) by (auto simp: sc_ok_def)
  consider (line) "sc_ch s = rune CHR ''-''" "sc_peek s = CHR ''-''"
    | (block) "sc_ch s = rune CHR ''/''" "sc_peek s = CHR ''*''"
    | (single) "sc_ch s = rune CHR 0x27" | (dollar) "sc_ch s = rune CHR ''$''"
    | (double) "sc_ch s = rune CHR 0x22" | (semi) "sc_ch s = rune CHR '';''"
    | (frag) "\<not> (sc_ch s = rune CHR ''-'' \<and> sc_peek s = CHR ''-'')"
        "\<not> (sc_ch s = rune CHR ''/'' \<and> sc_peek s = CHR ''*'')" "sc_ch s \<noteq> rune CHR '';''"
        "sc_ch s \<noteq> rune CHR 0x27" "sc_ch s \<noteq> rune CHR 0x22" "sc_ch s \<noteq> rune CHR ''$''"
    by blast
  then show ?thesis
  proof cases
    case line
    obtain l s1 where "scanLineComment s = (l, s1)" by (cases "scanLineComment s")
    with line assms scanLineComment_ok [OF assms(1) line(1)] show ?thesis by (simp add: scan_token_def)
  next
    case frag
    from scanQueryFragment_ok [OF assms(1) pos _ frag] frag assms False show ?thesis
      by (auto simp: scan_token_def scanQueryFragment_def Let_def split: if_splits)
  next
    case semi
    with assms False todo_next_ch [of s] sc_next_ok [OF assms(1)] sc_next_later [OF assms(1)] show ?thesis
      by (simp add: scan_token_def token_ok_def)
  next
    case block
    with assms False scanBlockComment_ok [OF assms(1)] scan_not_EOF(1) [of s] show ?thesis
      by (auto simp: scan_token_def)
  next
    case single
    with assms False scanSingleQuoteString_ok [OF assms(1)] scan_not_EOF(2) [of s] show ?thesis
      by (auto simp: scan_token_def)
  next
    case double
    with assms False scanDoubleQuoteString_ok [OF assms(1)] scan_not_EOF(3) [of s] show ?thesis
      by (auto simp: scan_token_def)
  next
    case dollar
    with assms False scanDollarQuoteString_ok [OF assms(1)] scan_not_EOF(4) [of ul s] show ?thesis
      by (auto simp: scan_token_def)
  qed
qed

subsection \<open>Scan\<close>

text \<open>The position of a token is behind everything scanned before, and its literal is the text of
  the source at that position.\<close>

lemma Scan_ok:
  assumes "sc_ok s" "Scan ul s = (pos, tok, lit, s')"
  shows "sc_ok s'" "later s s'" "sc_offset s + 1 \<le> pos" "pos \<le> sc_offset s' + 1"
    "tok \<noteq> Illegal \<and> tok \<noteq> Semicolon \<longrightarrow> lit = take (sc_offset s' - (pos - 1)) (drop (pos - 1) (sc_src s))"
    "tok = EOF \<longrightarrow> pos = length (sc_src s) + 1"
    "tok \<noteq> EOF \<longrightarrow> todo s' < todo s \<or>
       tok = QueryFragment \<and> lit = [] \<and> sc_ch s' = 0 \<and> sc_ch (skipWhitespace s) = 0"
proof -
  let ?s1 = "skipWhitespace s"
  obtain s2 where t: "scan_token ul ?s1 = (tok, lit, s2)" and pos: "pos = sc_offset ?s1 + 1"
    and s': "s' = s2\<lparr>sc_prev := tok\<rparr>"
    using assms(2) by (cases "scan_token ul ?s1") (auto simp: Scan_def Let_def)
  have s1: "sc_ok ?s1" "later s ?s1"
    using next_while_facts [OF assms(1)] by (simp_all add: skipWhitespace_def)
  have todo: "todo s' = todo s2" by (simp add: s' todo_def)
  then have eq: "sc_ok s' = sc_ok s2" "later s s' = later s s2" "todo s' = todo s2"
    "sc_offset s' = sc_offset s2" "sc_src s' = sc_src s2" "sc_ch s' = sc_ch s2"
    by (simp_all add: s' sc_ok_def later_def)
  note tk = scan_token_ok [OF s1(1) t]
  have s2: "sc_ok s2" "later ?s1 s2" using tk s1 by (auto simp: token_ok_def)
  show "sc_ok s'" using s2 eq by simp
  show "later s s'" using later_trans [OF s1(2) s2(2)] eq by simp
  show "sc_offset s + 1 \<le> pos" "pos \<le> sc_offset s' + 1"
    using s1(2) s2(2) pos eq by (simp_all add: later_def)
  have src: "sc_src ?s1 = sc_src s" "sc_src s2 = sc_src s" using s1(2) s2(2) by (simp_all add: later_def)
  show "tok \<noteq> Illegal \<and> tok \<noteq> Semicolon \<longrightarrow> lit = take (sc_offset s' - (pos - 1)) (drop (pos - 1) (sc_src s))"
    using tk pos eq src by (auto simp: token_ok_def text_from_def)
  show "tok = EOF \<longrightarrow> pos = length (sc_src s) + 1"
    using tk pos s1(1) src by (auto simp: sc_ok_def)
  show "tok \<noteq> EOF \<longrightarrow> todo s' < todo s \<or>
      tok = QueryFragment \<and> lit = [] \<and> sc_ch s' = 0 \<and> sc_ch (skipWhitespace s) = 0"
    using tk eq s1(2) by (auto simp: token_ok_def later_def)
qed

lemma scanner_Init_ok: "sc_ok (scanner_Init wrap src)"
proof -
  let ?s0 = "\<lparr>sc_src = src, sc_ch = rune CHR '' '', sc_offset = 0, sc_rdOffset = 0, sc_prev = Illegal,
      sc_prevCh = 0, sc_lines = [0], sc_errs = [], sc_wrap = wrap\<rparr>"
  have "sc_ok (sc_next ?s0)"
    by (cases ?s0 rule: sc_next_cases) (auto simp: sc_ok_def eof_def)
  then show ?thesis by (simp add: scanner_Init_def Let_def sc_next_ok)
qed

lemma scanner_Init_src [simp]: "sc_src (scanner_Init wrap src) = src"
  by (simp add: scanner_Init_def Let_def)

subsection \<open>Scanning never goes back\<close>

text \<open>The bounds that the termination of the parser loops rests on, for any scanner state.\<close>

lemma todo_next2_le: "todo (sc_next (sc_next s)) \<le> todo s"
  using todo_next_le [of s] todo_next_le [of "sc_next s"] by simp

lemma todo_next_times: "todo (next_times n s) \<le> todo s"
proof (induction n)
  case (Suc n)
  then show ?case using todo_next_le [of "next_times n s"] by (simp add: next_times_def)
qed (simp add: next_times_def)

lemma todo_block_loop: "block_loop d s = (b, s') \<Longrightarrow> todo s' \<le> todo s"
proof (induction d s rule: block_loop.induct)
  case (1 d s)
  then show ?case
    using todo_next_le [of s] todo_next2_le [of s]
    by (subst (asm) (4) block_loop.simps) (auto split: if_splits)
qed

lemma todo_quote_loop: "quote_loop q s = (b, s') \<Longrightarrow> todo s' \<le> todo s"
proof (induction q s rule: quote_loop.induct)
  case (1 q s)
  then show ?case
    using todo_next_le [of s] todo_next2_le [of s]
    by (subst (asm) (3) quote_loop.simps) (auto split: if_splits)
qed

lemma todo_tag_loop: "tag_loop ul offs s = (m, s') \<Longrightarrow> todo s' \<le> todo s"
proof (induction ul offs s rule: tag_loop.induct)
  case (1 ul offs s)
  then show ?case
    using todo_next_le [of s] by (subst (asm) (2) tag_loop.simps) (auto split: if_splits)
qed

lemma todo_fragment_loop: "todo (fragment_loop ul s) \<le> todo s"
proof (induction ul s rule: fragment_loop.induct)
  case (1 ul s)
  then show ?case
    using todo_next_le [of s] todo_next_while [of "\<lambda>ch. ident_rune ul ch \<or> ch = rune CHR ''$''" s]
    by (subst fragment_loop.simps) (auto intro: le_trans)
qed

lemma todo_scanDollar: "scanDollarQuoteString ul s = (tok, lit, s') \<Longrightarrow> todo s' \<le> todo s"
proof -
  assume d: "scanDollarQuoteString ul s = (tok, lit, s')"
  obtain m s1 where t: "tag_loop ul (sc_offset s) (sc_next s) = (m, s1)"
    by (cases "tag_loop ul (sc_offset s) (sc_next s)")
  have s1: "todo s1 \<le> todo s" using todo_tag_loop [OF t] todo_next_le [of s] by simp
  then have s2: "todo (sc_next s1) \<le> todo s" using todo_next_le [of s1] by simp
  have "todo (next_times k (next_times j (sc_next s1))) \<le> todo s" for j k
    using todo_next_times [of k "next_times j (sc_next s1)"] todo_next_times [of j "sc_next s1"] s2 by simp
  with d t s1 s2 show "todo s' \<le> todo s"
    by (auto simp: scanDollarQuoteString_def Let_def split: option.splits)
qed

lemma todo_scan_token:
  assumes "scan_token ul s = (tok, lit, s')"
  shows "todo s' \<le> todo s" "tok = LineComment \<Longrightarrow> todo s' < todo s"
proof -
  obtain b1 s1 where b: "block_loop 1 (sc_next (sc_next s)) = (b1, s1)"
    by (cases "block_loop 1 (sc_next (sc_next s))")
  obtain b2 s2 where q: "quote_loop CHR 0x27 (sc_next s) = (b2, s2)" by (cases "quote_loop CHR 0x27 (sc_next s)")
  obtain b3 s3 where dq: "quote_loop CHR 0x22 (sc_next s) = (b3, s3)" by (cases "quote_loop CHR 0x22 (sc_next s)")
  obtain t4 l4 s4 where d: "scanDollarQuoteString ul s = (t4, l4, s4)" by (cases "scanDollarQuoteString ul s")
  have le: "todo s1 \<le> todo s" "todo s2 \<le> todo s" "todo s3 \<le> todo s" "todo s4 \<le> todo s"
    using todo_block_loop [OF b] todo_quote_loop [OF q] todo_quote_loop [OF dq] todo_scanDollar [OF d]
      todo_next_le [of s] todo_next2_le [of s] by simp_all
  show "todo s' \<le> todo s"
    using assms le b q dq d todo_next_while [of "\<lambda>ch. ch \<noteq> rune CHR 0x0A \<and> ch \<ge> 0" s]
      todo_fragment_loop [of ul s] todo_next_le [of s]
    by (auto simp: scan_token_def scanLineComment_def scanQueryFragment_def scanBlockComment_def
        scanSingleQuoteString_def scanDoubleQuoteString_def Let_def split: if_splits)
  assume "tok = LineComment"
  moreover have "t4 \<noteq> LineComment"
    using d by (auto simp: scanDollarQuoteString_def Let_def split: prod.splits option.splits)
  ultimately show "todo s' < todo s"
    using assms b q dq d todo_next_while_less [of s "\<lambda>ch. ch \<noteq> rune CHR 0x0A \<and> ch \<ge> 0"]
    by (auto simp: scan_token_def scanLineComment_def scanQueryFragment_def scanBlockComment_def
        scanSingleQuoteString_def scanDoubleQuoteString_def Let_def split: if_splits)
qed

lemma todo_Scan:
  assumes "Scan ul s = (pos, tok, lit, s')"
  shows "todo s' \<le> todo s" "tok = LineComment \<Longrightarrow> todo s' < todo s"
proof -
  obtain s2 where t: "scan_token ul (skipWhitespace s) = (tok, lit, s2)" and s': "s' = s2\<lparr>sc_prev := tok\<rparr>"
    using assms by (cases "scan_token ul (skipWhitespace s)") (auto simp: Scan_def Let_def)
  have "todo s' = todo s2" by (simp add: s' todo_def)
  then show "todo s' \<le> todo s" "tok = LineComment \<Longrightarrow> todo s' < todo s"
    using todo_scan_token [OF t] todo_next_while [of isSpace s] by (simp_all add: skipWhitespace_def)
qed

end
