(* ===== verification/Paginate.thy ===== *)
theory Paginate
  imports Ast Utf8
begin

text \<open>
  Keyset pagination, \<^verbatim>\<open>internal/parser/paginate.go\<close>: sort specs and how they are read from comments,
  the ORDER BY list and the cursor predicate of a variant, and the replacement of the
  \<^verbatim>\<open>pggen.keyset\<close> and \<^verbatim>\<open>pggen.orderby\<close> placeholders. The fan-out of a query into its variants, which
  parses each of them, is in \<open>QueryParser\<close>. The Unicode table of letters and digits that
  \<^verbatim>\<open>regexp\<close> uses in replacement templates is the parameter \<open>uw\<close>.
\<close>

subsection \<open>Sort specs\<close>

datatype sort_error =
    MalformedKey string string
  | MalformedCursor string string
  | NoKey string
  | NoDefault string
  | NullableNotLeading string string string
  | NoBinding string string
  | NotAParam string string string
  | NotNullableParam string string string
  | DuplicateSpec string

definition stripComment :: "string \<Rightarrow> string" where
  "stripComment text = TrimSpace (dropWhile (\<lambda>c. c = CHR ''-'') (TrimSpace text))"

fun sortBlockName :: "string list \<Rightarrow> string option" where
  "sortBlockName [] = None"
| "sortBlockName (l # ls) =
     (case CutPrefix l ''sort:'' of Some r \<Rightarrow> Some (TrimSpace r) | None \<Rightarrow> sortBlockName ls)"

text \<open>\<^verbatim>\<open>splitTerms\<close> cuts at commas outside parentheses and braces. The loop of the source ranges over
  the runes of the text; the runes it looks at are all ASCII, so it may as well range over its
  bytes.\<close>

definition flush_term :: "string \<Rightarrow> nat \<Rightarrow> nat \<Rightarrow> string list \<Rightarrow> string list" where
  "flush_term s start hi out =
     (let p = TrimSpace (take (hi - start) (drop start s)) in if p \<noteq> [] then out @ [p] else out)"

primrec terms_loop :: "string \<Rightarrow> string \<Rightarrow> nat \<Rightarrow> nat \<Rightarrow> nat \<Rightarrow> string list \<Rightarrow> string list" where
  "terms_loop s [] i depth start out = flush_term s start (length s) out"
| "terms_loop s (r # rs) i depth start out =
     (if r = CHR ''('' \<or> r = CHR ''{'' then terms_loop s rs (i + 1) (depth + 1) start out
      else if r = CHR '')'' \<or> r = CHR ''}'' then terms_loop s rs (i + 1) (depth - 1) start out
      else if r = CHR '','' \<and> depth = 0
        then terms_loop s rs (i + 1) depth (i + 1) (flush_term s start i out)
      else terms_loop s rs (i + 1) depth start out)"

definition splitTerms :: "string \<Rightarrow> string list" where
  "splitTerms s = terms_loop s s 0 0 0 []"

definition contains :: "string list \<Rightarrow> string \<Rightarrow> bool" where
  "contains xs x = list_ex (\<lambda>y. y = x) xs"

text \<open>Assignment to a Go map that is kept as a list of bindings.\<close>

fun bind_key :: "('k \<times> 'v) list \<Rightarrow> 'k \<Rightarrow> 'v \<Rightarrow> ('k \<times> 'v) list" where
  "bind_key [] k v = [(k, v)]"
| "bind_key ((k', v') # kvs) k v = (if k' = k then (k, v) # kvs else (k', v') # bind_key kvs k v)"

lemma map_of_bind_key: "map_of (bind_key kvs k v) = (map_of kvs)(k \<mapsto> v)"
  by (induction kvs) auto

fun cursor_loop :: "string \<Rightarrow> string list \<Rightarrow> (string \<times> string) list
    \<Rightarrow> sort_error + (string \<times> string) list" where
  "cursor_loop name [] cur = Inr cur"
| "cursor_loop name (pair # pairs) cur =
     (case Cut pair CHR ''='' of (col, arg, ok) \<Rightarrow>
        if \<not> ok then Inl (MalformedCursor name pair)
        else cursor_loop name pairs (bind_key cur (TrimSpace col) (TrimSpace arg)))"

text \<open>One line of a spec block; the state is the spec so far and the columns declared nullable.\<close>

definition spec_line :: "string \<Rightarrow> string \<Rightarrow> SortSpec \<times> string list
    \<Rightarrow> sort_error + SortSpec \<times> string list" where
  "spec_line name l st =
     (case st of (spec, nullable) \<Rightarrow>
        if prefix ''sort:'' l then Inr (spec, nullable)
        else if prefix ''key '' l then
          (case Cut (TrimPrefix l ''key '') CHR '':'' of (keyName, cols, ok) \<Rightarrow>
             if \<not> ok then Inl (MalformedKey name l)
             else Inr (spec\<lparr>ss_keys := ss_keys spec @
               [\<lparr>sk_name = TrimSpace keyName, sk_columns = splitTerms cols, sk_nullable = []\<rparr>]\<rparr>, nullable))
        else if prefix ''nullable:'' l then
          Inr (spec, nullable @ splitTerms (TrimPrefix l ''nullable:''))
        else if prefix ''tiebreak:'' l then
          Inr (spec\<lparr>ss_tiebreak := TrimSpace (TrimPrefix l ''tiebreak:'')\<rparr>, nullable)
        else if prefix ''default:'' l then
          Inr (spec\<lparr>ss_default := splitTerms (TrimPrefix l ''default:'')\<rparr>, nullable)
        else if prefix ''cursor:'' l then
          map_res (\<lambda>cur. (spec\<lparr>ss_cursor := cur\<rparr>, nullable))
            (cursor_loop name (splitTerms (TrimPrefix l ''cursor:'')) (ss_cursor spec))
        else Inr (spec, nullable))"

fun spec_lines :: "string \<Rightarrow> string list \<Rightarrow> SortSpec \<times> string list
    \<Rightarrow> sort_error + SortSpec \<times> string list" where
  "spec_lines name [] st = Inr st"
| "spec_lines name (l # ls) st = res_bind (spec_line name l st) (spec_lines name ls)"

definition validateNullable :: "string \<Rightarrow> SortKey \<Rightarrow> sort_error + unit" where
  "validateNullable specName key =
     (case find (key_IsNullable key) (drop 1 (sk_columns key)) of
        None \<Rightarrow> Inr ()
      | Some col \<Rightarrow> Inl (NullableNotLeading specName (sk_name key) col))"

definition usesNativeParams :: "SortSpec \<Rightarrow> bool" where
  "usesNativeParams spec = list_ex (\<lambda>(col, binding). prefix ''{'' binding) (ss_cursor spec)"

definition nativeParamType :: "string \<Rightarrow> string option" where
  "nativeParamType binding =
     (case CutPrefix binding ''{'' of None \<Rightarrow> None
      | Some body \<Rightarrow>
          (case CutSuffix body ''}'' of None \<Rightarrow> None
           | Some body' \<Rightarrow>
               (case Cut body' CHR '':'' of (_, typ, ok) \<Rightarrow> if ok then Some (TrimSpace typ) else None)))"

definition need_binding :: "SortSpec \<Rightarrow> string \<Rightarrow> sort_error + unit" where
  "need_binding spec col =
     (if map_of (ss_cursor spec) col = None then Inl (NoBinding (ss_name spec) col) else Inr ())"

definition check_native :: "SortSpec \<Rightarrow> string \<times> string \<Rightarrow> sort_error + unit" where
  "check_native spec cb =
     (case cb of (col, binding) \<Rightarrow>
        case nativeParamType binding of
          None \<Rightarrow> Inl (NotAParam (ss_name spec) binding col)
        | Some typ \<Rightarrow>
            if \<not> prefix ''Nullable('' typ then Inl (NotNullableParam (ss_name spec) binding col)
            else Inr ())"

fun all_res :: "('a \<Rightarrow> 'e + unit) \<Rightarrow> 'a list \<Rightarrow> 'e + unit" where
  "all_res f [] = Inr ()"
| "all_res f (x # xs) = res_bind (f x) (\<lambda>_. all_res f xs)"

lemma all_res_Inr: "all_res f xs = Inr () \<longleftrightarrow> list_all (\<lambda>x. f x = Inr ()) xs"
  by (induction xs) auto

definition validateCursorBindings :: "SortSpec \<Rightarrow> sort_error + unit" where
  "validateCursorBindings spec =
     res_bind (all_res (need_binding spec) (concat (map sk_columns (ss_keys spec)))) (\<lambda>_.
     res_bind (all_res (need_binding spec) (ss_default spec)) (\<lambda>_.
       if \<not> usesNativeParams spec then Inr ()
       else all_res (check_native spec) (ss_cursor spec)))"

definition set_nullable :: "string list \<Rightarrow> SortKey \<Rightarrow> SortKey" where
  "set_nullable nullable k =
     k\<lparr>sk_nullable := sk_nullable k @ filter (contains nullable) (sk_columns k)\<rparr>"

definition finish_key :: "string \<Rightarrow> bool \<Rightarrow> string list \<Rightarrow> SortKey \<Rightarrow> sort_error + SortKey" where
  "finish_key name keyset nullable k =
     (let k' = set_nullable nullable k in
      if keyset then map_res (\<lambda>_. k') (validateNullable name k') else Inr k')"

definition parseSortSpec :: "string \<Rightarrow> string list \<Rightarrow> sort_error + SortSpec" where
  "parseSortSpec name lns =
     res_bind (spec_lines name lns (\<lparr>ss_name = name, ss_keys = [], ss_default = [], ss_cursor = [],
                                      ss_tiebreak = []\<rparr>, [])) (\<lambda>(spec, nullable).
       if ss_keys spec = [] then Inl (NoKey name)
       else if ss_default spec = [] then Inl (NoDefault name)
       else res_bind (seq_res (map (finish_key name (IsKeyset spec) nullable) (ss_keys spec))) (\<lambda>keys.
         let spec' = spec\<lparr>ss_keys := keys\<rparr> in
         if IsKeyset spec' then map_res (\<lambda>_. spec') (validateCursorBindings spec') else Inr spec'))"

fun collect_specs :: "CommentGroup list \<Rightarrow> (string \<times> SortSpec) list
    \<Rightarrow> sort_error + (string \<times> SortSpec) list" where
  "collect_specs [] specs = Inr specs"
| "collect_specs (g # gs) specs =
     (let lns = map (stripComment \<circ> lc_text) g in
      case sortBlockName lns of
        None \<Rightarrow> collect_specs gs specs
      | Some name \<Rightarrow>
          res_bind (parseSortSpec name lns) (\<lambda>spec.
            if map_of specs name \<noteq> None then Inl (DuplicateSpec name)
            else collect_specs gs (specs @ [(name, spec)])))"

definition collectSortSpecs :: "CommentGroup list \<Rightarrow> sort_error + (string \<times> SortSpec) list" where
  "collectSortSpecs comments = collect_specs comments []"

subsection \<open>The clauses of a variant\<close>

definition orderByClause :: "string list \<Rightarrow> string list \<Rightarrow> bool \<Rightarrow> bool \<Rightarrow> string" where
  "orderByClause columns nullable desc keysetMode =
     (let dir = (if desc then ''DESC'' else ''ASC'');
          nulls = (if desc \<and> keysetMode then '' NULLS FIRST'' else '' NULLS LAST'')
      in strings_Join '', ''
           (map (\<lambda>c. c @ '' '' @ dir @ (if contains nullable c then nulls else [])) columns))"

definition cursorRef :: "string \<Rightarrow> string" where
  "cursorRef binding =
     (if prefix ''{'' binding then binding else ''pggen.arg('' @ [CHR 0x27] @ binding @ [CHR 0x27] @ '')'')"

text \<open>The closures of \<^verbatim>\<open>keysetPredicate\<close>. A column without a binding has the empty one, as a missing
  key of a Go map.\<close>

definition ks_arg :: "SortSpec \<Rightarrow> string \<Rightarrow> string" where
  "ks_arg spec col = cursorRef (case map_of (ss_cursor spec) col of None \<Rightarrow> [] | Some b \<Rightarrow> b)"

definition ks_notDistinct :: "SortSpec \<Rightarrow> string \<Rightarrow> string" where
  "ks_notDistinct spec col =
     (if \<not> usesNativeParams spec then col @ '' IS NOT DISTINCT FROM '' @ ks_arg spec col
      else ''(('' @ col @ '' IS NULL AND '' @ ks_arg spec col @ '' IS NULL) OR '' @ col @ '' = '' @
             ks_arg spec col @ '')'')"

definition ks_rowComparison :: "SortSpec \<Rightarrow> string \<Rightarrow> string list \<Rightarrow> string" where
  "ks_rowComparison spec op cols =
     (if length cols = 1 then hd cols @ '' '' @ op @ '' '' @ ks_arg spec (hd cols)
      else ''('' @ strings_Join '', '' cols @ '') '' @ op @ '' ('' @
             strings_Join '', '' (map (ks_arg spec) cols) @ '')'')"

definition or_sep :: string where
  "or_sep = CHR 0x0A # ''        OR ''"

definition keysetPredicate :: "SortSpec \<Rightarrow> string list \<Rightarrow> string list \<Rightarrow> bool \<Rightarrow> string" where
  "keysetPredicate spec columns nullable desc =
     (let op = (if desc then ''<'' else ''>'');
          leadNullable = (columns \<noteq> [] \<and> contains nullable (hd columns));
          main =
            (if \<not> leadNullable then ks_rowComparison spec op columns
             else let c1 = hd columns; others = tl columns;
                      nullArm = (if desc then c1 @ '' IS NOT NULL AND '' @ ks_arg spec c1 @ '' IS NULL''
                                 else c1 @ '' IS NULL AND '' @ ks_arg spec c1 @ '' IS NOT NULL'');
                      sameLead = (if others \<noteq> [] then ''('' @ ks_notDistinct spec c1 @ '' AND '' @
                                    ks_rowComparison spec op others @ '')'' else []);
                      earlier = ''('' @ c1 @ '' '' @ op @ '' '' @ ks_arg spec c1 @ '')''
                  in strings_Join or_sep
                       ((if sameLead \<noteq> [] then [sameLead] else []) @ [earlier, ''('' @ nullArm @ '')'']));
          escape = ''('' @ strings_Join '' AND '' (map (\<lambda>c. ks_arg spec c @ '' IS NULL'') columns) @ '')''
      in ''('' @ main @ or_sep @ escape @ '')'')"

subsection \<open>Placeholders in the query\<close>

definition re_space :: "char \<Rightarrow> bool" where
  "re_space c \<longleftrightarrow> c = CHR 0x09 \<or> c = CHR 0x0A \<or> c = CHR 0x0C \<or> c = CHR 0x0D \<or> c = CHR '' ''"

text \<open>\<^verbatim>\<open>placeholderRegexp\<close>: how much of a text matches the pattern at its start. Every repetition of
  the pattern is followed by a byte that the repetition cannot take, so there is one way to match.\<close>

definition match_placeholder :: "string \<Rightarrow> string \<Rightarrow> string \<Rightarrow> nat option" where
  "match_placeholder fn spec s =
     (let pre = ''pggen.'' @ fn @ ''(''; lit = [CHR 0x27] @ spec @ [CHR 0x27] in
      if \<not> prefix pre s then None
      else let r1 = dropWhile re_space (drop (length pre) s) in
        if \<not> prefix lit r1 then None
        else let r2 = dropWhile re_space (drop (length lit) r1) in
          if r2 \<noteq> [] \<and> hd r2 = CHR '')'' then Some (length s - length r2 + 1) else None)"

fun has_placeholder :: "string \<Rightarrow> string \<Rightarrow> string \<Rightarrow> bool" where
  "has_placeholder fn spec [] = False"
| "has_placeholder fn spec (c # s) =
     (match_placeholder fn spec (c # s) \<noteq> None \<or> has_placeholder fn spec s)"

text \<open>\<^verbatim>\<open>Regexp.Expand\<close>: a dollar sign and a name in a replacement stand for a group of the match.
  The patterns have no groups, so \<^verbatim>\<open>$0\<close> is the match and every other name is empty.\<close>

definition word_rune :: "(int \<Rightarrow> bool) \<Rightarrow> int \<Rightarrow> bool" where
  "word_rune uw r \<longleftrightarrow> (48 \<le> r \<and> r \<le> 57) \<or> (65 \<le> r \<and> r \<le> 90) \<or> (97 \<le> r \<and> r \<le> 122) \<or> r = 95 \<or>
     r \<ge> 0x80 \<and> uw r"

function name_len :: "(int \<Rightarrow> bool) \<Rightarrow> string \<Rightarrow> nat" where
  "name_len uw s =
     (if s = [] then 0
      else case DecodeRune s of (r, w) \<Rightarrow>
        if word_rune uw r then w + name_len uw (drop w s) else 0)"
  by pat_completeness auto
termination
  by (relation "measure (\<lambda>(uw, s). length s)") (auto dest!: sym [of "(_, _)"] dest: DecodeRune_width)

declare name_len.simps [simp del]

definition extract_group :: "(int \<Rightarrow> bool) \<Rightarrow> string \<Rightarrow> (string \<times> string) option" where
  "extract_group uw t =
     (let brace = (t \<noteq> [] \<and> hd t = CHR ''{''); s = (if brace then tl t else t); i = name_len uw s in
      if i = 0 then None
      else if brace then
        (if i < length s \<and> s ! i = CHR ''}'' then Some (take i s, drop (i + 1) s) else None)
      else Some (take i s, drop i s))"

definition group_text :: "string \<Rightarrow> string \<Rightarrow> string" where
  "group_text m name = (if name = ''0'' then m else [])"

function expand_template :: "(int \<Rightarrow> bool) \<Rightarrow> string \<Rightarrow> string \<Rightarrow> string" where
  "expand_template uw m t =
     (case IndexByte t CHR ''$'' of
        None \<Rightarrow> t
      | Some k \<Rightarrow>
          (let before = take k t; after = drop (k + 1) t in
           if after \<noteq> [] \<and> hd after = CHR ''$'' then before @ ''$'' @ expand_template uw m (tl after)
           else case extract_group uw after of
             None \<Rightarrow> before @ ''$'' @ expand_template uw m after
           | Some (name, r) \<Rightarrow> before @ group_text m name @ expand_template uw m r))"
  by pat_completeness auto
termination
proof (relation "measure (\<lambda>(uw, m, t). length t)", goal_cases)
  case (2 uw m t k before after)
  then show ?case using IndexByte_Some [of t "CHR ''$''" k] by (cases after) auto
next
  case (3 uw m t k before after)
  then show ?case using IndexByte_Some [of t "CHR ''$''" k] by auto
next
  case (4 uw m t k before after a name r)
  then have "length r \<le> length after"
    by (auto simp: extract_group_def Let_def split: if_splits)
  with 4 show ?case using IndexByte_Some [of t "CHR ''$''" k] by auto
qed simp

declare expand_template.simps [simp del]

lemma match_placeholder_pos: "match_placeholder fn spec s = Some k \<Longrightarrow> 0 < k"
  by (auto simp: match_placeholder_def Let_def split: if_splits)

text \<open>\<^verbatim>\<open>Regexp.ReplaceAllString\<close>\<close>

function replace_all :: "(int \<Rightarrow> bool) \<Rightarrow> string \<Rightarrow> string \<Rightarrow> string \<Rightarrow> string \<Rightarrow> string" where
  "replace_all uw fn spec repl s =
     (if s = [] then []
      else case match_placeholder fn spec s of
        Some k \<Rightarrow> expand_template uw (take k s) repl @ replace_all uw fn spec repl (drop k s)
      | None \<Rightarrow> hd s # replace_all uw fn spec repl (tl s))"
  by pat_completeness auto
termination
  by (relation "measure (\<lambda>(uw, fn, spec, repl, s). length s)") (auto dest: match_placeholder_pos)

declare replace_all.simps [simp del]

subsection \<open>The variants of a query\<close>

record variant =
  v_key :: VariantKey
  v_suffix :: string
  v_orderBy :: string
  v_keyset :: string

definition withTiebreak :: "SortSpec \<Rightarrow> string \<Rightarrow> string" where
  "withTiebreak spec orderBy =
     (if ss_tiebreak spec = [] then orderBy else orderBy @ '', '' @ ss_tiebreak spec)"

definition keysetFor :: "SortSpec \<Rightarrow> string list \<Rightarrow> string list \<Rightarrow> bool \<Rightarrow> string" where
  "keysetFor spec columns nullable desc =
     (if \<not> IsKeyset spec then [] else keysetPredicate spec columns nullable desc)"

definition default_variant :: "SortSpec \<Rightarrow> variant" where
  "default_variant spec =
     \<lparr>v_key = \<lparr>vk_sort = [], vk_descending = False, vk_default = True\<rparr>,
      v_suffix = ''default'',
      v_orderBy = withTiebreak spec (orderByClause (ss_default spec) [] False (IsKeyset spec)),
      v_keyset = keysetFor spec (ss_default spec) [] False\<rparr>"

definition key_variant :: "SortSpec \<Rightarrow> SortKey \<Rightarrow> bool \<Rightarrow> variant" where
  "key_variant spec k desc =
     \<lparr>v_key = \<lparr>vk_sort = sk_name k, vk_descending = desc, vk_default = False\<rparr>,
      v_suffix = sk_name k @ ''_'' @ (if desc then ''desc'' else ''asc''),
      v_orderBy = withTiebreak spec (orderByClause (sk_columns k) (sk_nullable k) desc (IsKeyset spec)),
      v_keyset = keysetFor spec (sk_columns k) (sk_nullable k) desc\<rparr>"

definition spec_variants :: "SortSpec \<Rightarrow> variant list" where
  "spec_variants spec =
     default_variant spec #
       concat (map (\<lambda>k. [key_variant spec k True, key_variant spec k False]) (ss_keys spec))"

definition variantAnnotation :: "SourceQuery \<Rightarrow> string" where
  "variantAnnotation sq =
     ResultKind_text (sq_kind sq) @
     (if OutputType (sq_pragmas sq) \<noteq> [] then '' output='' @ OutputType (sq_pragmas sq) else []) @
     (if ProtobufType (sq_pragmas sq) \<noteq> [] then '' proto-type='' @ ProtobufType (sq_pragmas sq) else [])"

definition trim_body :: "string \<Rightarrow> string" where
  "trim_body s =
     rev (dropWhile (\<lambda>c. c = CHR '' '' \<or> c = CHR 0x09 \<or> c = CHR 0x0A \<or> c = CHR '';'') (rev s))"

definition variant_name :: "SourceQuery \<Rightarrow> variant \<Rightarrow> string" where
  "variant_name sq v = sq_name sq @ ''__'' @ v_suffix v"

definition variant_source :: "(int \<Rightarrow> bool) \<Rightarrow> SortSpec \<Rightarrow> SourceQuery \<Rightarrow> variant \<Rightarrow> string" where
  "variant_source uw spec sq v =
     (let body = sq_sql sq;
          body1 = (if IsKeyset spec then replace_all uw ''keyset'' (ss_name spec) (v_keyset v) body else body);
          body2 = replace_all uw ''orderby'' (ss_name spec) (v_orderBy v) body1
      in ''-- name: '' @ variant_name sq v @ '' '' @ variantAnnotation sq @ [CHR 0x0A] @
         trim_body body2 @ '';'' @ [CHR 0x0A])"

end
