(* ===== verification/QueryParser.thy ===== *)
theory QueryParser
  imports ScannerFacts Paginate
begin

text \<open>
  The parser of query files, \<^verbatim>\<open>internal/parser/parser.go\<close>, \<^verbatim>\<open>interface.go\<close> and the fan-out of
  \<^verbatim>\<open>paginate.go\<close>. The parser state is a record over the scanner state; the error list of the
  source is the one of the scanner state, which both report to. Tracing, which only prints, is
  left out.

  A parse ends with a value, with the bailout panic that the source recovers from, or not at
  all: the loops over tokens take fuel, and \<open>Diverges\<close> marks running out of it.
\<close>

subsection \<open>Pragmas\<close>

datatype pragma_error =
    PragmaFormat string
  | ProtoStart string
  | ProtoDot string
  | ProtoChar string
  | IdentEmpty string
  | IdentStart string string
  | IdentChar string string
  | EmptyPaginate
  | UnsupportedPragma string
  | SqlWithPaginate string string

text \<open>The loops of the validators range over runes; a rune that is not ASCII is an error for both,
  and so is its first byte.\<close>

fun proto_loop :: "string \<Rightarrow> bool \<Rightarrow> string \<Rightarrow> pragma_error + unit" where
  "proto_loop val isStart [] = Inr ()"
| "proto_loop val isStart (v # vs) =
     (if is_lower v \<or> is_upper v then proto_loop val False vs
      else if is_digit v \<or> v = CHR ''_'' then
        (if isStart then Inl (ProtoStart val) else proto_loop val isStart vs)
      else if v = CHR ''.'' then
        (if isStart \<or> vs = [] then Inl (ProtoDot val) else proto_loop val True vs)
      else Inl (ProtoChar val))"

definition validateProtoMsgType :: "string \<Rightarrow> pragma_error + string" where
  "validateProtoMsgType val = map_res (\<lambda>_. val) (proto_loop val True val)"

definition validateGoExportedIdent :: "string \<Rightarrow> string \<Rightarrow> pragma_error + unit" where
  "validateGoExportedIdent val what =
     (if val = [] then Inl (IdentEmpty what)
      else if \<not> is_upper (hd val) then Inl (IdentStart what val)
      else if list_ex (\<lambda>r. \<not> is_lower r \<and> \<not> is_upper r \<and> \<not> is_digit r \<and> r \<noteq> CHR ''_'') (tl val)
        then Inl (IdentChar what val)
      else Inr ())"

definition validateOutputType :: "string \<Rightarrow> pragma_error + unit" where
  "validateOutputType val = validateGoExportedIdent val ''output type''"

definition pragma_step :: "string \<Rightarrow> Pragmas \<Rightarrow> pragma_error + Pragmas" where
  "pragma_step s qp =
     (case Split s CHR ''='' of
        [key, val] \<Rightarrow>
          if key = ''proto-type'' then
            map_res (\<lambda>p. qp\<lparr>ProtobufType := p\<rparr>) (validateProtoMsgType val)
          else if key = ''output'' then
            map_res (\<lambda>_. qp\<lparr>OutputType := val\<rparr>) (validateOutputType val)
          else if key = ''paginate'' then
            (if val = [] then Inl EmptyPaginate else Inr (qp\<lparr>Paginate := val\<rparr>))
          else if key = ''sql'' then
            map_res (\<lambda>_. qp\<lparr>SQLConst := val\<rparr>) (validateGoExportedIdent val ''sql constant'')
          else Inl (UnsupportedPragma key)
      | _ \<Rightarrow> Inl (PragmaFormat s))"

fun pragma_loop :: "string list \<Rightarrow> Pragmas \<Rightarrow> pragma_error + Pragmas" where
  "pragma_loop [] qp = Inr qp"
| "pragma_loop (s # ss) qp = res_bind (pragma_step s qp) (pragma_loop ss)"

definition parsePragmas :: "string \<Rightarrow> pragma_error + Pragmas" where
  "parsePragmas allPragmas =
     (if allPragmas = [] then Inr no_pragmas
      else res_bind (pragma_loop (Fields allPragmas) no_pragmas) (\<lambda>qp.
        if Paginate qp \<noteq> [] \<and> SQLConst qp \<noteq> []
        then Inl (SqlWithPaginate (SQLConst qp) (Paginate qp)) else Inr qp))"

subsection \<open>Parameters\<close>

record argPos =
  a_lo :: int
  a_hi :: int
  a_name :: string

type_synonym Placeholder = "string \<Rightarrow> nat \<Rightarrow> string"

definition PostgresPlaceholder :: Placeholder where
  "PostgresPlaceholder name ordinal = ''$'' @ itoa (int ordinal)"

definition ClickHousePlaceholder :: Placeholder where
  "ClickHousePlaceholder name ordinal = ''pggen.arg('' @ [CHR 0x27] @ name @ [CHR 0x27] @ '')''"

text \<open>The first loop of \<^verbatim>\<open>prepareSQL\<close>: the parameters in order of first appearance, and the ordinal
  of each.\<close>

fun param_orders :: "argPos list \<Rightarrow> (string \<rightharpoonup> nat) \<Rightarrow> string list \<Rightarrow> nat
    \<Rightarrow> (string \<rightharpoonup> nat) \<times> string list" where
  "param_orders [] orders params idx = (orders, params)"
| "param_orders (a # as) orders params idx =
     (if orders (a_name a) = None
      then param_orders as (orders(a_name a \<mapsto> idx)) (params @ [a_name a]) (idx + 1)
      else param_orders as orders params idx)"

text \<open>The second loop: the text between the arguments and a placeholder for each. A missing
  ordinal would be 0, the zero value of the map.\<close>

fun replace_args :: "Placeholder \<Rightarrow> (string \<rightharpoonup> nat) \<Rightarrow> string \<Rightarrow> argPos list \<Rightarrow> int \<Rightarrow> string
    \<Rightarrow> string" where
  "replace_args ph orders bs [] prev sb = sb @ drop (nat prev) bs"
| "replace_args ph orders bs (a # as) prev sb =
     replace_args ph orders bs as (a_hi a)
       (sb @ take (nat (a_lo a) - nat prev) (drop (nat prev) bs) @
        ph (a_name a) (case orders (a_name a) of None \<Rightarrow> 0 | Some k \<Rightarrow> k))"

definition prepareSQL :: "string \<Rightarrow> argPos list \<Rightarrow> Placeholder \<Rightarrow> string \<times> string list" where
  "prepareSQL sql args ph =
     (if args = [] then (sql, [])
      else case param_orders args Map.empty [] 1 of (orders, params) \<Rightarrow>
        (replace_args ph orders sql args 0 [], params))"

subsection \<open>The annotation of a query\<close>

text \<open>\<^verbatim>\<open>annotationRegexp\<close>: \<^verbatim>\<open>name: ([a-zA-Z0-9_$]+)[ \t]+(:many|:one|:exec)[ \t]*(.*)\<close>. The match at a
  given start is unique, because each repetition is followed by something it cannot take.\<close>

definition name_char :: "char \<Rightarrow> bool" where
  "name_char c \<longleftrightarrow> is_lower c \<or> is_upper c \<or> is_digit c \<or> c = CHR ''_'' \<or> c = CHR ''$''"

definition re_blank :: "char \<Rightarrow> bool" where
  "re_blank c \<longleftrightarrow> c = CHR '' '' \<or> c = CHR 0x09"

definition match_kind :: "string \<Rightarrow> (ResultKind \<times> string) option" where
  "match_kind s =
     (case CutPrefix s '':many'' of Some r \<Rightarrow> Some (ResultKindMany, r)
      | None \<Rightarrow> (case CutPrefix s '':one'' of Some r \<Rightarrow> Some (ResultKindOne, r)
      | None \<Rightarrow> (case CutPrefix s '':exec'' of Some r \<Rightarrow> Some (ResultKindExec, r)
      | None \<Rightarrow> None)))"

definition match_annotation :: "string \<Rightarrow> (string \<times> ResultKind \<times> string) option" where
  "match_annotation s =
     (case CutPrefix s ''name: '' of None \<Rightarrow> None
      | Some r1 \<Rightarrow>
          let name = takeWhile name_char r1; r2 = dropWhile name_char r1 in
          if name = [] \<or> r2 = [] \<or> \<not> re_blank (hd r2) then None
          else case match_kind (dropWhile re_blank r2) of None \<Rightarrow> None
            | Some (kind, r3) \<Rightarrow>
                Some (name, kind, takeWhile (\<lambda>c. c \<noteq> CHR 0x0A) (dropWhile re_blank r3)))"

fun find_annotation :: "string \<Rightarrow> (string \<times> ResultKind \<times> string) option" where
  "find_annotation [] = match_annotation []"
| "find_annotation (c # s) =
     (case match_annotation (c # s) of Some m \<Rightarrow> Some m | None \<Rightarrow> find_annotation s)"

subsection \<open>Errors and state\<close>

datatype parse_msg =
    ScanMsg scan_msg
  | ExpectedToken token token
  | UnterminatedQuery nat nat
  | ExpectedString
  | ExpectedSingleQuoted
  | ExpectedFragment
  | ExpectedParen
  | NoCommentBeforeQuery
  | NoAnnotation string
  | InvalidPragma pragma_error
  | SortSpecError sort_error
  | UnknownSortSpec string string
  | NoOutputPragma string string
  | NoKeysetInQuery string string
  | KeysetWithoutCursor string string
  | NoOrderByInQuery string string
  | VariantParse string
  | VariantCount string nat
  | VariantBad string

record parser =
  p_sc :: "parse_msg scanner"
  p_comments :: "CommentGroup list"
  p_lead :: "CommentGroup option"
  p_pos :: nat
  p_tok :: token
  p_lit :: string

datatype 'a outcome = Returns 'a | Bailout parser | Diverges

fun ob :: "'a outcome \<Rightarrow> ('a \<Rightarrow> 'b outcome) \<Rightarrow> 'b outcome" where
  "ob (Returns x) f = f x"
| "ob (Bailout p) f = Bailout p"
| "ob Diverges f = Diverges"

lemma ob_Returns: "ob m f = Returns y \<longleftrightarrow> (\<exists>x. m = Returns x \<and> f x = Returns y)"
  by (cases m) simp_all

abbreviation p_src :: "parser \<Rightarrow> string" where
  "p_src p \<equiv> sc_src (p_sc p)"

definition p_line :: "parser \<Rightarrow> nat \<Rightarrow> nat" where
  "p_line p pos = line_of_pos (sc_lines (p_sc p)) pos"

definition next0 :: "(int \<Rightarrow> bool) \<Rightarrow> parser \<Rightarrow> parser" where
  "next0 ul p =
     (case Scan ul (p_sc p) of (pos, tok, lit, s) \<Rightarrow>
        p\<lparr>p_sc := s, p_pos := pos, p_tok := tok, p_lit := lit\<rparr>)"

text \<open>A parser state whose scanner state is one that scanning can reach.\<close>

definition p_todo :: "parser \<Rightarrow> nat" where
  "p_todo p = (if p_tok p = LineComment then 1 else 0) + todo (p_sc p)"

lemma p_todo_next0: "p_tok p = LineComment \<Longrightarrow> p_todo (next0 ul p) < p_todo p"
proof -
  assume l: "p_tok p = LineComment"
  obtain pos tok lit s where sc: "Scan ul (p_sc p) = (pos, tok, lit, s)" by (cases "Scan ul (p_sc p)") auto
  with l todo_Scan [OF sc] show ?thesis by (auto simp: next0_def p_todo_def)
qed

subsection \<open>Comments\<close>

definition consumeComment :: "(int \<Rightarrow> bool) \<Rightarrow> parser \<Rightarrow> LineComment \<times> nat \<times> parser" where
  "consumeComment ul p =
     (LineCommentNode (p_pos p) (p_lit p), p_line p (p_pos p), next0 ul p)"

function group_loop :: "(int \<Rightarrow> bool) \<Rightarrow> nat \<Rightarrow> nat \<Rightarrow> CommentGroup \<Rightarrow> parser
    \<Rightarrow> CommentGroup \<times> nat \<times> parser" where
  "group_loop ul n endLine list p =
     (if p_tok p = LineComment \<and> p_line p (p_pos p) \<le> endLine + n then
        (case consumeComment ul p of (comment, endLine', p') \<Rightarrow>
           group_loop ul n endLine' (list @ [comment]) p')
      else (list, endLine, p))"
  by pat_completeness auto
termination
  by (relation "measure (\<lambda>(ul, n, endLine, list, p). p_todo p)")
    (auto simp: consumeComment_def p_todo_next0)

declare group_loop.simps [simp del]

definition consumeCommentGroup :: "(int \<Rightarrow> bool) \<Rightarrow> nat \<Rightarrow> parser \<Rightarrow> CommentGroup \<times> nat \<times> parser" where
  "consumeCommentGroup ul n p =
     (case group_loop ul n (p_line p (p_pos p)) [] p of (list, endLine, p') \<Rightarrow>
        (list, endLine, p'\<lparr>p_comments := p_comments p' @ [list]\<rparr>))"

lemma p_todo_comments [simp]: "p_todo (p\<lparr>p_comments := cs\<rparr>) = p_todo p"
  by (simp add: p_todo_def)

lemma p_todo_group_loop: "group_loop ul n e l p = (l', e', p') \<Longrightarrow> p_todo p' \<le> p_todo p"
proof (induction ul n e l p rule: group_loop.induct)
  case (1 ul n e l p)
  show ?case
  proof (cases "p_tok p = LineComment \<and> p_line p (p_pos p) \<le> e + n")
    case True
    then have "p_todo p' \<le> p_todo (next0 ul p)"
      using 1 by (subst (asm) (2) group_loop.simps) (auto simp: consumeComment_def)
    with p_todo_next0 [of p ul] True show ?thesis by simp
  next
    case False
    with 1(2) show ?thesis by (auto simp: group_loop.simps)
  qed
qed

lemma p_todo_group: "consumeCommentGroup ul n p = (g, e, p') \<Longrightarrow> p_tok p = LineComment \<Longrightarrow> p_todo p' < p_todo p"
proof -
  assume c: "consumeCommentGroup ul n p = (g, e, p')" and l: "p_tok p = LineComment"
  obtain e0 where c0: "group_loop ul n (p_line p (p_pos p)) [LineCommentNode (p_pos p) (p_lit p)] (next0 ul p) = e0"
    by blast
  have "group_loop ul n (p_line p (p_pos p)) [] p = e0"
    using l c0 by (subst group_loop.simps) (simp add: consumeComment_def)
  then obtain l1 e1 p1 where e0: "e0 = (l1, e1, p1)" "p' = p1\<lparr>p_comments := p_comments p1 @ [l1]\<rparr>"
    using c by (auto simp: consumeCommentGroup_def split: prod.splits)
  have "p_todo p1 \<le> p_todo (next0 ul p)" using p_todo_group_loop c0 e0 by blast
  with p_todo_next0 [OF l, of ul] e0 show "p_todo p' < p_todo p" by simp
qed

text \<open>The loop of \<^verbatim>\<open>next\<close> over the comment groups that follow; \<open>st\<close> is the last group and the line it
  ends on.\<close>

function groups_loop :: "(int \<Rightarrow> bool) \<Rightarrow> CommentGroup option \<times> nat \<Rightarrow> parser
    \<Rightarrow> (CommentGroup option \<times> nat) \<times> parser" where
  "groups_loop ul st p =
     (if p_tok p = LineComment then
        (case consumeCommentGroup ul 1 p of (g, endLine, p') \<Rightarrow> groups_loop ul (Some g, endLine) p')
      else (st, p))"
  by pat_completeness auto
termination
  by (relation "measure (\<lambda>(ul, st, p). p_todo p)") (simp, simp, metis p_todo_group)

declare groups_loop.simps [simp del]

definition p_next :: "(int \<Rightarrow> bool) \<Rightarrow> parser \<Rightarrow> parser" where
  "p_next ul p =
     (let prev = p_pos p; p1 = next0 ul (p\<lparr>p_lead := None\<rparr>) in
      if p_tok p1 = LineComment then
        (let first = (if p_line p1 (p_pos p1) = p_line p1 prev then
                        (case consumeCommentGroup ul 0 p1 of (g, e, p2) \<Rightarrow> ((Some g, e), p2))
                      else ((None, 0), p1)) in
         case groups_loop ul (fst first) (snd first) of ((comment, endLine), p3) \<Rightarrow>
           if endLine + 1 = p_line p3 (p_pos p3) then p3\<lparr>p_lead := comment\<rparr> else p3)
      else p1)"

subsection \<open>Reporting errors\<close>

text \<open>\<^verbatim>\<open>error\<close> drops an error on the line of the last one, and gives up after more than ten.\<close>

definition p_error :: "nat \<Rightarrow> parse_msg \<Rightarrow> parser \<Rightarrow> parser outcome" where
  "p_error pos msg p =
     (let errs = sc_errs (p_sc p); l = p_line p pos in
      if errs \<noteq> [] \<and> err_line (last errs) = l then Returns p
      else if length errs > 10 then Bailout p
      else Returns (p\<lparr>p_sc := (p_sc p)\<lparr>sc_errs := errs @ [FileError l (pos - 1) msg]\<rparr>\<rparr>))"

definition p_expect :: "(int \<Rightarrow> bool) \<Rightarrow> token \<Rightarrow> parser \<Rightarrow> (nat \<times> parser) outcome" where
  "p_expect ul tok p =
     ob (if p_tok p \<noteq> tok then p_error (p_pos p) (ExpectedToken tok (p_tok p)) p else Returns p)
       (\<lambda>p1. Returns (p_pos p, p_next ul p1))"

subsection \<open>Queries\<close>

text \<open>\<^verbatim>\<open>parsePggenArg\<close>; \<^term>\<open>None\<close> where the source returns false.\<close>

definition parsePggenArg :: "(int \<Rightarrow> bool) \<Rightarrow> parser \<Rightarrow> (argPos option \<times> parser) outcome" where
  "parsePggenArg ul p =
     (let lo = int (p_pos p) + LastIndex (p_lit p) ''pggen'' - 1; p1 = p_next ul p in
      if p_tok p1 \<noteq> String then
        ob (p_error (p_pos p1) ExpectedString p1) (\<lambda>p2. Returns (None, p2))
      else if length (p_lit p1) < 3 \<or> hd (p_lit p1) \<noteq> CHR 0x27 \<or> last (p_lit p1) \<noteq> CHR 0x27 then
        ob (p_error (p_pos p1) ExpectedSingleQuoted p1) (\<lambda>p2. Returns (None, p2))
      else
        let name = butlast (tl (p_lit p1)); p2 = p_next ul p1 in
        if p_tok p2 \<noteq> QueryFragment then
          ob (p_error (p_pos p2) ExpectedFragment p2) (\<lambda>p3. Returns (None, p3))
        else if \<not> prefix '')'' (p_lit p2) then
          ob (p_error (p_pos p2) ExpectedParen p2) (\<lambda>p3. Returns (None, p3))
        else Returns (Some \<lparr>a_lo = lo, a_hi = int (p_pos p2), a_name = name\<rparr>, p2))"

definition has_pggen_arg :: "string \<Rightarrow> bool" where
  "has_pggen_arg lit \<longleftrightarrow> suffix ''pggen.arg('' lit \<or> suffix ''pggen.arg ('' lit"

text \<open>The loop of \<^verbatim>\<open>parseQuery\<close> over the tokens of a query that starts at \<open>pos\<close>: the arguments found,
  or \<^term>\<open>None\<close> for a bad query.\<close>

primrec query_loop :: "(int \<Rightarrow> bool) \<Rightarrow> nat \<Rightarrow> nat \<Rightarrow> argPos list \<Rightarrow> parser
    \<Rightarrow> (argPos list option \<times> parser) outcome" where
  "query_loop ul 0 pos names p = Diverges"
| "query_loop ul (Suc n) pos names p =
     (if p_tok p = Semicolon then Returns (Some names, p)
      else if p_tok p = EOF \<or> p_tok p = Illegal then
        ob (p_error (p_pos p) (UnterminatedQuery pos (p_pos p)) p) (\<lambda>p1. Returns (None, p1))
      else if p_tok p = QueryFragment \<and> has_pggen_arg (p_lit p) then
        ob (parsePggenArg ul p) (\<lambda>(arg, p1).
          case arg of
            None \<Rightarrow> Returns (None, p1)
          | Some a \<Rightarrow>
              query_loop ul n pos
                (names @ [a\<lparr>a_lo := a_lo a - (int pos - 1), a_hi := a_hi a - (int pos - 1)\<rparr>]) p1)
      else query_loop ul n pos names (p_next ul p))"

definition bad_query :: "nat \<Rightarrow> parse_msg \<Rightarrow> parser \<Rightarrow> (Query \<times> parser) outcome" where
  "bad_query pos msg p = ob (p_error pos msg p) (\<lambda>p1. Returns (BadQuery pos (p_pos p1), p1))"

text \<open>What \<^verbatim>\<open>parseQuery\<close> makes of a query once its semicolon has been read.\<close>

definition finish_query :: "Placeholder \<Rightarrow> CommentGroup option \<Rightarrow> nat \<Rightarrow> nat \<Rightarrow> argPos list
    \<Rightarrow> parser \<Rightarrow> (Query \<times> parser) outcome" where
  "finish_query ph doc pos semi names p =
     (let sql = take (semi - (pos - 1)) (drop (pos - 1) (p_src p)) in
      case doc of
        None \<Rightarrow> bad_query pos NoCommentBeforeQuery p
      | Some g \<Rightarrow>
          if g = [] then bad_query pos NoCommentBeforeQuery p
          else case find_annotation (lc_text (last g)) of
            None \<Rightarrow> bad_query pos (NoAnnotation (lc_text (last g))) p
          | Some (name, kind, args) \<Rightarrow>
              (case parsePragmas args of
                 Inl e \<Rightarrow> bad_query pos (InvalidPragma e) p
               | Inr pragmas \<Rightarrow>
                   (case prepareSQL sql names ph of (prepared, params) \<Rightarrow>
                      Returns (SourceQ \<lparr>sq_name = name, sq_doc = doc, sq_start = pos, sq_sql = sql,
                        sq_prepared = prepared, sq_params = params, sq_kind = kind,
                        sq_pragmas = pragmas, sq_semi = semi, sq_group = [],
                        sq_variant = no_variant\<rparr>, p))))"

definition parseQuery :: "(int \<Rightarrow> bool) \<Rightarrow> nat \<Rightarrow> Placeholder \<Rightarrow> parser \<Rightarrow> (Query \<times> parser) outcome" where
  "parseQuery ul n ph p =
     (let doc = p_lead p; pos = p_pos p in
      ob (query_loop ul n pos [] p) (\<lambda>(res, p1).
        case res of
          None \<Rightarrow> Returns (BadQuery pos (p_pos p1), p1)
        | Some names \<Rightarrow>
            ob (p_expect ul Semicolon p1) (\<lambda>(semi, p2). finish_query ph doc pos semi names p2)))"

primrec queries_loop :: "(int \<Rightarrow> bool) \<Rightarrow> nat \<Rightarrow> nat \<Rightarrow> Placeholder \<Rightarrow> Query list \<Rightarrow> parser
    \<Rightarrow> (Query list \<times> parser) outcome" where
  "queries_loop ul n 0 ph qs p = Diverges"
| "queries_loop ul n (Suc k) ph qs p =
     (if p_tok p = EOF \<or> p_tok p = Illegal then Returns (qs, p)
      else ob (parseQuery ul n ph p) (\<lambda>(q, p1). queries_loop ul n k ph (qs @ [q]) p1))"

subsection \<open>Fanning out paginated queries\<close>

text \<open>What \<^verbatim>\<open>ParseFile\<close> returns: the file and the list of errors, \<^term>\<open>None\<close> when it does not return.\<close>

type_synonym parsed = "(File \<times> parse_msg file_error list) option"

definition check_variant :: "SourceQuery \<Rightarrow> variant \<Rightarrow> File \<times> parse_msg file_error list
    \<Rightarrow> parse_msg + Query" where
  "check_variant sq v fe =
     (case fe of (f, errs) \<Rightarrow>
        if errs \<noteq> [] then Inl (VariantParse (variant_name sq v))
        else case f_queries f of
          [BadQuery _ _] \<Rightarrow> Inl (VariantBad (variant_name sq v))
        | [SourceQ vq] \<Rightarrow> Inr (SourceQ (vq\<lparr>sq_group := sq_name sq, sq_variant := v_key v\<rparr>))
        | qs \<Rightarrow> Inl (VariantCount (variant_name sq v) (length qs)))"

fun variants_loop :: "(int \<Rightarrow> bool) \<Rightarrow> (string \<Rightarrow> parsed) \<Rightarrow> SortSpec \<Rightarrow> SourceQuery \<Rightarrow> variant list
    \<Rightarrow> Query list \<Rightarrow> (parse_msg + Query list) option" where
  "variants_loop uw sub spec sq [] out = Some (Inr out)"
| "variants_loop uw sub spec sq (v # vs) out =
     (case sub (variant_source uw spec sq v) of
        None \<Rightarrow> None
      | Some fe \<Rightarrow>
          (case check_variant sq v fe of
             Inl m \<Rightarrow> Some (Inl m)
           | Inr q \<Rightarrow> variants_loop uw sub spec sq vs (out @ [q])))"

definition fanOut :: "(int \<Rightarrow> bool) \<Rightarrow> (string \<Rightarrow> parsed) \<Rightarrow> SourceQuery \<Rightarrow> SortSpec
    \<Rightarrow> (parse_msg + Query list) option" where
  "fanOut uw sub sq spec =
     (let keyset = IsKeyset spec;
          hasKeyset = has_placeholder ''keyset'' (ss_name spec) (sq_sql sq) in
      if keyset \<and> \<not> hasKeyset then Some (Inl (NoKeysetInQuery (sq_name sq) (ss_name spec)))
      else if \<not> keyset \<and> hasKeyset then Some (Inl (KeysetWithoutCursor (sq_name sq) (ss_name spec)))
      else if \<not> has_placeholder ''orderby'' (ss_name spec) (sq_sql sq)
        then Some (Inl (NoOrderByInQuery (sq_name sq) (ss_name spec)))
      else variants_loop uw sub spec sq (spec_variants spec) [])"

text \<open>The loop over the queries of a file. An error leaves the queries of the file as they were,
  which is the result \<^term>\<open>None\<close> here.\<close>

fun expand_loop :: "(int \<Rightarrow> bool) \<Rightarrow> (string \<Rightarrow> parsed) \<Rightarrow> (string \<times> SortSpec) list \<Rightarrow> Query list
    \<Rightarrow> Query list \<Rightarrow> parser \<Rightarrow> (Query list option \<times> parser) outcome" where
  "expand_loop uw sub specs [] out p = Returns (Some out, p)"
| "expand_loop uw sub specs (BadQuery a b # qs) out p =
     expand_loop uw sub specs qs (out @ [BadQuery a b]) p"
| "expand_loop uw sub specs (SourceQ sq # qs) out p =
     (if Paginate (sq_pragmas sq) = [] then expand_loop uw sub specs qs (out @ [SourceQ sq]) p
      else case map_of specs (Paginate (sq_pragmas sq)) of
        None \<Rightarrow> ob (p_error (sq_start sq) (UnknownSortSpec (sq_name sq) (Paginate (sq_pragmas sq))) p)
                  (\<lambda>p1. Returns (None, p1))
      | Some spec \<Rightarrow>
          if OutputType (sq_pragmas sq) = [] then
            ob (p_error (sq_start sq) (NoOutputPragma (sq_name sq) (Paginate (sq_pragmas sq))) p)
              (\<lambda>p1. Returns (None, p1))
          else case fanOut uw sub sq spec of
            None \<Rightarrow> Diverges
          | Some (Inl m) \<Rightarrow> ob (p_error (sq_start sq) m p) (\<lambda>p1. Returns (None, p1))
          | Some (Inr vs) \<Rightarrow> expand_loop uw sub specs qs (out @ vs) p)"

definition expandPaginatedQueries :: "(int \<Rightarrow> bool) \<Rightarrow> (string \<Rightarrow> parsed) \<Rightarrow> File \<Rightarrow> parser
    \<Rightarrow> (File \<times> parser) outcome" where
  "expandPaginatedQueries uw sub f p =
     (case collectSortSpecs (f_comments f) of
        Inl e \<Rightarrow> ob (p_error 1 (SortSpecError e) p) (\<lambda>p1. Returns (f, p1))
      | Inr specs \<Rightarrow>
          ob (expand_loop uw sub specs (f_queries f) [] p) (\<lambda>(res, p1).
            Returns (case res of None \<Rightarrow> f | Some qs \<Rightarrow> f\<lparr>f_queries := qs\<rparr>, p1)))"

subsection \<open>Files\<close>

definition p_init :: "(int \<Rightarrow> bool) \<Rightarrow> string \<Rightarrow> parser" where
  "p_init ul src =
     p_next ul \<lparr>p_sc = scanner_Init ScanMsg src, p_comments = [], p_lead = None, p_pos = 0,
                p_tok = Illegal, p_lit = []\<rparr>"

text \<open>\<^verbatim>\<open>parseFile\<close> returns no file if the first token could not be scanned. The fuel is that of the
  loops over the tokens of a query and over the queries.\<close>

definition parseFile :: "(int \<Rightarrow> bool) \<Rightarrow> (int \<Rightarrow> bool) \<Rightarrow> nat \<Rightarrow> (string \<Rightarrow> parsed) \<Rightarrow> Placeholder
    \<Rightarrow> parser \<Rightarrow> (File option \<times> parser) outcome" where
  "parseFile ul uw n sub ph p =
     (if sc_errs (p_sc p) \<noteq> [] then Returns (None, p)
      else ob (queries_loop ul n n ph [] p) (\<lambda>(qs, p1).
        let f = \<lparr>f_name = [], f_doc = p_lead p, f_queries = qs, f_comments = p_comments p1\<rparr> in
        if sc_errs (p_sc p1) = []
        then ob (expandPaginatedQueries uw sub f p1) (\<lambda>(f', p2). Returns (Some f', p2))
        else Returns (Some f, p1)))"

definition empty_file :: "string \<Rightarrow> File" where
  "empty_file name = \<lparr>f_name = name, f_doc = None, f_queries = [], f_comments = []\<rparr>"

text \<open>\<^verbatim>\<open>ParseFileDialect\<close> on a source that has been read; errors are sorted by position. The variants
  of a paginated query are parsed by \<^verbatim>\<open>ParseFile\<close> itself; \<open>d\<close> is the fuel of that nesting.\<close>

definition finish_file :: "string \<Rightarrow> (File option \<times> parser) outcome \<Rightarrow> parsed" where
  "finish_file filename res =
     (case res of
        Returns (Some f, p) \<Rightarrow> Some (f, sort_key err_offset (sc_errs (p_sc p)))
      | Returns (None, p) \<Rightarrow> Some (empty_file filename, sort_key err_offset (sc_errs (p_sc p)))
      | Bailout p \<Rightarrow> Some (empty_file filename, sort_key err_offset (sc_errs (p_sc p)))
      | Diverges \<Rightarrow> None)"

primrec parse_nested :: "(int \<Rightarrow> bool) \<Rightarrow> (int \<Rightarrow> bool) \<Rightarrow> nat \<Rightarrow> nat \<Rightarrow> Placeholder \<Rightarrow> string \<Rightarrow> string
    \<Rightarrow> parsed" where
  "parse_nested ul uw n 0 ph filename src = None"
| "parse_nested ul uw n (Suc d) ph filename src =
     finish_file filename
       (parseFile ul uw n (parse_nested ul uw n d PostgresPlaceholder []) ph (p_init ul src))"

definition ParseFileDialect :: "(int \<Rightarrow> bool) \<Rightarrow> (int \<Rightarrow> bool) \<Rightarrow> nat \<Rightarrow> Placeholder \<Rightarrow> string \<Rightarrow> string
    \<Rightarrow> parsed" where
  "ParseFileDialect ul uw n ph filename src = parse_nested ul uw n n ph filename src"

definition ParseFile :: "(int \<Rightarrow> bool) \<Rightarrow> (int \<Rightarrow> bool) \<Rightarrow> nat \<Rightarrow> string \<Rightarrow> string \<Rightarrow> parsed" where
  "ParseFile ul uw n filename src = ParseFileDialect ul uw n PostgresPlaceholder filename src"

end
