(* ===== verification/ScanInv.thy ===== *)
theory ScanInv
  imports ScannerFacts
begin

text \<open>
  Invariants of the scanner. Every scanning function is built from \<^verbatim>\<open>next\<close> and \<^verbatim>\<open>error\<close>, so what
  these two keep, all of them keep.
\<close>

locale scan_inv =
  fixes inv :: "'m scanner \<Rightarrow> bool"
  assumes inv_next: "inv s \<Longrightarrow> inv (sc_next s)"
    and inv_error: "inv s \<Longrightarrow> inv (sc_error k m s)"
    and inv_prev: "inv s \<Longrightarrow> inv (s\<lparr>sc_prev := t\<rparr>)"
begin

lemma inv_next_while: "inv s \<Longrightarrow> inv (next_while P s)"
proof (induction P s rule: next_while.induct)
  case (1 P s)
  then show ?case by (subst next_while.simps) (auto intro: inv_next)
qed

lemma inv_next_times: "inv s \<Longrightarrow> inv (next_times n s)"
  by (induction n) (simp_all add: next_times_def inv_next)

lemma inv_block_loop: "block_loop d s = (b, s') \<Longrightarrow> inv s \<Longrightarrow> inv s'"
proof (induction d s rule: block_loop.induct)
  case (1 d s)
  then show ?case
    using inv_next [of s] inv_next [of "sc_next s"]
    by (subst (asm) (4) block_loop.simps) (auto split: if_splits)
qed

lemma inv_quote_loop: "quote_loop q s = (b, s') \<Longrightarrow> inv s \<Longrightarrow> inv s'"
proof (induction q s rule: quote_loop.induct)
  case (1 q s)
  then show ?case
    using inv_next [of s] inv_next [of "sc_next s"]
    by (subst (asm) (3) quote_loop.simps) (auto split: if_splits)
qed

lemma inv_tag_loop: "tag_loop ul offs s = (m, s') \<Longrightarrow> inv s \<Longrightarrow> inv s'"
proof (induction ul offs s rule: tag_loop.induct)
  case (1 ul offs s)
  then show ?case
    using inv_next [of s] by (subst (asm) (2) tag_loop.simps) (auto split: if_splits)
qed

lemma inv_fragment_loop: "inv s \<Longrightarrow> inv (fragment_loop ul s)"
proof (induction ul s rule: fragment_loop.induct)
  case (1 ul s)
  then show ?case
    using inv_next [of s] inv_next_while [of s "\<lambda>ch. ident_rune ul ch \<or> ch = rune CHR ''$''"]
    by (subst fragment_loop.simps) auto
qed

lemma inv_dollar:
  assumes "scanDollarQuoteString ul s = (tok, lit, s')" "inv s"
  shows "inv s'"
proof -
  obtain m s1 where t: "tag_loop ul (sc_offset s) (sc_next s) = (m, s1)"
    by (cases "tag_loop ul (sc_offset s) (sc_next s)")
  have "inv s1" using inv_tag_loop [OF t] inv_next [OF assms(2)] .
  then show ?thesis
    using assms(1) t
    by (auto simp: scanDollarQuoteString_def Let_def inv_error inv_next inv_next_times split: option.splits)
qed

lemma inv_scan_token:
  assumes "scan_token ul s = (tok, lit, s')" "inv s"
  shows "inv s'"
proof -
  obtain b1 s1 where b: "block_loop 1 (sc_next (sc_next s)) = (b1, s1)"
    by (cases "block_loop 1 (sc_next (sc_next s))")
  obtain b2 s2 where q: "quote_loop CHR 0x27 (sc_next s) = (b2, s2)" by (cases "quote_loop CHR 0x27 (sc_next s)")
  obtain b3 s3 where dq: "quote_loop CHR 0x22 (sc_next s) = (b3, s3)" by (cases "quote_loop CHR 0x22 (sc_next s)")
  obtain t4 l4 s4 where d: "scanDollarQuoteString ul s = (t4, l4, s4)" by (cases "scanDollarQuoteString ul s")
  have "inv s1" "inv s2" "inv s3" "inv s4"
    using inv_block_loop [OF b] inv_quote_loop [OF q] inv_quote_loop [OF dq] inv_dollar [OF d]
      inv_next assms(2) by blast+
  then show ?thesis
    using assms b q dq d inv_next_while [OF assms(2)] inv_fragment_loop [OF assms(2)] inv_next [OF assms(2)]
    by (auto simp: scan_token_def scanLineComment_def scanQueryFragment_def scanBlockComment_def
        scanSingleQuoteString_def scanDoubleQuoteString_def Let_def inv_error split: if_splits)
qed

lemma inv_Scan:
  assumes "Scan ul s = (pos, tok, lit, s')" "inv s"
  shows "inv s'"
proof -
  obtain s2 where t: "scan_token ul (skipWhitespace s) = (tok, lit, s2)" and s': "s' = s2\<lparr>sc_prev := tok\<rparr>"
    using assms by (cases "scan_token ul (skipWhitespace s)") (auto simp: Scan_def Let_def)
  have "inv (skipWhitespace s)" using assms(2) by (simp add: skipWhitespace_def inv_next_while)
  with inv_scan_token [OF t] s' show ?thesis by (simp add: inv_prev)
qed

end

text \<open>A source without NUL bytes: the current rune is never 0.\<close>

definition no_nul :: "'m scanner \<Rightarrow> bool" where
  "no_nul s \<longleftrightarrow> CHR 0x00 \<notin> set (sc_src s) \<and> sc_ch s \<noteq> 0"

lemma read_rune_no_nul:
  assumes "sc_rdOffset s < length (sc_src s)" "CHR 0x00 \<notin> set (sc_src s)" "read_rune s = (r, w, e)"
  shows "r \<noteq> 0"
proof -
  let ?d = "drop (sc_rdOffset s) (sc_src s)"
  have d: "?d = sc_src s ! sc_rdOffset s # drop (Suc (sc_rdOffset s)) (sc_src s)"
    using assms(1) by (simp add: Cons_nth_drop_Suc)
  obtain r' w' where dr: "DecodeRune ?d = (r', w')" by (cases "DecodeRune ?d")
  have "sc_src s ! sc_rdOffset s \<noteq> CHR 0x00" using assms(1,2) nth_mem by metis
  then have "rune (sc_src s ! sc_rdOffset s) \<noteq> 0"
    using rune_pos(1) [of _ "CHR 0x00"] by (simp add: rune_def)
  moreover have "r' \<noteq> 0" if "rune (sc_src s ! sc_rdOffset s) \<ge> 0x80"
    using DecodeRune_wide [OF dr [unfolded d]] that by (simp add: rune_def)
  ultimately show ?thesis
    using assms(3) dr by (auto simp: read_rune_def Let_def split: if_splits)
qed

lemma sc_next_no_nul:
  assumes "no_nul s"
  shows "no_nul (sc_next s)"
proof (cases "sc_rdOffset s < length (sc_src s)")
  case True
  let ?s2 = "if sc_ch s = rune CHR 0x0A then AddLine (sc_rdOffset s) (s\<lparr>sc_offset := sc_rdOffset s\<rparr>)
      else s\<lparr>sc_offset := sc_rdOffset s\<rparr>"
  obtain r w e where r: "read_rune ?s2 = (r, w, e)" by (cases "read_rune ?s2")
  have eq: "sc_rdOffset ?s2 = sc_rdOffset s" "sc_src ?s2 = sc_src s" by simp_all
  have "r \<noteq> 0" using read_rune_no_nul [OF _ _ r, unfolded eq, OF True] assms by (simp add: no_nul_def)
  moreover have "sc_ch (sc_next s) = r" using True r by (auto simp: sc_next_def Let_def)
  ultimately show ?thesis using assms by (simp add: no_nul_def)
next
  case False
  then have "sc_ch (sc_next s) = eof" by (auto simp: sc_next_def Let_def)
  with assms show ?thesis by (simp add: no_nul_def eof_def)
qed

interpretation nul: scan_inv no_nul
proof
  fix s :: "'a scanner"
  assume "no_nul s"
  then show "no_nul (sc_next s)" by (rule sc_next_no_nul)
  show "no_nul (sc_error k m s)" "no_nul (s\<lparr>sc_prev := t\<rparr>)" for k m t
    using \<open>no_nul s\<close> by (simp_all add: no_nul_def)
qed

lemma scanner_Init_no_nul:
  assumes "CHR 0x00 \<notin> set src"
  shows "no_nul (scanner_Init wrap src)"
proof -
  let ?s0 = "\<lparr>sc_src = src, sc_ch = rune CHR '' '', sc_offset = 0, sc_rdOffset = 0, sc_prev = Illegal,
      sc_prevCh = 0, sc_lines = [0], sc_errs = [], sc_wrap = wrap\<rparr>"
  have "no_nul ?s0" using assms by (simp add: no_nul_def rune_def)
  then show ?thesis by (simp add: scanner_Init_def Let_def sc_next_no_nul)
qed

text \<open>In such a source, every token but the last brings the scanner closer to the end.\<close>

lemma Scan_progress:
  assumes "sc_ok s" "no_nul s" "Scan ul s = (pos, tok, lit, s')" "tok \<noteq> EOF"
  shows "todo s' < todo s"
proof -
  have "no_nul s'" by (rule nul.inv_Scan [OF assms(3,2)])
  with Scan_ok(7) [OF assms(1,3)] assms(4) show ?thesis by (auto simp: no_nul_def)
qed

end
