(* ===== verification/ParserFacts.thy ===== *)
theory ParserFacts
  imports QueryParser ScanInv
begin

text \<open>
  Facts about the query parser: tokens follow one another in the source, the arguments that are
  found lie one after the other inside the query, and the loops over the tokens come to an end
  unless the file has a NUL byte.
\<close>

subsection \<open>From token to token\<close>

text \<open>The look-ahead token lies before the scanner, and its literal is the text it covers.\<close>

definition p_ok :: "parser \<Rightarrow> bool" where
  "p_ok p \<longleftrightarrow> sc_ok (p_sc p) \<and> 1 \<le> p_pos p \<and> p_pos p \<le> sc_offset (p_sc p) + 1 \<and>
     (p_tok p \<noteq> Illegal \<and> p_tok p \<noteq> Semicolon \<longrightarrow>
        p_lit p = take (sc_offset (p_sc p) - (p_pos p - 1)) (drop (p_pos p - 1) (p_src p))) \<and>
     (p_tok p = Semicolon \<longrightarrow> p_pos p \<le> sc_offset (p_sc p))"

text \<open>\<open>q\<close> has a later token than \<open>p\<close>.\<close>

definition nxt :: "parser \<Rightarrow> parser \<Rightarrow> bool" where
  "nxt p q \<longleftrightarrow> p_ok q \<and> later (p_sc p) (p_sc q) \<and> sc_offset (p_sc p) + 1 \<le> p_pos q \<and>
     (no_nul (p_sc p) \<longrightarrow> no_nul (p_sc q) \<and> (p_tok q \<noteq> EOF \<longrightarrow> todo (p_sc q) < todo (p_sc p)))"

lemma nxt_trans: "nxt p q \<Longrightarrow> nxt q r \<Longrightarrow> nxt p r"
  by (auto simp: nxt_def later_def)

lemma nxt_cong:
  "p_sc p' = p_sc p \<Longrightarrow> nxt p' q = nxt p q"
  by (simp add: nxt_def)

lemma semicolon_pos:
  assumes "sc_ok s" "Scan ul s = (pos, Semicolon, lit, s')"
  shows "pos \<le> sc_offset s'"
proof -
  let ?s1 = "skipWhitespace s"
  obtain s2 where t: "scan_token ul ?s1 = (Semicolon, lit, s2)" and pos: "pos = sc_offset ?s1 + 1"
    and s': "s' = s2\<lparr>sc_prev := Semicolon\<rparr>"
    using assms(2) by (cases "scan_token ul ?s1") (auto simp: Scan_def Let_def)
  have s1: "sc_ok ?s1" using next_while_facts [OF assms(1)] by (simp add: skipWhitespace_def)
  have "fst (scanBlockComment ?s1) \<noteq> Semicolon" "fst (scanSingleQuoteString ?s1) \<noteq> Semicolon"
    "fst (scanDoubleQuoteString ?s1) \<noteq> Semicolon" "fst (scanDollarQuoteString ul ?s1) \<noteq> Semicolon"
    by (simp_all add: scanBlockComment_def scanSingleQuoteString_def scanDoubleQuoteString_def
        scanDollarQuoteString_def Let_def split: prod.split option.split)
  then have "s2 = sc_next ?s1" "sc_ch ?s1 \<noteq> eof"
    using t by (auto simp: scan_token_def scanQueryFragment_def Let_def split: if_splits prod.splits)
  then have "sc_offset ?s1 < sc_offset s2"
    using s1 by (cases ?s1 rule: sc_next_cases) (auto simp: sc_ok_def)
  with pos s' show ?thesis by simp
qed

lemma next0_nxt:
  assumes "sc_ok (p_sc p)"
  shows "nxt p (next0 ul p)"
proof -
  obtain pos tok lit s where sc: "Scan ul (p_sc p) = (pos, tok, lit, s)" by (cases "Scan ul (p_sc p)") auto
  note ok = Scan_ok [OF assms sc]
  have "no_nul s" if "no_nul (p_sc p)" using nul.inv_Scan [OF sc that] .
  moreover have "todo s < todo (p_sc p)" if "no_nul (p_sc p)" "tok \<noteq> EOF"
    using Scan_progress [OF assms that(1) sc that(2)] .
  moreover have "pos \<le> sc_offset s" if "tok = Semicolon"
    using semicolon_pos [OF assms] sc that by blast
  ultimately show ?thesis
    using ok sc by (auto simp: nxt_def p_ok_def next0_def later_def)
qed

lemma nxt_sc_ok: "nxt p q \<Longrightarrow> sc_ok (p_sc q)"
  by (simp add: nxt_def p_ok_def)

lemma nxt_comments: "nxt p (q\<lparr>p_comments := cs\<rparr>) = nxt p q" "nxt p (q\<lparr>p_lead := l\<rparr>) = nxt p q"
  by (simp_all add: nxt_def p_ok_def)

lemma group_loop_nxt:
  "group_loop ul n e l p = (l', e', p') \<Longrightarrow> sc_ok (p_sc p) \<Longrightarrow>
     (p' = p \<and> \<not> (p_tok p = LineComment \<and> p_line p (p_pos p) \<le> e + n)) \<or> nxt p p'"
proof (induction ul n e l p rule: group_loop.induct)
  case (1 ul n e l p)
  show ?case
  proof (cases "p_tok p = LineComment \<and> p_line p (p_pos p) \<le> e + n")
    case True
    note n0 = next0_nxt [OF 1(3), of ul]
    have "p' = next0 ul p \<or> nxt (next0 ul p) p'"
      using 1(1,2) True nxt_sc_ok [OF n0]
      by (subst (asm) (2) group_loop.simps) (auto simp: consumeComment_def)
    with n0 show ?thesis by (auto intro: nxt_trans)
  next
    case False
    with 1(2) show ?thesis by (auto simp: group_loop.simps)
  qed
qed

lemma group_nxt:
  assumes "consumeCommentGroup ul n p = (g, e, p')" "sc_ok (p_sc p)" "p_tok p = LineComment"
  shows "nxt p p'"
  using assms group_loop_nxt [of ul n "p_line p (p_pos p)" "[]" p]
  by (auto simp: consumeCommentGroup_def nxt_comments split: prod.splits)

lemma groups_loop_nxt:
  "groups_loop ul st p = (st', p') \<Longrightarrow> sc_ok (p_sc p) \<Longrightarrow>
     p_tok p' \<noteq> LineComment \<and> (p' = p \<or> nxt p p')"
proof (induction ul st p rule: groups_loop.induct)
  case (1 ul st p)
  show ?case
  proof (cases "p_tok p = LineComment")
    case True
    obtain g e p1 where c: "consumeCommentGroup ul 1 p = (g, e, p1)" by (cases "consumeCommentGroup ul 1 p")
    have n: "nxt p p1" using group_nxt [OF c 1(3) True] .
    have "p_tok p' \<noteq> LineComment \<and> (p' = p1 \<or> nxt p1 p')"
      using 1(1) [OF True c [symmetric] refl] 1(2) True c nxt_sc_ok [OF n]
      by (subst (asm) (2) groups_loop.simps) simp
    with n show ?thesis by (auto intro: nxt_trans)
  next
    case False
    with 1(2) show ?thesis by (auto simp: groups_loop.simps)
  qed
qed

lemma p_next_nxt:
  assumes "sc_ok (p_sc p)"
  shows "nxt p (p_next ul p)" "p_tok (p_next ul p) \<noteq> LineComment"
proof -
  define p1 where "p1 = next0 ul (p\<lparr>p_lead := None\<rparr>)"
  have n1: "nxt p p1"
    using next0_nxt [of "p\<lparr>p_lead := None\<rparr>" ul] assms by (simp add: p1_def nxt_def)
  define first where "first = (if p_line p1 (p_pos p1) = p_line p1 (p_pos p) then
      (case consumeCommentGroup ul 0 p1 of (g, e, p2) \<Rightarrow> ((Some g, e), p2)) else ((None, 0), p1))"
  obtain c e p3 where g: "groups_loop ul (fst first) (snd first) = ((c, e), p3)"
    by (metis prod.collapse)
  have pn: "p_next ul p = (if p_tok p1 = LineComment then
      (if e + 1 = p_line p3 (p_pos p3) then p3\<lparr>p_lead := c\<rparr> else p3) else p1)"
    unfolding p_next_def Let_def p1_def [symmetric] first_def [symmetric] g by simp
  show "nxt p (p_next ul p)" "p_tok (p_next ul p) \<noteq> LineComment"
  proof -
    have "p_tok (p_next ul p) \<noteq> LineComment \<and> nxt p (p_next ul p)"
    proof (cases "p_tok p1 = LineComment")
      case True
      have f: "nxt p (snd first)"
      proof (cases "p_line p1 (p_pos p1) = p_line p1 (p_pos p)")
        case same: True
        obtain g0 e0 p2 where c0: "consumeCommentGroup ul 0 p1 = (g0, e0, p2)"
          by (cases "consumeCommentGroup ul 0 p1")
        from group_nxt [OF c0 nxt_sc_ok [OF n1] True] n1 same c0 show ?thesis
          by (auto simp: first_def intro: nxt_trans)
      qed (use n1 in \<open>simp add: first_def\<close>)
      from groups_loop_nxt [OF g nxt_sc_ok [OF f]] f have "p_tok p3 \<noteq> LineComment" "nxt p p3"
        by (auto intro: nxt_trans)
      with True pn show ?thesis by (simp add: nxt_comments)
    qed (use n1 pn in simp)
    then show "nxt p (p_next ul p)" "p_tok (p_next ul p) \<noteq> LineComment" by simp_all
  qed
qed

lemma p_init_ok:
  shows "p_ok (p_init ul src)" "p_src (p_init ul src) = src"
    "CHR 0x00 \<notin> set src \<Longrightarrow> no_nul (p_sc (p_init ul src))"
    "todo (p_sc (p_init ul src)) \<le> length src + 1"
proof -
  let ?p = "\<lparr>p_sc = scanner_Init ScanMsg src, p_comments = [], p_lead = None, p_pos = 0,
      p_tok = Illegal, p_lit = []\<rparr>"
  have n: "nxt ?p (p_init ul src)"
    unfolding p_init_def by (rule p_next_nxt) (simp add: scanner_Init_ok)
  show "p_ok (p_init ul src)" using n by (simp add: nxt_def)
  show "p_src (p_init ul src) = src" using n by (simp add: nxt_def later_def)
  show "CHR 0x00 \<notin> set src \<Longrightarrow> no_nul (p_sc (p_init ul src))"
    using n scanner_Init_no_nul [of src ScanMsg] by (simp add: nxt_def)
  have "todo (scanner_Init ScanMsg src) \<le> length src + 1"
    by (simp add: todo_def)
  with n show "todo (p_sc (p_init ul src)) \<le> length src + 1" by (simp add: nxt_def later_def)
qed

subsection \<open>Errors\<close>

text \<open>Reporting an error changes nothing but the list of errors.\<close>

definition with_errs :: "parse_msg file_error list \<Rightarrow> parser \<Rightarrow> parser" where
  "with_errs es p = p\<lparr>p_sc := (p_sc p)\<lparr>sc_errs := sc_errs (p_sc p) @ es\<rparr>\<rparr>"

lemma with_errs_simps [simp]:
  "p_pos (with_errs es p) = p_pos p" "p_tok (with_errs es p) = p_tok p" "p_lit (with_errs es p) = p_lit p"
  "todo (p_sc (with_errs es p)) = todo (p_sc p)" "sc_offset (p_sc (with_errs es p)) = sc_offset (p_sc p)"
  "p_src (with_errs es p) = p_src p" "sc_ok (p_sc (with_errs es p)) = sc_ok (p_sc p)"
  "no_nul (p_sc (with_errs es p)) = no_nul (p_sc p)" "p_ok (with_errs es p) = p_ok p"
  by (simp_all add: with_errs_def todo_def sc_ok_def no_nul_def p_ok_def)

lemma with_errs_Nil: "with_errs [] p = p"
  by (simp add: with_errs_def)

lemma p_error_with_errs: "p_error pos m p = Returns p' \<Longrightarrow> \<exists>es. p' = with_errs es p"
  by (auto simp: p_error_def Let_def with_errs_def split: if_splits intro: exI [of _ "[]"])

lemma p_error_not_Diverges: "p_error pos m p \<noteq> Diverges"
  by (simp add: p_error_def Let_def)

lemma ob_error [simp]: "(\<And>q. f q \<noteq> Diverges) \<Longrightarrow> ob (p_error pos m p) f \<noteq> Diverges"
  using p_error_not_Diverges [of pos m p] by (cases "p_error pos m p") auto

lemma nxt_with_errs: "nxt p q \<Longrightarrow> nxt p (with_errs es q)"
  by (auto simp: nxt_def later_def) (auto simp: with_errs_def)

lemma with_errs_nxt: "nxt (with_errs es p) q \<Longrightarrow> nxt p q"
  by (auto simp: nxt_def later_def) (auto simp: with_errs_def)

text \<open>Where the functions of the parser take it: to a later token, or nowhere.\<close>

definition reach :: "parser \<Rightarrow> parser \<Rightarrow> bool" where
  "reach p q \<longleftrightarrow> nxt p q \<or> (\<exists>es. q = with_errs es p)"

lemma reach_nxt: "nxt p q \<Longrightarrow> reach q r \<Longrightarrow> nxt p r"
  by (auto simp: reach_def intro: nxt_trans nxt_with_errs)

lemma reach_ok: "reach p q \<Longrightarrow> p_ok p \<Longrightarrow> p_ok q"
  by (auto simp: reach_def nxt_def)

lemma reach_nxt2: "reach p q \<Longrightarrow> nxt q r \<Longrightarrow> nxt p r"
  by (auto simp: reach_def intro: nxt_trans with_errs_nxt)

subsection \<open>Arguments\<close>

lemma LastIndex_bounds:
  "- 1 \<le> LastIndex s w"
  "0 \<le> LastIndex s w \<Longrightarrow> nat (LastIndex s w) + length w \<le> length s \<and> prefix w (drop (nat (LastIndex s w)) s)"
proof (induction s)
  case (Cons x s)
  {
    case 1
    show ?case using Cons(1) by (auto simp: Let_def)
  next
    case 2
    show ?case
    proof (cases "0 \<le> LastIndex s w")
      case True
      then have "nat (1 + LastIndex s w) = Suc (nat (LastIndex s w))" by simp
      with Cons(2) True show ?thesis by (simp add: add.commute)
    next
      case False
      with 2 show ?thesis by (auto simp: Let_def prefix_length_le split: if_splits dest: prefix_length_le)
    qed
  }
qed (auto split: if_splits)

lemma LastIndex_found: "prefix w (drop k s) \<Longrightarrow> k \<le> length s \<Longrightarrow> 0 \<le> LastIndex s w"
proof (induction s arbitrary: k)
  case (Cons x s)
  then show ?case by (cases k) (auto simp: Let_def)
qed (auto split: if_splits)

lemma has_pggen_arg_index:
  assumes "has_pggen_arg lit"
  shows "0 \<le> LastIndex lit ''pggen''"
proof -
  from assms obtain u v where "lit = u @ ''pggen'' @ v"
    by (auto simp: has_pggen_arg_def suffix_def)
  then show ?thesis by (intro LastIndex_found [of _ "length u"]) auto
qed

text \<open>An argument that was read: it starts inside the fragment before it and ends with the
  parenthesis that the next fragment starts with.\<close>

lemma parsePggenArg_facts:
  assumes "parsePggenArg ul p = Returns (r, q)" "p_ok p" "p_tok p = QueryFragment" "has_pggen_arg (p_lit p)"
  shows "nxt p q"
    "r = Some a \<Longrightarrow> a_hi a = int (p_pos q) \<and> a_lo a < a_hi a \<and> p_tok q = QueryFragment \<and>
       prefix '')'' (p_lit q) \<and> int (p_pos p) - 1 \<le> a_lo a \<and>
       (prefix '')'' (p_lit p) \<longrightarrow> int (p_pos p) \<le> a_lo a)"
proof -
  let ?L = "LastIndex (p_lit p) ''pggen''"
  define p1 where "p1 = p_next ul p"
  define p2 where "p2 = p_next ul p1"
  have ok: "sc_ok (p_sc p)" using assms(2) by (simp add: p_ok_def)
  have n1: "nxt p p1" unfolding p1_def by (rule p_next_nxt(1) [OF ok])
  have n2: "nxt p1 p2" unfolding p2_def by (rule p_next_nxt(1) [OF nxt_sc_ok [OF n1]])
  have n12: "nxt p p2" using n1 n2 by (rule nxt_trans)
  show "nxt p q"
    using assms(1) n1 n12
    by (auto simp: parsePggenArg_def Let_def p1_def [symmetric] p2_def [symmetric] ob_Returns
        split: if_splits dest!: p_error_with_errs intro: nxt_with_errs)
  have L: "0 \<le> ?L" "nat ?L + 5 \<le> length (p_lit p)" "prefix ''pggen'' (drop (nat ?L) (p_lit p))"
    using LastIndex_bounds(2) [of "p_lit p" "''pggen''"] has_pggen_arg_index [OF assms(4)] by auto
  have "length (p_lit p) \<le> sc_offset (p_sc p) - (p_pos p - 1)" "1 \<le> p_pos p" "p_pos p \<le> sc_offset (p_sc p) + 1"
    using assms(2,3) by (auto simp: p_ok_def)
  moreover have "sc_offset (p_sc p) + 1 \<le> p_pos p2" using n12 by (simp add: nxt_def)
  ultimately have lt: "int (p_pos p) + ?L - 1 < int (p_pos p2)" using L by linarith
  have paren: "1 \<le> ?L" if "prefix '')'' (p_lit p)"
  proof (rule ccontr)
    assume "\<not> 1 \<le> ?L"
    with L(1) have "?L = 0" by simp
    with L(3) that show False by (auto simp: prefix_def)
  qed
  assume "r = Some a"
  then show "a_hi a = int (p_pos q) \<and> a_lo a < a_hi a \<and> p_tok q = QueryFragment \<and>
      prefix '')'' (p_lit q) \<and> int (p_pos p) - 1 \<le> a_lo a \<and>
      (prefix '')'' (p_lit p) \<longrightarrow> int (p_pos p) \<le> a_lo a)"
    using assms(1) lt L(1) paren
    by (auto simp: parsePggenArg_def Let_def p1_def [symmetric] p2_def [symmetric] ob_Returns
        split: if_splits)
qed

text \<open>Arguments that lie one behind the other, from \<open>prev\<close> up to \<open>lim\<close>.\<close>

fun args_in :: "int \<Rightarrow> argPos list \<Rightarrow> int \<Rightarrow> bool" where
  "args_in prev [] lim \<longleftrightarrow> prev \<le> lim"
| "args_in prev (a # as) lim \<longleftrightarrow> prev \<le> a_lo a \<and> a_lo a \<le> a_hi a \<and> args_in (a_hi a) as lim"

lemma args_in_snoc:
  "args_in prev (as @ [a]) lim \<longleftrightarrow> args_in prev as (a_lo a) \<and> a_lo a \<le> a_hi a \<and> a_hi a \<le> lim"
  by (induction as arbitrary: prev) auto

lemma args_in_mono: "args_in prev as lim \<Longrightarrow> lim \<le> lim' \<Longrightarrow> args_in prev as lim'"
  by (induction as arbitrary: prev) auto

lemma args_in_le: "args_in prev as lim \<Longrightarrow> prev \<le> lim"
  by (induction as arbitrary: prev) force+

text \<open>How far the arguments found so far may reach: up to the look-ahead token, and one byte into
  it when it starts with the closing parenthesis of the last argument.\<close>

definition arg_limit :: "nat \<Rightarrow> parser \<Rightarrow> int" where
  "arg_limit pos p = int (p_pos p) - int pos +
     (if p_tok p = QueryFragment \<and> prefix '')'' (p_lit p) then 1 else 0)"

lemma arg_limit_next:
  assumes "p_ok p" "nxt p q"
  shows "arg_limit pos p \<le> arg_limit pos q"
proof -
  have q: "sc_offset (p_sc p) + 1 \<le> p_pos q" using assms(2) by (simp add: nxt_def)
  have "int (p_pos p) + (if p_tok p = QueryFragment \<and> prefix '')'' (p_lit p) then 1 else 0)
      \<le> int (sc_offset (p_sc p)) + 1"
  proof (cases "p_tok p = QueryFragment \<and> prefix '')'' (p_lit p)")
    case True
    then have "1 \<le> length (p_lit p)" by (auto dest: prefix_length_le)
    with True assms(1) show ?thesis by (auto simp: p_ok_def)
  next
    case False
    with assms(1) show ?thesis by (auto simp: p_ok_def)
  qed
  with q show ?thesis by (auto simp: arg_limit_def)
qed

lemma query_loop_step:
  assumes "nxt p p1"
    and "p_ok p1 \<Longrightarrow> reach p1 q \<and> A \<and> B"
  shows "reach p q \<and> (p_tok q = EOF \<or> p_tok q = Illegal \<or> nxt p q \<or> C) \<and> B"
proof -
  have "p_ok p1" using assms(1) by (simp add: nxt_def)
  with assms(2) have "reach p1 q" B by simp_all
  then show ?thesis using reach_nxt [OF assms(1)] by (simp add: reach_def)
qed

lemma query_loop_facts:
  "query_loop ul n pos names p = Returns (r, q) \<Longrightarrow> p_ok p \<Longrightarrow> args_in 0 names (arg_limit pos p) \<Longrightarrow>
     reach p q \<and> (p_tok q = EOF \<or> p_tok q = Illegal \<or> nxt p q \<or> q = p \<and> p_tok q = Semicolon \<and> r \<noteq> None) \<and>
     (\<forall>names'. r = Some names' \<longrightarrow> p_tok q = Semicolon \<and> args_in 0 names' (arg_limit pos q))"
proof (induction n arbitrary: names p)
  case (Suc n)
  have ok: "sc_ok (p_sc p)" using Suc.prems(2) by (simp add: p_ok_def)
  consider (semi) "p_tok p = Semicolon" | (stop) "p_tok p = EOF \<or> p_tok p = Illegal"
    | (arg) "p_tok p \<noteq> Semicolon" "p_tok p \<noteq> EOF" "p_tok p \<noteq> Illegal"
        "p_tok p = QueryFragment \<and> has_pggen_arg (p_lit p)"
    | (go) "p_tok p \<noteq> Semicolon" "p_tok p \<noteq> EOF" "p_tok p \<noteq> Illegal"
        "\<not> (p_tok p = QueryFragment \<and> has_pggen_arg (p_lit p))" by blast
  then show ?case
  proof cases
    case semi
    with Suc.prems show ?thesis by (auto simp: reach_def intro: exI [of _ "[]"] simp: with_errs_Nil)
  next
    case stop
    with Suc.prems show ?thesis by (auto simp: ob_Returns reach_def dest!: p_error_with_errs)
  next
    case go
    have n1: "nxt p (p_next ul p)" by (rule p_next_nxt(1) [OF ok])
    have "args_in 0 names (arg_limit pos (p_next ul p))"
      using Suc.prems(3) arg_limit_next [OF Suc.prems(2) n1] by (rule args_in_mono)
    moreover have "query_loop ul n pos names (p_next ul p) = Returns (r, q)"
      using Suc.prems(1) go by simp
    ultimately show ?thesis using query_loop_step [OF n1 Suc.IH] by blast
  next
    case arg
    obtain r1 p1 where pa: "parsePggenArg ul p = Returns (r1, p1)"
      using Suc.prems(1) arg by (auto simp: ob_Returns)
    note f = parsePggenArg_facts [OF pa Suc.prems(2)] 
    have n1: "nxt p p1" using f(1) arg by blast
    show ?thesis
    proof (cases r1)
      case None
      with Suc.prems(1) arg pa n1 show ?thesis by (auto simp: reach_def)
    next
      case (Some a)
      define b where "b = a\<lparr>a_lo := a_lo a - (int pos - 1), a_hi := a_hi a - (int pos - 1)\<rparr>"
      have rec: "query_loop ul n pos (names @ [b]) p1 = Returns (r, q)"
        using Suc.prems(1) arg pa Some by (auto simp: b_def)
      have a: "a_hi a = int (p_pos p1)" "a_lo a < a_hi a" "p_tok p1 = QueryFragment" "prefix '')'' (p_lit p1)"
        "int (p_pos p) - 1 \<le> a_lo a" "prefix '')'' (p_lit p) \<longrightarrow> int (p_pos p) \<le> a_lo a"
        using f(2) arg Some by blast+
      then have "arg_limit pos p \<le> a_lo b" "a_lo b \<le> a_hi b" "a_hi b \<le> arg_limit pos p1"
        by (auto simp: arg_limit_def b_def)
      then have "args_in 0 (names @ [b]) (arg_limit pos p1)"
        using Suc.prems(3) by (auto simp: args_in_snoc intro: args_in_mono)
      then show ?thesis using query_loop_step [OF n1 Suc.IH [OF rec]] by blast
    qed
  qed
qed simp

text \<open>Fuel: one unit per token that is left.\<close>

definition enough :: "nat \<Rightarrow> parser \<Rightarrow> bool" where
  "enough n p \<longleftrightarrow> todo (p_sc p) + 2 \<le> n \<or> 1 \<le> n \<and> (p_tok p = EOF \<or> p_tok p = Illegal)"

lemma enough_next: "nxt p q \<Longrightarrow> no_nul (p_sc p) \<Longrightarrow> todo (p_sc p) + 2 \<le> Suc n \<Longrightarrow> enough n q"
  by (cases "p_tok q = EOF") (auto simp: enough_def nxt_def)

lemma query_loop_returns:
  "p_ok p \<Longrightarrow> no_nul (p_sc p) \<Longrightarrow> enough n p \<Longrightarrow> query_loop ul n pos names p \<noteq> Diverges"
proof (induction n arbitrary: names p)
  case (Suc n)
  have ok: "sc_ok (p_sc p)" using Suc.prems(1) by (simp add: p_ok_def)
  show ?case
  proof (cases "p_tok p = EOF \<or> p_tok p = Illegal \<or> p_tok p = Semicolon")
    case True
    then show ?thesis by auto
  next
    case False
    then have t: "todo (p_sc p) + 2 \<le> Suc n" using Suc.prems(3) by (simp add: enough_def)
    have go: "query_loop ul n pos names' q \<noteq> Diverges" if "nxt p q" for names' q
      using Suc.IH [of q names'] that enough_next [OF that Suc.prems(2) t] Suc.prems(2)
      by (auto simp: nxt_def)
    show ?thesis
    proof (cases "p_tok p = QueryFragment \<and> has_pggen_arg (p_lit p)")
      case True
      have "parsePggenArg ul p \<noteq> Diverges"
        by (simp add: parsePggenArg_def Let_def)
      moreover have "nxt p q" if "parsePggenArg ul p = Returns (r, q)" for r q
        using parsePggenArg_facts(1) [OF that Suc.prems(1)] True by blast
      ultimately show ?thesis
        using False True go by (cases "parsePggenArg ul p") (auto split: option.splits)
    next
      case no: False
      then have "query_loop ul (Suc n) pos names p = query_loop ul n pos names (p_next ul p)"
        using False by auto
      then show ?thesis using go [OF p_next_nxt(1) [OF ok]] by simp
    qed
  qed
qed (simp add: enough_def)

subsection \<open>Queries\<close>

lemma query_loop_enough: "p_ok p \<Longrightarrow> no_nul (p_sc p) \<Longrightarrow> todo (p_sc p) + 2 \<le> n \<Longrightarrow>
    query_loop ul n pos names p \<noteq> Diverges"
  by (rule query_loop_returns) (simp_all add: enough_def)

lemma bad_query_facts:
  "bad_query pos m p = Returns (q, p') \<Longrightarrow> (\<exists>es. p' = with_errs es p) \<and> q = BadQuery pos (p_pos p)"
  by (auto simp: bad_query_def ob_Returns dest!: p_error_with_errs)

lemma finish_query_facts:
  assumes "finish_query ph doc pos semi names p = Returns (q, p')"
  shows "\<exists>es. p' = with_errs es p"
    and "q = SourceQ sq \<Longrightarrow> sq_start sq = pos \<and> sq_semi sq = semi \<and> sq_doc sq = doc \<and>
      sq_sql sq = take (semi - (pos - 1)) (drop (pos - 1) (p_src p)) \<and>
      (sq_prepared sq, sq_params sq) = prepareSQL (sq_sql sq) names ph \<and>
      (\<exists>g. doc = Some g \<and> g \<noteq> [] \<and> (\<exists>args. find_annotation (lc_text (last g)) = Some (sq_name sq, sq_kind sq, args) \<and>
         parsePragmas args = Inr (sq_pragmas sq)))"
  using assms
  by (auto simp: finish_query_def Let_def with_errs_Nil
      split: option.splits if_splits sum.splits prod.splits
      dest!: bad_query_facts intro: exI [of _ "[]"])

lemma p_expect_facts:
  assumes "p_expect ul Semicolon p = Returns (semi, q)" "p_ok p" "p_tok p = Semicolon"
  shows "semi = p_pos p" "q = p_next ul p"
  using assms by (simp_all add: p_expect_def)

lemma parseQuery_facts:
  assumes "parseQuery ul n ph p = Returns (q, p')" "p_ok p"
  shows "reach p p'" "p_tok p' = EOF \<or> p_tok p' = Illegal \<or> nxt p p'"
    and "q = SourceQ sq \<Longrightarrow> sq_start sq = p_pos p \<and>
      sq_sql sq = take (sq_semi sq - (sq_start sq - 1)) (drop (sq_start sq - 1) (p_src p)) \<and>
      sq_start sq \<le> sq_semi sq \<and> sq_semi sq \<le> length (p_src p) \<and>
      (\<exists>names p1. query_loop ul n (p_pos p) [] p = Returns (Some names, p1) \<and>
         args_in 0 names (int (length (sq_sql sq)) - 1) \<and>
         (sq_prepared sq, sq_params sq) = prepareSQL (sq_sql sq) names ph)"
proof -
  have z: "args_in 0 [] (arg_limit (p_pos p) p)" by (simp add: arg_limit_def)
  obtain r p1 where l: "query_loop ul n (p_pos p) [] p = Returns (r, p1)"
    using assms(1) by (auto simp: parseQuery_def Let_def ob_Returns)
  note f = query_loop_facts [OF l assms(2) z]
  have "reach p p' \<and> (p_tok p' = EOF \<or> p_tok p' = Illegal \<or> nxt p p') \<and>
    (q = SourceQ sq \<longrightarrow> sq_start sq = p_pos p \<and>
      sq_sql sq = take (sq_semi sq - (sq_start sq - 1)) (drop (sq_start sq - 1) (p_src p)) \<and>
      sq_start sq \<le> sq_semi sq \<and> sq_semi sq \<le> length (p_src p) \<and>
      (\<exists>names p1. query_loop ul n (p_pos p) [] p = Returns (Some names, p1) \<and>
         args_in 0 names (int (length (sq_sql sq)) - 1) \<and>
         (sq_prepared sq, sq_params sq) = prepareSQL (sq_sql sq) names ph))"
  proof (cases r)
    case None
    with assms(1) l have "q = BadQuery (p_pos p) (p_pos p1)" "p' = p1"
      by (auto simp: parseQuery_def Let_def)
    with f None show ?thesis by blast
  next
    case (Some names)
    with f have p1: "reach p p1" "p_tok p1 = Semicolon" "args_in 0 names (arg_limit (p_pos p) p1)"
      by blast+
    have ok1: "p_ok p1" using reach_ok [OF p1(1) assms(2)] .
    have fin: "finish_query ph (p_lead p) (p_pos p) (p_pos p1) names (p_next ul p1) = Returns (q, p')"
      using assms(1) l Some p1(2) by (auto simp: parseQuery_def Let_def p_expect_def)
    have n1: "nxt p1 (p_next ul p1)" using ok1 by (intro p_next_nxt) (simp add: p_ok_def)
    have n: "nxt p p'"
      using finish_query_facts(1) [OF fin] reach_nxt2 [OF p1(1) n1] by (auto intro: nxt_with_errs)
    have src: "p_src (p_next ul p1) = p_src p" "p_src p1 = p_src p"
      using n1 reach_nxt2 [OF p1(1) n1] by (auto simp: nxt_def later_def)
    have lim: "arg_limit (p_pos p) p1 = int (p_pos p1) - int (p_pos p)" using p1(2) by (simp add: arg_limit_def)
    then have le: "p_pos p \<le> p_pos p1" using args_in_le [OF p1(3)] by simp
    have len: "p_pos p1 \<le> length (p_src p)" "1 \<le> p_pos p"
      using ok1 p1(2) assms(2) src by (auto simp: p_ok_def sc_ok_def)
    then have "int (length (take (p_pos p1 - (p_pos p - 1)) (drop (p_pos p - 1) (p_src p)))) - 1 =
        arg_limit (p_pos p) p1"
      using le lim by simp
    then show ?thesis
      using n p1(3) le len src finish_query_facts(2) [OF fin, of sq] l Some by (auto simp: reach_def)
  qed
  then show "reach p p'" "p_tok p' = EOF \<or> p_tok p' = Illegal \<or> nxt p p'"
    "q = SourceQ sq \<Longrightarrow> sq_start sq = p_pos p \<and>
      sq_sql sq = take (sq_semi sq - (sq_start sq - 1)) (drop (sq_start sq - 1) (p_src p)) \<and>
      sq_start sq \<le> sq_semi sq \<and> sq_semi sq \<le> length (p_src p) \<and>
      (\<exists>names p1. query_loop ul n (p_pos p) [] p = Returns (Some names, p1) \<and>
         args_in 0 names (int (length (sq_sql sq)) - 1) \<and>
         (sq_prepared sq, sq_params sq) = prepareSQL (sq_sql sq) names ph)" by blast+
qed

end
