(* ===== verification/PrepareSql.thy ===== *)
theory PrepareSql
  imports ParserFacts
begin

text \<open>
  What \<^verbatim>\<open>prepareSQL\<close> makes of a query: the text between the arguments stays, each argument becomes
  a placeholder, and the ordinals count the names in order of first appearance. The contract of a
  dialect's placeholder is a locale, interpreted on the two dialects of the source.
\<close>

subsection \<open>Ordinals\<close>

lemma foldl_add_new_prefix: "prefix ps (foldl add_new ps ns)"
proof (induction ns arbitrary: ps)
  case (Cons n ns)
  have "prefix ps (add_new ps n)" by (simp add: add_new_def)
  also have "prefix (add_new ps n) (foldl add_new (add_new ps n) ns)" by (rule Cons)
  finally show ?case by simp
qed simp

text \<open>The position of a name, counted from 1, and 0 for a name that is not there.\<close>

primrec ordinal :: "'a list \<Rightarrow> 'a \<Rightarrow> nat" where
  "ordinal [] n = 0"
| "ordinal (p # ps) n = (if p = n then 1 else if n \<in> set ps then Suc (ordinal ps n) else 0)"

lemma ordinal_notin: "n \<notin> set ps \<Longrightarrow> ordinal ps n = 0"
  by (induction ps) auto

lemma ordinal_in: "n \<in> set ps \<Longrightarrow> 0 < ordinal ps n \<and> ordinal ps n \<le> length ps \<and> ps ! (ordinal ps n - 1) = n"
proof (induction ps)
  case (Cons p ps)
  show ?case
  proof (cases "p = n")
    case False
    with Cons have "n \<in> set ps" by auto
    from Cons(1) [OF this] False this show ?thesis by (cases "ordinal ps n") auto
  qed simp
qed simp

lemma ordinal_append: "n \<in> set ps \<Longrightarrow> ordinal (ps @ qs) n = ordinal ps n"
  by (induction ps) auto

lemma ordinal_snoc: "n \<notin> set ps \<Longrightarrow> ordinal (ps @ [n]) n = Suc (length ps)"
  by (induction ps) auto

lemma ordinal_inj: "ordinal ps n = ordinal ps m \<Longrightarrow> n \<in> set ps \<Longrightarrow> m \<in> set ps \<Longrightarrow> n = m"
  using ordinal_in [of n ps] ordinal_in [of m ps] by metis

text \<open>The map of ordinals that the first loop keeps.\<close>

definition ord_map :: "string list \<Rightarrow> string \<rightharpoonup> nat" where
  "ord_map ps n = (if n \<in> set ps then Some (ordinal ps n) else None)"

lemma ord_map_snoc: "n \<notin> set ps \<Longrightarrow> (ord_map ps)(n \<mapsto> Suc (length ps)) = ord_map (ps @ [n])"
  by (rule ext) (auto simp: ord_map_def ordinal_append ordinal_snoc)

lemma param_orders_firsts:
  "param_orders as (ord_map ps) ps (Suc (length ps)) =
     (ord_map (foldl add_new ps (map a_name as)), foldl add_new ps (map a_name as))"
proof (induction as arbitrary: ps)
  case (Cons a as)
  show ?case
  proof (cases "a_name a \<in> set ps")
    case True
    with Cons [of ps] show ?thesis by (simp add: ord_map_def add_new_def)
  next
    case False
    then have "(ord_map ps)(a_name a \<mapsto> Suc (length ps)) = ord_map (ps @ [a_name a])"
      by (rule ord_map_snoc)
    moreover have "ord_map ps (a_name a) = None" using False by (simp add: ord_map_def)
    moreover have "add_new ps (a_name a) = ps @ [a_name a]" using False by (simp add: add_new_def)
    ultimately show ?thesis using Cons [of "ps @ [a_name a]"] by simp
  qed
qed simp

subsection \<open>Text and holes\<close>

text \<open>Texts with something between each two of them.\<close>

fun weave :: "string list \<Rightarrow> string list \<Rightarrow> string" where
  "weave (s # ss) (h # hs) = s @ h @ weave ss hs"
| "weave ss [] = concat ss"
| "weave [] hs = concat hs"

fun gaps :: "string \<Rightarrow> argPos list \<Rightarrow> int \<Rightarrow> string list" where
  "gaps bs [] prev = [drop (nat prev) bs]"
| "gaps bs (a # as) prev = take (nat (a_lo a) - nat prev) (drop (nat prev) bs) # gaps bs as (a_hi a)"

definition hole :: "string \<Rightarrow> argPos \<Rightarrow> string" where
  "hole bs a = take (nat (a_hi a - a_lo a)) (drop (nat (a_lo a)) bs)"

lemma length_gaps [simp]: "length (gaps bs as prev) = Suc (length as)"
  by (induction as arbitrary: prev) simp_all

lemma weave_gaps:
  "args_in prev as lim \<Longrightarrow> 0 \<le> prev \<Longrightarrow> lim \<le> int (length bs) \<Longrightarrow>
     weave (gaps bs as prev) (map (hole bs) as) = drop (nat prev) bs"
proof (induction as arbitrary: prev)
  case (Cons a as)
  then have le: "prev \<le> a_lo a" "a_lo a \<le> a_hi a" "a_hi a \<le> lim" "args_in (a_hi a) as lim"
    by (auto dest: args_in_le)
  have ih: "weave (gaps bs as (a_hi a)) (map (hole bs) as) = drop (nat (a_hi a)) bs"
    using Cons le by auto
  have 1: "hole bs a @ drop (nat (a_hi a)) bs = drop (nat (a_lo a)) bs"
  proof -
    have "nat (a_hi a) = nat (a_hi a - a_lo a) + nat (a_lo a)" using le Cons.prems(2) by simp
    then have "drop (nat (a_hi a)) bs = drop (nat (a_hi a - a_lo a)) (drop (nat (a_lo a)) bs)"
      by (simp add: drop_drop)
    then show ?thesis by (simp only: hole_def append_take_drop_id)
  qed
  have 2: "take (nat (a_lo a) - nat prev) (drop (nat prev) bs) @ drop (nat (a_lo a)) bs = drop (nat prev) bs"
  proof -
    have "nat (a_lo a) = (nat (a_lo a) - nat prev) + nat prev" using le Cons.prems(2) by simp
    then have "drop (nat (a_lo a)) bs = drop (nat (a_lo a) - nat prev) (drop (nat prev) bs)"
      by (metis drop_drop)
    then show ?thesis by (simp only: append_take_drop_id)
  qed
  show ?case using ih 1 2 by simp
qed simp

lemma replace_args_weave:
  "replace_args ph orders bs as prev sb =
     sb @ weave (gaps bs as prev)
       (map (\<lambda>a. ph (a_name a) (case orders (a_name a) of None \<Rightarrow> 0 | Some k \<Rightarrow> k)) as)"
  by (induction as arbitrary: prev sb) simp_all

lemma prepareSQL_weave:
  fixes as :: "argPos list"
  defines "ps \<equiv> firsts (map a_name as)"
  shows "prepareSQL sql as ph =
    (weave (gaps sql as 0) (map (\<lambda>a. ph (a_name a) (ordinal ps (a_name a))) as), ps)"
proof (cases "as = []")
  case True
  then show ?thesis by (simp add: prepareSQL_def ps_def)
next
  case False
  have e: "ord_map [] = Map.empty" by (rule ext) (simp add: ord_map_def)
  have po: "param_orders as Map.empty [] 1 = (ord_map ps, ps)"
    using param_orders_firsts [of as "[]"] by (simp add: e ps_def firsts_def)
  have "map (\<lambda>a. ph (a_name a) (case ord_map ps (a_name a) of None \<Rightarrow> 0 | Some k \<Rightarrow> k)) as =
      map (\<lambda>a. ph (a_name a) (ordinal ps (a_name a))) as"
    by (simp add: ord_map_def ps_def)
  then show ?thesis
    using False po by (simp add: prepareSQL_def replace_args_weave del: map_eq_conv)
qed

subsection \<open>Dialects\<close>

text \<open>What a dialect promises of its placeholders: one text does not stand for two parameters,
  neither of two names nor of two positions.\<close>

locale dialect =
  fixes ph :: Placeholder
  assumes separates: "ph n i = ph m j \<Longrightarrow> n = m \<or> i = j"
begin

lemma hole_same_param:
  assumes "a \<in> set as" "b \<in> set as"
  shows "ph (a_name a) (ordinal (firsts (map a_name as)) (a_name a)) =
      ph (a_name b) (ordinal (firsts (map a_name as)) (a_name b)) \<longleftrightarrow> a_name a = a_name (b :: argPos)"
proof
  assume "ph (a_name a) (ordinal (firsts (map a_name as)) (a_name a)) =
      ph (a_name b) (ordinal (firsts (map a_name as)) (a_name b))"
  then have "a_name a = a_name b \<or>
      ordinal (firsts (map a_name as)) (a_name a) = ordinal (firsts (map a_name as)) (a_name b)"
    by (rule separates)
  moreover have "a_name a \<in> set (firsts (map a_name as))" "a_name b \<in> set (firsts (map a_name as))"
    using assms by auto
  ultimately show "a_name a = a_name b" by (auto dest: ordinal_inj)
qed simp

end

interpretation postgres: dialect PostgresPlaceholder
  by unfold_locales (auto simp: PostgresPlaceholder_def dest: itoa_nat_inj)

interpretation clickhouse: dialect ClickHousePlaceholder
  by unfold_locales (auto simp: ClickHousePlaceholder_def)

subsection \<open>What is replaced\<close>

lemma LastIndex_max: "prefix w (drop k s) \<Longrightarrow> k \<le> length s \<Longrightarrow> int k \<le> LastIndex s w"
proof (induction s arbitrary: k)
  case (Cons x s)
  show ?case
  proof (cases k)
    case 0
    with Cons(2) show ?thesis using LastIndex_bounds(1) [of s w] by (auto simp: Let_def)
  next
    case (Suc j)
    with Cons have "int j \<le> LastIndex s w" by auto
    with Suc show ?thesis by (auto simp: Let_def)
  qed
qed (auto split: if_splits)

lemma LastIndex_pggen:
  assumes "call = ''pggen.arg('' \<or> call = ''pggen.arg (''"
  shows "LastIndex (u @ call) ''pggen'' = int (length u)"
proof -
  let ?s = "u @ call" and ?L = "LastIndex (u @ call) ''pggen''"
  have "prefix ''pggen'' (drop (length u) ?s)" using assms by auto
  then have ge: "int (length u) \<le> ?L" by (rule LastIndex_max) simp
  then have b: "nat ?L + 5 \<le> length ?s" "prefix ''pggen'' (drop (nat ?L) ?s)"
    using LastIndex_bounds(2) [of ?s "''pggen''"] by auto
  define j where "j = nat ?L - length u"
  have j: "nat ?L = length u + j" using ge by (simp add: j_def)
  have "prefix ''pggen'' (drop j call)" using b(2) by (simp add: j)
  moreover have "j < 7" using b(1) assms by (auto simp: j)
  then have "j = 0 \<or> j = 1 \<or> j = 2 \<or> j = 3 \<or> j = 4 \<or> j = 5 \<or> j = 6" by auto
  ultimately have "j = 0" using assms by auto
  with j ge show ?thesis by simp
qed

text \<open>The text of an argument: the call, the quoted name and the closing parenthesis, with blanks
  or comments between them.\<close>

definition arg_text :: "string \<Rightarrow> string \<Rightarrow> bool" where
  "arg_text name t \<longleftrightarrow> (\<exists>call u v. (call = ''pggen.arg('' \<or> call = ''pggen.arg ('') \<and>
     t = call @ u @ [CHR 0x27] @ name @ [CHR 0x27] @ v @ '')'')"

lemma has_pggen_arg_drop:
  assumes "has_pggen_arg lit"
  defines "call \<equiv> drop (nat (LastIndex lit ''pggen'')) lit"
  shows "call = ''pggen.arg('' \<or> call = ''pggen.arg (''"
proof -
  from assms(1) obtain u c where c: "lit = u @ c" "c = ''pggen.arg('' \<or> c = ''pggen.arg (''"
    by (auto simp: has_pggen_arg_def suffix_def)
  then have "LastIndex lit ''pggen'' = int (length u)" using LastIndex_pggen by simp
  with c show ?thesis by (simp add: call_def)
qed

lemma slice_split: "i \<le> j \<Longrightarrow> j \<le> k \<Longrightarrow> take (k - i) (drop i xs) = take (j - i) (drop i xs) @ take (k - j) (drop j xs)"
proof -
  assume "i \<le> j" "j \<le> k"
  then have "k - i = (j - i) + (k - j)" "j = (j - i) + i" by simp_all
  then show ?thesis by (metis take_add drop_drop)
qed

lemma quoted_name:
  "3 \<le> length l \<Longrightarrow> hd l = q \<Longrightarrow> last l = q \<Longrightarrow> l = [q] @ butlast (tl l) @ [q]"
proof -
  assume l: "3 \<le> length l" "hd l = q" "last l = q"
  then have "tl l \<noteq> []" by (cases l) auto
  then have "tl l \<noteq> []" "last (tl l) = q" using l by (simp_all add: last_tl)
  then have "tl l = butlast (tl l) @ [q]" by (metis append_butlast_last_id)
  with l show ?thesis by (cases l) auto
qed

lemma take1_prefix: "prefix [c] (take n xs) \<Longrightarrow> take 1 xs = [c]"
  by (cases n; cases xs) auto

lemma parsePggenArg_text:
  assumes "parsePggenArg ul p = Returns (Some a, q)" "p_ok p" "p_tok p = QueryFragment" "has_pggen_arg (p_lit p)"
  shows "arg_text (a_name a) (take (nat (a_hi a - a_lo a)) (drop (nat (a_lo a)) (p_src p)))"
proof -
  let ?L = "LastIndex (p_lit p) ''pggen''" and ?src = "p_src p"
  define p1 where "p1 = p_next ul p"
  define i where "i = p_pos p - 1 + nat ?L"
  define o0 where "o0 = sc_offset (p_sc p)"
  define o1 where "o1 = sc_offset (p_sc p1)"
  have q: "q = p_next ul p1" and lo: "a_lo a = int (p_pos p) + ?L - 1" and hi: "a_hi a = int (p_pos q)"
    and nm: "a_name a = butlast (tl (p_lit p1))" and s1: "p_tok p1 = String" "3 \<le> length (p_lit p1)"
      "hd (p_lit p1) = CHR 0x27" "last (p_lit p1) = CHR 0x27"
    and f: "p_tok q = QueryFragment" "prefix '')'' (p_lit q)"
    using assms(1) by (auto simp: parsePggenArg_def Let_def p1_def ob_Returns split: if_splits)
  have ok: "sc_ok (p_sc p)" using assms(2) by (simp add: p_ok_def)
  have n1: "nxt p p1" unfolding p1_def by (rule p_next_nxt(1) [OF ok])
  have n2: "nxt p1 q" unfolding q by (rule p_next_nxt(1) [OF nxt_sc_ok [OF n1]])
  have src: "p_src p1 = ?src" "p_src q = ?src" using n1 n2 by (auto simp: nxt_def later_def)
  have ok0: "1 \<le> p_pos p" "p_pos p \<le> o0 + 1" "o0 + 1 \<le> p_pos p1" "p_pos p1 \<le> o1 + 1" "o1 + 1 \<le> p_pos q"
    using assms(2) n1 n2 by (auto simp: p_ok_def nxt_def o0_def o1_def)
  have l0: "p_lit p = take (o0 - (p_pos p - 1)) (drop (p_pos p - 1) ?src)"
    using assms(2,3) by (simp add: p_ok_def o0_def)
  have l1: "p_lit p1 = take (o1 - (p_pos p1 - 1)) (drop (p_pos p1 - 1) ?src)"
    using n1 s1(1) src by (simp add: p_ok_def nxt_def o1_def)
  have lq: "p_lit q = take (sc_offset (p_sc q) - (p_pos q - 1)) (drop (p_pos q - 1) ?src)"
    using n2 f(1) src by (simp add: p_ok_def nxt_def)
  have L: "0 \<le> ?L" using has_pggen_arg_index [OF assms(4)] .
  have i: "a_lo a = int i" using lo L ok0 by (simp add: i_def)
  have call: "drop (nat ?L) (p_lit p) = take (o0 - i) (drop i ?src)"
    by (simp add: l0 drop_take i_def add.commute)
  note c = has_pggen_arg_drop [OF assms(4), unfolded call]
  then have io: "i \<le> o0" by (cases "i \<le> o0") auto
  have paren: "take 1 (drop (p_pos q - 1) ?src) = '')''"
    using f(2) lq by (intro take1_prefix) simp
  have "take (p_pos q - i) (drop i ?src) =
      take (o0 - i) (drop i ?src) @ take (p_pos p1 - 1 - o0) (drop o0 ?src) @
      p_lit p1 @ take (p_pos q - 1 - o1) (drop o1 ?src) @ '')''"
    using io ok0 slice_split [of i o0 "p_pos q" ?src] slice_split [of o0 "p_pos p1 - 1" "p_pos q" ?src]
      slice_split [of "p_pos p1 - 1" o1 "p_pos q" ?src] slice_split [of o1 "p_pos q - 1" "p_pos q" ?src]
      l1 paren by simp
  moreover have "p_lit p1 = [CHR 0x27] @ a_name a @ [CHR 0x27]"
    using quoted_name [OF s1(2-4)] nm by simp
  moreover have "nat (a_hi a - a_lo a) = p_pos q - i" "nat (a_lo a) = i"
    using i hi io ok0 by auto
  ultimately show ?thesis using c unfolding arg_text_def by (auto simp del: append.simps) 
qed

text \<open>An argument of a query that starts at \<open>pos\<close>, by its place in the query.\<close>

definition arg_at :: "nat \<Rightarrow> string \<Rightarrow> argPos \<Rightarrow> bool" where
  "arg_at pos src a \<longleftrightarrow> 0 \<le> a_lo a \<and> arg_text (a_name a) (hole (drop (pos - 1) src) a)"

lemma query_loop_texts:
  "query_loop ul n pos names p = Returns (Some names', q) \<Longrightarrow> p_ok p \<Longrightarrow> 1 \<le> pos \<Longrightarrow> pos \<le> p_pos p \<Longrightarrow>
     list_all (arg_at pos (p_src p)) names \<Longrightarrow> list_all (arg_at pos (p_src p)) names'"
proof (induction n arbitrary: names p)
  case (Suc n)
  have ok: "sc_ok (p_sc p)" using Suc.prems(2) by (simp add: p_ok_def)
  have later: "p_ok p1 \<and> pos \<le> p_pos p1 \<and> p_src p1 = p_src p" if "nxt p p1" for p1
    using that Suc.prems(2,4) by (auto simp: nxt_def later_def p_ok_def)
  consider (semi) "p_tok p = Semicolon" | (stop) "p_tok p \<noteq> Semicolon" "p_tok p = EOF \<or> p_tok p = Illegal"
    | (arg) "p_tok p \<noteq> Semicolon" "p_tok p \<noteq> EOF" "p_tok p \<noteq> Illegal"
        "p_tok p = QueryFragment \<and> has_pggen_arg (p_lit p)"
    | (go) "p_tok p \<noteq> Semicolon" "p_tok p \<noteq> EOF" "p_tok p \<noteq> Illegal"
        "\<not> (p_tok p = QueryFragment \<and> has_pggen_arg (p_lit p))" by blast
  then show ?case
  proof cases
    case stop
    with Suc.prems(1) show ?thesis by (auto simp: ob_Returns)
  next
    case go
    then have "query_loop ul n pos names (p_next ul p) = Returns (Some names', q)"
      using Suc.prems(1) by auto
    with Suc.IH [of names "p_next ul p"] later [OF p_next_nxt(1) [OF ok]] Suc.prems(3,5)
    show ?thesis by auto
  next
    case arg
    then obtain a p1 where pa: "parsePggenArg ul p = Returns (Some a, p1)"
      and rec: "query_loop ul n pos
        (names @ [a\<lparr>a_lo := a_lo a - (int pos - 1), a_hi := a_hi a - (int pos - 1)\<rparr>]) p1 = Returns (Some names', q)"
      using Suc.prems(1) by (auto simp: ob_Returns split: option.splits)
    have n1: "nxt p p1" using parsePggenArg_facts(1) [OF pa Suc.prems(2)] arg by blast
    have lo: "int (p_pos p) - 1 \<le> a_lo a"
      using parsePggenArg_facts(2) [OF pa Suc.prems(2)] arg by blast
    have t: "arg_text (a_name a) (take (nat (a_hi a - a_lo a)) (drop (nat (a_lo a)) (p_src p)))"
      using parsePggenArg_text [OF pa Suc.prems(2)] arg by blast
    have "nat (a_lo a - (int pos - 1)) + (pos - 1) = nat (a_lo a)" using lo Suc.prems(3,4) by auto
    with t lo Suc.prems(4) have "arg_at pos (p_src p) (a\<lparr>a_lo := a_lo a - (int pos - 1), a_hi := a_hi a - (int pos - 1)\<rparr>)"
      by (simp add: arg_at_def hole_def)
    with Suc.IH [OF rec] later [OF n1] Suc.prems(3,5) show ?thesis by auto
  qed (use Suc.prems in auto)
qed simp

lemma args_in_member: "args_in prev as lim \<Longrightarrow> a \<in> set as \<Longrightarrow> prev \<le> a_lo a \<and> a_lo a \<le> a_hi a \<and> a_hi a \<le> lim"
proof (induction as arbitrary: prev)
  case (Cons b as)
  then show ?case using args_in_le [of "a_hi b" as lim] Cons.IH [of "a_hi b"] by force
qed simp

lemma parseQuery_texts:
  assumes "parseQuery ul n ph p = Returns (SourceQ sq, p')" "p_ok p"
  shows "\<exists>args. args_in 0 args (int (length (sq_sql sq))) \<and>
    list_all (\<lambda>a. arg_text (a_name a) (hole (sq_sql sq) a)) args \<and>
    prepareSQL (sq_sql sq) args ph = (sq_prepared sq, sq_params sq)"
proof -
  let ?pos = "p_pos p" and ?k = "sq_semi sq - (sq_start sq - 1)"
  note f = parseQuery_facts(3) [OF assms refl]
  from f obtain names p1 where l: "query_loop ul n ?pos [] p = Returns (Some names, p1)"
    and args: "args_in 0 names (int (length (sq_sql sq)) - 1)"
    and prep: "(sq_prepared sq, sq_params sq) = prepareSQL (sq_sql sq) names ph" by blast
  have sql: "sq_sql sq = take ?k (drop (?pos - 1) (p_src p))" using f by simp
  have texts: "list_all (arg_at ?pos (p_src p)) names"
    using query_loop_texts [OF l assms(2)] assms(2) by (auto simp: p_ok_def)
  have "arg_text (a_name a) (hole (sq_sql sq) a)" if "a \<in> set names" for a
  proof -
    have b: "0 \<le> a_lo a" "a_lo a \<le> a_hi a" "a_hi a \<le> int (length (sq_sql sq)) - 1"
      using args_in_member [OF args that] by auto
    then have "nat (a_hi a - a_lo a) + nat (a_lo a) \<le> ?k" unfolding sql by auto
    then have "hole (sq_sql sq) a = hole (drop (?pos - 1) (p_src p)) a"
      by (simp add: hole_def sql drop_take min_def)
    with texts that show ?thesis by (simp add: list_all_iff arg_at_def)
  qed
  then have "list_all (\<lambda>a. arg_text (a_name a) (hole (sq_sql sq) a)) names" by (simp add: list_all_iff)
  moreover have "args_in 0 names (int (length (sq_sql sq)))" using args by (rule args_in_mono) simp
  ultimately show ?thesis using prep by metis
qed

end
