(* ===== verification/ParserProps.thy ===== *)
theory ParserProps
  imports PrepareSql
begin

text \<open>
  Properties of the query parser: it comes to an end on every file without NUL bytes and not on
  some files with one; its queries are pieces of the file in order; and their prepared text is
  the source text with each \<^verbatim>\<open>pggen.arg\<close> replaced by the placeholder of its parameter.
\<close>

subsection \<open>The loop over the queries\<close>

text \<open>What holds of a query that was read from \<open>src\<close>.\<close>

definition query_ok :: "string \<Rightarrow> Placeholder \<Rightarrow> Query \<Rightarrow> bool" where
  "query_ok src ph q \<longleftrightarrow> Query_Pos q \<le> Query_End q \<and>
     (\<forall>sq. q = SourceQ sq \<longrightarrow>
        1 \<le> sq_start sq \<and> sq_semi sq \<le> length src \<and>
        sq_sql sq = take (sq_semi sq - (sq_start sq - 1)) (drop (sq_start sq - 1) src) \<and>
        (\<exists>args. args_in 0 args (int (length (sq_sql sq))) \<and>
           list_all (\<lambda>a. arg_text (a_name a) (hole (sq_sql sq) a)) args \<and>
           prepareSQL (sq_sql sq) args ph = (sq_prepared sq, sq_params sq)))"

lemma reach_pos: "reach p q \<Longrightarrow> p_ok p \<Longrightarrow> p_pos p \<le> p_pos q \<and> p_src q = p_src p"
  by (auto simp: reach_def nxt_def later_def p_ok_def)

lemma reach_no_nul: "reach p q \<Longrightarrow> no_nul (p_sc p) \<Longrightarrow> no_nul (p_sc q)"
  by (auto simp: reach_def nxt_def)

lemma bad_query_pos: "bad_query pos m p = Returns (q, p') \<Longrightarrow> Query_End q \<le> p_pos p'"
  by (auto simp: bad_query_def ob_Returns Query_End_def)

lemma finish_query_end:
  assumes "finish_query ph doc pos semi names p = Returns (q, p')"
  shows "Query_Pos q = pos" "Query_End q = p_pos p' \<or> Query_End q = semi"
  using assms
  by (auto simp: finish_query_def Let_def Query_Pos_def Query_End_def bad_query_def ob_Returns
      split: option.splits if_splits sum.splits prod.splits)

lemma parseQuery_span:
  assumes "parseQuery ul n ph p = Returns (q, p')" "p_ok p"
  shows "Query_Pos q = p_pos p" "Query_Pos q \<le> Query_End q" "Query_End q \<le> p_pos p'"
proof -
  have z: "args_in 0 [] (arg_limit (p_pos p) p)" by (simp add: arg_limit_def)
  obtain r p1 where l: "query_loop ul n (p_pos p) [] p = Returns (r, p1)"
    using assms(1) by (auto simp: parseQuery_def Let_def ob_Returns)
  note f = query_loop_facts [OF l assms(2) z]
  have r1: "reach p p1" using f by blast
  have "Query_Pos q = p_pos p \<and> Query_Pos q \<le> Query_End q \<and> Query_End q \<le> p_pos p'"
  proof (cases r)
    case None
    with assms(1) l have "q = BadQuery (p_pos p) (p_pos p1)" "p' = p1"
      by (auto simp: parseQuery_def Let_def)
    with reach_pos [OF r1 assms(2)] show ?thesis by (simp add: Query_Pos_def Query_End_def)
  next
    case (Some names)
    then have semi: "p_tok p1 = Semicolon" using f by blast
    have ok1: "p_ok p1" using reach_ok [OF r1 assms(2)] .
    have fin: "finish_query ph (p_lead p) (p_pos p) (p_pos p1) names (p_next ul p1) = Returns (q, p')"
      using assms(1) l Some semi by (auto simp: parseQuery_def Let_def p_expect_def)
    have n1: "nxt p1 (p_next ul p1)" using ok1 by (intro p_next_nxt) (simp add: p_ok_def)
    obtain es where p': "p' = with_errs es (p_next ul p1)" using finish_query_facts(1) [OF fin] by blast
    have "p_pos p1 \<le> p_pos p'" using n1 ok1 p' by (auto simp: nxt_def p_ok_def)
    with finish_query_end [OF fin] reach_pos [OF r1 assms(2)] show ?thesis by auto
  qed
  then show "Query_Pos q = p_pos p" "Query_Pos q \<le> Query_End q" "Query_End q \<le> p_pos p'" by auto
qed

lemma parseQuery_ok:
  assumes "parseQuery ul n ph p = Returns (q, p')" "p_ok p"
  shows "query_ok (p_src p) ph q"
proof -
  have pos: "1 \<le> p_pos p" using assms(2) by (simp add: p_ok_def)
  have "1 \<le> sq_start sq \<and> sq_semi sq \<le> length (p_src p) \<and>
      sq_sql sq = take (sq_semi sq - (sq_start sq - 1)) (drop (sq_start sq - 1) (p_src p)) \<and>
      (\<exists>args. args_in 0 args (int (length (sq_sql sq))) \<and>
         list_all (\<lambda>a. arg_text (a_name a) (hole (sq_sql sq) a)) args \<and>
         prepareSQL (sq_sql sq) args ph = (sq_prepared sq, sq_params sq))" if "q = SourceQ sq" for sq
  proof -
    note f = parseQuery_facts(3) [OF assms that]
    have t: "parseQuery ul n ph p = Returns (SourceQ sq, p')" using assms(1) that by simp
    have "1 \<le> sq_start sq" using f pos by simp
    with f parseQuery_texts [OF t assms(2)] show ?thesis by blast
  qed
  with parseQuery_span(2) [OF assms] show ?thesis unfolding query_ok_def by blast
qed

lemma queries_loop_ok:
  "queries_loop ul n k ph qs p = Returns (qs', p') \<Longrightarrow> p_ok p \<Longrightarrow>
     list_all (query_ok (p_src p) ph) qs \<Longrightarrow> sorted_wrt (\<lambda>a b. Query_End a \<le> Query_Pos b) qs \<Longrightarrow>
     list_all (\<lambda>q. Query_End q \<le> p_pos p) qs \<Longrightarrow>
     list_all (query_ok (p_src p) ph) qs' \<and> sorted_wrt (\<lambda>a b. Query_End a \<le> Query_Pos b) qs'"
proof (induction k arbitrary: qs p)
  case (Suc k)
  show ?case
  proof (cases "p_tok p = EOF \<or> p_tok p = Illegal")
    case True
    with Suc.prems show ?thesis by auto
  next
    case False
    then obtain q p1 where pq: "parseQuery ul n ph p = Returns (q, p1)"
      and rec: "queries_loop ul n k ph (qs @ [q]) p1 = Returns (qs', p')"
      using Suc.prems(1) by (auto simp: ob_Returns)
    have r: "reach p p1" using parseQuery_facts(1) [OF pq Suc.prems(2)] .
    note pos = reach_pos [OF r Suc.prems(2)] and span = parseQuery_span [OF pq Suc.prems(2)]
    have "sorted_wrt (\<lambda>a b. Query_End a \<le> Query_Pos b) (qs @ [q])"
      using Suc.prems(4,5) span(1) by (auto simp: sorted_wrt_append list_all_iff)
    moreover have "list_all (\<lambda>q. Query_End q \<le> p_pos p1) (qs @ [q])"
      using Suc.prems(5) span(3) pos by (auto simp: list_all_iff)
    moreover have "list_all (query_ok (p_src p) ph) (qs @ [q])"
      using Suc.prems(3) parseQuery_ok [OF pq Suc.prems(2)] by simp
    ultimately show ?thesis
      using Suc.IH [OF rec reach_ok [OF r Suc.prems(2)]] pos by simp
  qed
qed simp

lemma parseQuery_returns:
  assumes "p_ok p" "no_nul (p_sc p)" "todo (p_sc p) + 2 \<le> n"
  shows "parseQuery ul n ph p \<noteq> Diverges"
proof -
  have fin: "finish_query ph doc pos semi names q \<noteq> Diverges" for doc pos semi names q
    by (simp add: finish_query_def bad_query_def Let_def split: option.split sum.split prod.split)
  then have "ob (p_expect ul Semicolon q) (\<lambda>(semi, p2). finish_query ph doc pos semi names p2) \<noteq> Diverges" 
    for doc pos names q
    using p_error_not_Diverges by (cases "p_expect ul Semicolon q") (auto simp: p_expect_def split: if_splits)
  with query_loop_enough [OF assms] show ?thesis
    by (cases "query_loop ul n (p_pos p) [] p") (auto simp: parseQuery_def Let_def split: option.splits)
qed

lemma queries_loop_returns:
  "p_ok p \<Longrightarrow> no_nul (p_sc p) \<Longrightarrow> todo (p_sc p) + 2 \<le> n \<Longrightarrow> enough k p \<Longrightarrow>
     queries_loop ul n k ph qs p \<noteq> Diverges"
proof (induction k arbitrary: qs p)
  case (Suc k)
  show ?case
  proof (cases "p_tok p = EOF \<or> p_tok p = Illegal")
    case False
    then have t: "todo (p_sc p) + 2 \<le> Suc k" using Suc.prems(4) by (simp add: enough_def)
    have "queries_loop ul n k ph (qs @ [q]) p1 \<noteq> Diverges" if pq: "parseQuery ul n ph p = Returns (q, p1)" for q p1
    proof (rule Suc.IH)
      note r = parseQuery_facts(1,2) [OF pq Suc.prems(1)]
      show "p_ok p1" "no_nul (p_sc p1)" "todo (p_sc p1) + 2 \<le> n"
        using r(1) Suc.prems by (auto simp: reach_def nxt_def later_def)
      show "enough k p1"
        using r(2) enough_next [OF _ Suc.prems(2) t, of p1] t by (auto simp: enough_def)
    qed
    with False parseQuery_returns [OF Suc.prems(1-3), of ul ph] show ?thesis
      by (cases "parseQuery ul n ph p") auto
  qed simp
qed (simp add: enough_def)

subsection \<open>Whole files\<close>

lemma expand_loop_plain:
  "(\<And>sq. SourceQ sq \<in> set qs \<Longrightarrow> Paginate (sq_pragmas sq) = []) \<Longrightarrow>
     expand_loop uw sub specs qs out p = Returns (Some (out @ qs), p)"
  by (induction uw sub specs qs out p rule: expand_loop.induct) auto

text \<open>The file of the last example of the next theorem but one: its second query has a NUL byte.\<close>

definition nul_file :: string where
  "nul_file = ''-- name: A :one'' @ [CHR 0x0A] @ ''SELECT 1;'' @ [CHR 0x0A] @
     ''-- name: B :one'' @ [CHR 0x0A] @ ''SELECT '' @ [CHR 0x00] @ '';''"

lemma Scan_stuck:
  "sc_ch s = 0 \<Longrightarrow> Scan ul s = (sc_offset s + 1, QueryFragment, [], s\<lparr>sc_prev := QueryFragment\<rparr>)"
  by (simp add: Scan_def skipWhitespace_def next_while.simps [of isSpace s] isSpace_def rune_def
      scan_token_def scanQueryFragment_def fragment_loop.simps [of ul s] text_from_def Let_def eof_def)

lemma p_next_stuck:
  assumes "sc_ch (p_sc p) = 0"
  shows "p_tok (p_next ul p) = QueryFragment" "p_lit (p_next ul p) = []" "sc_ch (p_sc (p_next ul p)) = 0"
  using assms by (simp_all add: p_next_def next0_def Scan_stuck Let_def)

lemma query_loop_stuck:
  "sc_ch (p_sc p) = 0 \<Longrightarrow> p_tok p = QueryFragment \<Longrightarrow> p_lit p = [] \<Longrightarrow>
     query_loop ul n pos names p = Diverges"
proof (induction n arbitrary: p)
  case (Suc n)
  have "\<not> has_pggen_arg []" by (simp add: has_pggen_arg_def)
  with Suc p_next_stuck [OF Suc.prems(1)] show ?case by simp
qed simp

lemma nul_tokens:
  fixes ul :: "int \<Rightarrow> bool"
  defines "p0 \<equiv> p_init ul nul_file"
  shows "p_tok p0 = QueryFragment" "p_lit p0 = ''SELECT 1''" "sc_errs (p_sc p0) = []"
    "p_tok (p_next ul p0) = Semicolon"
    "p_tok (p_next ul (p_next ul p0)) = QueryFragment" "p_lit (p_next ul (p_next ul p0)) = ''SELECT ''"
    "sc_ch (p_sc (p_next ul (p_next ul p0))) = 0"
    "p_lead p0 = Some [LineCommentNode 1 ''-- name: A :one'']"
  unfolding p0_def by code_simp+

lemma nul_file_diverges: "queries_loop ul n k ph [] (p_init ul nul_file) = Diverges"
proof -
  let ?p0 = "p_init ul nul_file" and ?p1 = "p_next ul (p_init ul nul_file)"
  note t = nul_tokens [of ul]
  have no: "\<not> has_pggen_arg ''SELECT 1''" "\<not> has_pggen_arg ''SELECT ''" by code_simp+
  have second: "query_loop ul m pos names (p_next ul ?p1) = Diverges" for m pos names
    using t no query_loop_stuck p_next_stuck [OF t(7)] by (cases m) simp_all
  then have second': "parseQuery ul n ph (p_next ul ?p1) = Diverges" by (simp add: parseQuery_def Let_def)
  have ann: "find_annotation ''-- name: A :one'' = Some (''A'', ResultKindOne, [])" by code_simp
  have first: "\<exists>q. parseQuery ul (Suc (Suc m)) ph ?p0 = Returns (q, p_next ul ?p1)" for m
    using t no ann
    by (auto simp: parseQuery_def p_expect_def finish_query_def parsePragmas_def Let_def split: prod.split)
  show ?thesis
  proof (cases k)
    case (Suc j)
    have "query_loop ul n pos [] ?p0 = Diverges" if "n < 2" for pos
      using that t no by (cases n; cases "n - 1") auto
    then have "parseQuery ul n ph ?p0 = Diverges" if "n < 2"
      using that by (simp add: parseQuery_def Let_def)
    moreover have "queries_loop ul n j ph [q] (p_next ul ?p1) = Diverges" for q
      using second' t(5) by (cases j) simp_all
    ultimately show ?thesis
      using first [of "n - 2"] Suc t(1) by (cases "n < 2") (auto simp: numeral_2_eq_2 Suc_diff_Suc)
  qed simp
qed



definition small_file :: string where
  "small_file = ''-- name: A :one'' @ [CHR 0x0A] @ ''SELECT pggen.arg('' @ [CHR 0x27] @ ''x'' @ [CHR 0x27] @ '');''"

definition small_query :: SourceQuery where
  "small_query = \<lparr>sq_name = ''A'', sq_doc = Some [LineCommentNode 1 ''-- name: A :one''], sq_start = 17,
     sq_sql = ''SELECT pggen.arg('' @ [CHR 0x27] @ ''x'' @ [CHR 0x27] @ '');'', sq_prepared = ''SELECT $1;'',
     sq_params = [''x''], sq_kind = ResultKindOne, sq_pragmas = no_pragmas, sq_semi = 38, sq_group = [],
     sq_variant = no_variant\<rparr>"

definition returned :: "('a \<times> parser) outcome \<Rightarrow> 'a option" where
  "returned res = (case res of Returns (x, p) \<Rightarrow> Some x | _ \<Rightarrow> None)"

lemma small_file_queries:
  "\<exists>p. queries_loop (\<lambda>_. False) 60 60 PostgresPlaceholder [] (p_init (\<lambda>_. False) small_file) =
     Returns ([SourceQ small_query], p)"
proof -
  have "returned (queries_loop (\<lambda>_. False) 60 60 PostgresPlaceholder [] (p_init (\<lambda>_. False) small_file)) =
      Some [SourceQ small_query]" by code_simp
  then show ?thesis by (auto simp: returned_def split: outcome.splits)
qed






end
