(* ===== verification/PaginateProps.thy ===== *)
theory PaginateProps
  imports QueryParser
begin

text \<open>
  Properties of pragmas, of the fan-out of a paginated query and of the scanner on small inputs.
\<close>

subsection \<open>Pragmas\<close>

definition ident_char :: "char \<Rightarrow> bool" where
  "ident_char c \<longleftrightarrow> is_lower c \<or> is_upper c \<or> is_digit c \<or> c = CHR ''_''"

text \<open>An exported Go identifier in ASCII, and a part of a protocol buffer message type.\<close>

definition exported :: "string \<Rightarrow> bool" where
  "exported s \<longleftrightarrow> s \<noteq> [] \<and> is_upper (hd s) \<and> list_all ident_char (tl s)"

definition proto_part :: "string \<Rightarrow> bool" where
  "proto_part s \<longleftrightarrow> s \<noteq> [] \<and> (is_lower (hd s) \<or> is_upper (hd s)) \<and> list_all ident_char (tl s)"

lemma proto_part_simps [simp]:
  "\<not> proto_part []" "proto_part (c # s) \<longleftrightarrow> (is_lower c \<or> is_upper c) \<and> list_all ident_char s"
  by (simp_all add: proto_part_def)

lemma validateGoExportedIdent_iff: "validateGoExportedIdent val what = Inr () \<longleftrightarrow> exported val"
  by (auto simp: validateGoExportedIdent_def exported_def ident_char_def list_ex_iff list_all_iff)

lemma letter_facts:
  "is_lower c \<or> is_upper c \<Longrightarrow> ident_char c \<and> c \<noteq> CHR ''.''"
  "is_digit c \<Longrightarrow> ident_char c \<and> c \<noteq> CHR ''.'' \<and> \<not> is_lower c \<and> \<not> is_upper c"
  "\<not> ident_char CHR ''.''"
  by (auto simp: ident_char_def is_lower_def is_upper_def is_digit_def in_range_def)

lemma Split_cases: "\<exists>w ws. Split s c = w # ws"
  using Split_ne [of s c] by (cases "Split s c") auto

lemma proto_loop_parts:
  "proto_loop val isStart vs = Inr () \<longleftrightarrow>
     (if isStart then vs = [] \<or> list_all proto_part (Split vs CHR ''.'')
      else list_all ident_char (hd (Split vs CHR ''.'')) \<and> list_all proto_part (tl (Split vs CHR ''.'')))"
proof (induction val isStart vs rule: proto_loop.induct)
  case (2 val isStart v vs)
  obtain w ws where w: "Split vs CHR ''.'' = w # ws" using Split_cases by blast
  consider (letter) "is_lower v \<or> is_upper v" | (digit) "\<not> (is_lower v \<or> is_upper v)" "is_digit v \<or> v = CHR ''_''"
    | (dot) "v = CHR ''.''" | (other) "\<not> ident_char v" "v \<noteq> CHR ''.''" by (auto simp: ident_char_def)
  then show ?case
  proof cases
    case letter
    with 2(1) [OF letter] letter_facts(1) [OF letter] w show ?thesis
      by auto
  next
    case digit
    then have i: "ident_char v" "v \<noteq> CHR ''.''" using letter_facts(2) [of v] by (auto simp: ident_char_def)
    with 2(2) [OF digit] digit w show ?thesis by (cases isStart) auto
  next
    case dot
    have n: "\<not> is_lower v" "\<not> is_upper v" "\<not> is_digit v" "v \<noteq> CHR ''_''"
      using letter_facts dot by (auto simp: ident_char_def)
    show ?thesis
    proof (cases "isStart \<or> vs = []")
      case True
      with n dot w show ?thesis by (auto split: if_splits)
    next
      case False
      with 2(3) n dot w show ?thesis by simp
    qed
  next
    case other
    then have "\<not> is_lower v" "\<not> is_upper v" "\<not> is_digit v" "v \<noteq> CHR ''_''" by (auto simp: ident_char_def)
    with other w show ?thesis by auto
  qed
qed auto

text \<open>What is kept of the pragmas while they are read.\<close>

definition pragmas_ok :: "Pragmas \<Rightarrow> bool" where
  "pragmas_ok qp \<longleftrightarrow> (OutputType qp = [] \<or> exported (OutputType qp)) \<and>
     (SQLConst qp = [] \<or> exported (SQLConst qp)) \<and>
     (ProtobufType qp = [] \<or> list_all proto_part (Split (ProtobufType qp) CHR ''.''))"

lemma pragma_step_ok: "pragma_step s qp = Inr qp' \<Longrightarrow> pragmas_ok qp \<Longrightarrow> pragmas_ok qp'"
  by (auto simp: pragma_step_def validateProtoMsgType_def validateOutputType_def pragmas_ok_def
      validateGoExportedIdent_iff proto_loop_parts split: list.splits if_splits)

lemma pragma_loop_ok: "pragma_loop ss qp = Inr qp' \<Longrightarrow> pragmas_ok qp \<Longrightarrow> pragmas_ok qp'"
  by (induction ss qp rule: pragma_loop.induct) (auto dest: pragma_step_ok)

text \<open>C28: the pragmas that are accepted: an output type and a constant are exported Go identifiers, a
  message type is a list of identifiers joined by dots, and a paginated query has no constant.\<close>

theorem parsePragmas_valid:
  assumes "parsePragmas s = Inr qp"
  shows "(OutputType qp = [] \<or> exported (OutputType qp)) \<and> (SQLConst qp = [] \<or> exported (SQLConst qp)) \<and>
    (ProtobufType qp = [] \<or> list_all proto_part (Split (ProtobufType qp) CHR ''.'')) \<and>
    (Paginate qp = [] \<or> SQLConst qp = [])"
proof -
  have "pragmas_ok no_pragmas" by (simp add: pragmas_ok_def no_pragmas_def)
  with assms pragma_loop_ok [of "Fields s" no_pragmas] show ?thesis
    by (auto simp: parsePragmas_def pragmas_ok_def no_pragmas_def split: if_splits)
qed

theorem parsePragmas_valid_witness:
  "parsePragmas ''output=Row proto-type=erp.api.Item'' =
     Inr \<lparr>ProtobufType = ''erp.api.Item'', OutputType = ''Row'', Paginate = [], SQLConst = []\<rparr> \<and>
   list_all proto_part (Split ''erp.api.Item'' CHR ''.'')"
proof -
  have p: "parsePragmas ''output=Row proto-type=erp.api.Item'' =
     Inr \<lparr>ProtobufType = ''erp.api.Item'', OutputType = ''Row'', Paginate = [], SQLConst = []\<rparr>" by code_simp
  from parsePragmas_valid [OF p] p show ?thesis by simp
qed

subsection \<open>Variants\<close>

lemma check_variant_Inr:
  "check_variant sq v fe = Inr q \<Longrightarrow> \<exists>vq. q = SourceQ vq \<and> sq_group vq = sq_name sq \<and> sq_variant vq = v_key v"
  by (auto simp: check_variant_def split: prod.splits if_splits list.splits Query.splits)

definition variant_of :: "Query \<Rightarrow> (string \<times> VariantKey) option" where
  "variant_of q = (case q of SourceQ vq \<Rightarrow> Some (sq_group vq, sq_variant vq) | _ \<Rightarrow> None)"

lemma variants_loop_keys:
  "variants_loop uw sub spec sq vs out = Some (Inr out') \<Longrightarrow>
     map variant_of out' = map variant_of out @ map (\<lambda>v. Some (sq_name sq, v_key v)) vs"
proof (induction uw sub spec sq vs out rule: variants_loop.induct)
  case (2 uw sub spec sq v vs out)
  then obtain fe q where fe: "sub (variant_source uw spec sq v) = Some fe" "check_variant sq v fe = Inr q"
    and rec: "variants_loop uw sub spec sq vs (out @ [q]) = Some (Inr out')"
    by (auto split: option.splits sum.splits)
  from check_variant_Inr [OF fe(2)] have "variant_of q = Some (sq_name sq, v_key v)" by (auto simp: variant_of_def)
  with 2(1) [OF fe rec] show ?case by simp
qed simp

text \<open>C29: a paginated query fans out into the default variant and, for each sort key in order, the
  descending and the ascending variant; all of them carry the name of the query as their group.\<close>

theorem fanOut_variants:
  assumes "fanOut uw sub sq spec = Some (Inr qs)"
  shows "map variant_of qs =
    Some (sq_name sq, \<lparr>vk_sort = [], vk_descending = False, vk_default = True\<rparr>) #
    concat (map (\<lambda>k. [Some (sq_name sq, \<lparr>vk_sort = sk_name k, vk_descending = True, vk_default = False\<rparr>),
                      Some (sq_name sq, \<lparr>vk_sort = sk_name k, vk_descending = False, vk_default = False\<rparr>)]) (ss_keys spec))"
proof -
  have "variants_loop uw sub spec sq (spec_variants spec) [] = Some (Inr qs)"
    using assms by (auto simp: fanOut_def Let_def split: if_splits)
  from variants_loop_keys [OF this] show ?thesis
    by (simp add: spec_variants_def default_variant_def key_variant_def map_concat comp_def)
qed

definition page_query :: SourceQuery where
  "page_query = \<lparr>sq_name = ''I'', sq_doc = None, sq_start = 1,
     sq_sql = ''pggen.orderby('' @ [CHR 0x27] @ ''s'' @ [CHR 0x27] @ '');'',
     sq_prepared = [], sq_params = [], sq_kind = ResultKindMany,
     sq_pragmas = no_pragmas\<lparr>OutputType := ''Row'', Paginate := ''s''\<rparr>, sq_semi = 1, sq_group = [],
     sq_variant = no_variant\<rparr>"

definition page_spec :: SortSpec where
  "page_spec = \<lparr>ss_name = ''s'', ss_keys = [\<lparr>sk_name = ''k'', sk_columns = [''id''], sk_nullable = []\<rparr>],
     ss_default = [''id''], ss_cursor = [], ss_tiebreak = []\<rparr>"

text \<open>A parser that finds one query in every source.\<close>

definition one_query :: "string \<Rightarrow> parsed" where
  "one_query src = Some (\<lparr>f_name = [], f_doc = None, f_queries = [SourceQ page_query], f_comments = []\<rparr>, [])"

definition fan_keys :: "(parse_msg + Query list) option \<Rightarrow> (string \<times> VariantKey) option list option" where
  "fan_keys r = (case r of Some (Inr qs) \<Rightarrow> Some (map variant_of qs) | _ \<Rightarrow> None)"

theorem fanOut_variants_witness:
  "\<exists>qs. fanOut (\<lambda>_. False) one_query page_query page_spec = Some (Inr qs) \<and>
    map variant_of qs =
      Some (''I'', \<lparr>vk_sort = [], vk_descending = False, vk_default = True\<rparr>) #
      [Some (''I'', \<lparr>vk_sort = ''k'', vk_descending = True, vk_default = False\<rparr>),
       Some (''I'', \<lparr>vk_sort = ''k'', vk_descending = False, vk_default = False\<rparr>)]"
proof -
  have "fan_keys (fanOut (\<lambda>_. False) one_query page_query page_spec) \<noteq> None"
    by code_simp
  then obtain qs where qs: "fanOut (\<lambda>_. False) one_query page_query page_spec = Some (Inr qs)"
    by (auto simp: fan_keys_def split: option.splits sum.splits)
  from fanOut_variants [OF qs] qs show ?thesis by (simp add: page_spec_def page_query_def)
qed

subsection \<open>Small inputs\<close>

text \<open>A dollar sign in a column of a sort spec is read as a reference to a group of the regular
  expression: the column \<^verbatim>\<open>a$x\<close> is replaced by \<^verbatim>\<open>a\<close>.\<close>

theorem orderby_dollar_column:
  "replace_all (\<lambda>_. False) ''orderby'' ''s'' (orderByClause [''a$x''] [] False False)
     (''ORDER BY pggen.orderby('' @ [CHR 0x27] @ ''s'' @ [CHR 0x27] @ '')'') = ''ORDER BY a ASC''"
  by code_simp

text \<open>A dollar-quoted string with a rune of two bytes ends one byte too late: the token takes the
  semicolon that ends the query.\<close>

theorem dollar_quote_overshoots:
  "fst (snd (Scan (\<lambda>_. False) (scanner_Init ScanMsg (''$$'' @ [CHR 0xC3, CHR 0xA9] @ ''$$;'')))) = String \<and>
   fst (snd (snd (Scan (\<lambda>_. False) (scanner_Init ScanMsg (''$$'' @ [CHR 0xC3, CHR 0xA9] @ ''$$;''))))) =
     ''$$'' @ [CHR 0xC3, CHR 0xA9] @ ''$$;''"
  by code_simp

end
