(* ===== verification/Keyset.thy ===== *)
theory Keyset
  imports Paginate
begin

text \<open>
  The meaning of the cursor predicate. The text that \<^verbatim>\<open>keysetPredicate\<close> builds is the rendering of a
  predicate tree; the tree is evaluated in the three-valued logic of SQL, with \<^term>\<open>None\<close> for NULL,
  and selects the rows that come strictly after the cursor in the order of the ORDER BY list.
\<close>

subsection \<open>Predicates and their text\<close>

datatype sterm = Column string | Argument string

fun sterm_text :: "sterm \<Rightarrow> string" where
  "sterm_text (Column c) = c"
| "sterm_text (Argument a) = a"

datatype pred =
    Compare bool sterm sterm
  | RowCompare bool "sterm list" "sterm list"
  | Equal sterm sterm
  | NotDistinct sterm sterm
  | IsNull sterm
  | IsNotNull sterm
  | Paren pred
  | Conj "pred list"
  | Or pred pred
  | Disj "pred list"

definition op_text :: "bool \<Rightarrow> string" where
  "op_text desc = (if desc then ''<'' else ''>'')"

primrec render :: "pred \<Rightarrow> string" where
  "render (Compare desc s t) = sterm_text s @ '' '' @ op_text desc @ '' '' @ sterm_text t"
| "render (RowCompare desc ss ts) = ''('' @ strings_Join '', '' (map sterm_text ss) @ '') '' @ op_text desc @
     '' ('' @ strings_Join '', '' (map sterm_text ts) @ '')''"
| "render (Equal s t) = sterm_text s @ '' = '' @ sterm_text t"
| "render (NotDistinct s t) = sterm_text s @ '' IS NOT DISTINCT FROM '' @ sterm_text t"
| "render (IsNull t) = sterm_text t @ '' IS NULL''"
| "render (IsNotNull t) = sterm_text t @ '' IS NOT NULL''"
| "render (Paren p) = ''('' @ render p @ '')''"
| "render (Conj ps) = strings_Join '' AND '' (map render ps)"
| "render (Or p q) = render p @ '' OR '' @ render q"
| "render (Disj ps) = strings_Join or_sep (map render ps)"

subsection \<open>The predicate of a spec\<close>

definition arg_term :: "SortSpec \<Rightarrow> string \<Rightarrow> sterm" where
  "arg_term spec c = Argument (ks_arg spec c)"

definition row_pred :: "SortSpec \<Rightarrow> bool \<Rightarrow> string list \<Rightarrow> pred" where
  "row_pred spec desc cols =
     (if length cols = 1 then Compare desc (Column (hd cols)) (arg_term spec (hd cols))
      else RowCompare desc (map Column cols) (map (arg_term spec) cols))"

definition same_pred :: "SortSpec \<Rightarrow> string \<Rightarrow> pred" where
  "same_pred spec c =
     (if \<not> usesNativeParams spec then NotDistinct (Column c) (arg_term spec c)
      else Paren (Or (Paren (Conj [IsNull (Column c), IsNull (arg_term spec c)]))
                     (Equal (Column c) (arg_term spec c))))"

definition null_arm :: "SortSpec \<Rightarrow> bool \<Rightarrow> string \<Rightarrow> pred" where
  "null_arm spec desc c =
     (if desc then Conj [IsNotNull (Column c), IsNull (arg_term spec c)]
      else Conj [IsNull (Column c), IsNotNull (arg_term spec c)])"

definition main_preds :: "SortSpec \<Rightarrow> string list \<Rightarrow> string list \<Rightarrow> bool \<Rightarrow> pred list" where
  "main_preds spec columns nullable desc =
     (if columns = [] \<or> \<not> contains nullable (hd columns) then [row_pred spec desc columns]
      else (if tl columns = [] then []
            else [Paren (Conj [same_pred spec (hd columns), row_pred spec desc (tl columns)])]) @
           [Paren (Compare desc (Column (hd columns)) (arg_term spec (hd columns))),
            Paren (null_arm spec desc (hd columns))])"

definition keyset_pred :: "SortSpec \<Rightarrow> string list \<Rightarrow> string list \<Rightarrow> bool \<Rightarrow> pred" where
  "keyset_pred spec columns nullable desc =
     Paren (Disj (main_preds spec columns nullable desc @
       [Paren (Conj (map (\<lambda>c. IsNull (arg_term spec c)) columns))]))"

lemma term_text_arg [simp]: "sterm_text (arg_term spec c) = ks_arg spec c"
  by (simp add: arg_term_def)

lemma map_term_text [simp]: "map sterm_text (map Column cs) = cs" "map sterm_text (map (arg_term spec) cs) = map (ks_arg spec) cs"
  by (simp_all add: comp_def map_idI)

lemma strings_Join_append: "xs \<noteq> [] \<Longrightarrow> strings_Join sep (xs @ [y]) = strings_Join sep xs @ sep @ y"
  by (induction xs) (auto simp: strings_Join_Cons)

lemma render_row: "render (row_pred spec desc cols) = ks_rowComparison spec (op_text desc) cols"
  by (simp add: row_pred_def ks_rowComparison_def comp_def)

lemma render_same: "render (same_pred spec c) = ks_notDistinct spec c"
  by (simp add: same_pred_def ks_notDistinct_def)

lemma render_keyset: "keysetPredicate spec columns nullable desc = render (keyset_pred spec columns nullable desc)"
proof -
  have ne: "main_preds spec columns nullable desc \<noteq> []" by (simp add: main_preds_def)
  have esc: "map (\<lambda>c. ks_arg spec c @ '' IS NULL'') columns = map (render \<circ> (\<lambda>c. IsNull (arg_term spec c))) columns"
    by simp
  have main: "strings_Join or_sep (map render (main_preds spec columns nullable desc)) =
    (if \<not> (columns \<noteq> [] \<and> contains nullable (hd columns)) then ks_rowComparison spec (op_text desc) columns
     else strings_Join or_sep
       ((if tl columns \<noteq> [] then [''('' @ ks_notDistinct spec (hd columns) @ '' AND '' @
            ks_rowComparison spec (op_text desc) (tl columns) @ '')''] else []) @
        [''('' @ hd columns @ '' '' @ op_text desc @ '' '' @ ks_arg spec (hd columns) @ '')'',
         ''('' @ (if desc then hd columns @ '' IS NOT NULL AND '' @ ks_arg spec (hd columns) @ '' IS NULL''
                  else hd columns @ '' IS NULL AND '' @ ks_arg spec (hd columns) @ '' IS NOT NULL'') @ '')'']))"
    by (simp add: main_preds_def render_row render_same null_arm_def)
  show ?thesis
    unfolding keyset_pred_def render.simps map_append list.map strings_Join_append [OF _, of "map render (main_preds spec columns nullable desc)"]
    using ne main by (simp add: keysetPredicate_def Let_def strings_Join_append op_text_def comp_def)
qed

subsection \<open>Three-valued logic\<close>

definition conj3 :: "bool option list \<Rightarrow> bool option" where
  "conj3 vs = (if Some False \<in> set vs then Some False else if None \<in> set vs then None else Some True)"

definition disj3 :: "bool option list \<Rightarrow> bool option" where
  "disj3 vs = (if Some True \<in> set vs then Some True else if None \<in> set vs then None else Some False)"

definition less_by :: "bool \<Rightarrow> 'v :: linorder \<Rightarrow> 'v \<Rightarrow> bool" where
  "less_by desc x y = (if desc then x < y else y < x)"

definition compare3 :: "bool \<Rightarrow> ('v :: linorder) option \<Rightarrow> 'v option \<Rightarrow> bool option" where
  "compare3 desc a b = (case a of None \<Rightarrow> None | Some x \<Rightarrow> (case b of None \<Rightarrow> None | Some y \<Rightarrow> Some (less_by desc x y)))"

text \<open>Rows are compared from left to right; a pair with a NULL makes the result unknown.\<close>

fun compare_rows :: "bool \<Rightarrow> ('v :: linorder) option list \<Rightarrow> 'v option list \<Rightarrow> bool option" where
  "compare_rows desc (a # as) (b # bs) =
     (case a of None \<Rightarrow> None | Some x \<Rightarrow> (case b of None \<Rightarrow> None | Some y \<Rightarrow>
        if x = y then compare_rows desc as bs else Some (less_by desc x y)))"
| "compare_rows desc _ _ = Some False"

fun term_val :: "(string \<Rightarrow> 'v option) \<Rightarrow> (string \<Rightarrow> 'v option) \<Rightarrow> sterm \<Rightarrow> 'v option" where
  "term_val row cur (Column c) = row c"
| "term_val row cur (Argument a) = cur a"

primrec eval3 :: "(string \<Rightarrow> ('v :: linorder) option) \<Rightarrow> (string \<Rightarrow> 'v option) \<Rightarrow> pred \<Rightarrow> bool option" where
  "eval3 row cur (Compare desc s t) = compare3 desc (term_val row cur s) (term_val row cur t)"
| "eval3 row cur (RowCompare desc ss ts) = compare_rows desc (map (term_val row cur) ss) (map (term_val row cur) ts)"
| "eval3 row cur (Equal s t) =
     (case term_val row cur s of None \<Rightarrow> None
      | Some x \<Rightarrow> (case term_val row cur t of None \<Rightarrow> None | Some y \<Rightarrow> Some (x = y)))"
| "eval3 row cur (NotDistinct s t) = Some (term_val row cur s = term_val row cur t)"
| "eval3 row cur (IsNull t) = Some (term_val row cur t = None)"
| "eval3 row cur (IsNotNull t) = Some (term_val row cur t \<noteq> None)"
| "eval3 row cur (Paren p) = eval3 row cur p"
| "eval3 row cur (Conj ps) = conj3 (map (eval3 row cur) ps)"
| "eval3 row cur (Or p q) = disj3 [eval3 row cur p, eval3 row cur q]"
| "eval3 row cur (Disj ps) = disj3 (map (eval3 row cur) ps)"

text \<open>A WHERE clause keeps the rows for which its predicate is true.\<close>

definition selects :: "(string \<Rightarrow> ('v :: linorder) option) \<Rightarrow> (string \<Rightarrow> 'v option) \<Rightarrow> pred \<Rightarrow> bool" where
  "selects row cur p \<longleftrightarrow> eval3 row cur p = Some True"

lemma conj3_true: "conj3 vs = Some True \<longleftrightarrow> (\<forall>v \<in> set vs. v = Some True)"
proof -
  have "v = Some True \<or> v = Some False \<or> v = None" for v :: "bool option" by (cases v) auto
  then show ?thesis unfolding conj3_def by auto
qed

lemma disj3_true: "disj3 vs = Some True \<longleftrightarrow> Some True \<in> set vs"
  by (auto simp: disj3_def)

lemma disj3_map: "disj3 (map f xs) = Some True \<longleftrightarrow> (\<exists>x \<in> set xs. f x = Some True)"
  unfolding disj3_true by (simp add: image_iff) metis

lemma selects_simps:
  "selects row cur (Paren p) = selects row cur p"
  "selects row cur (Conj ps) = list_all (selects row cur) ps"
  "selects row cur (Or p q) = (selects row cur p \<or> selects row cur q)"
  "selects row cur (Disj ps) = list_ex (selects row cur) ps"
  "selects row cur (IsNull t) = (term_val row cur t = None)"
  "selects row cur (IsNotNull t) = (term_val row cur t \<noteq> None)"
  "selects row cur (NotDistinct s t) = (term_val row cur s = term_val row cur t)"
  "selects row cur (Equal s t) = (\<exists>x. term_val row cur s = Some x \<and> term_val row cur t = Some x)"
  "selects row cur (Compare desc s t) =
     (\<exists>x y. term_val row cur s = Some x \<and> term_val row cur t = Some y \<and> less_by desc x y)"
proof -
  show "selects row cur (Disj ps) = list_ex (selects row cur) ps"
    by (simp add: selects_def disj3_map list_ex_iff)
qed (auto simp: selects_def conj3_true disj3_true list_all_iff compare3_def split: option.splits)

subsection \<open>The order of the pages\<close>

text \<open>NULLs come last in ascending and first in descending order: they are above every value.\<close>

fun below :: "('v :: linorder) option \<Rightarrow> 'v option \<Rightarrow> bool" where
  "below None b = False"
| "below (Some x) None = True"
| "below (Some x) (Some y) = (x < y)"

definition later_by :: "bool \<Rightarrow> ('v :: linorder) option \<Rightarrow> 'v option \<Rightarrow> bool" where
  "later_by desc a b = (if desc then below a b else below b a)"

text \<open>A row comes strictly after another one: at the first column where they differ.\<close>

fun comes_after :: "bool \<Rightarrow> ('v :: linorder) option list \<Rightarrow> 'v option list \<Rightarrow> bool" where
  "comes_after desc (a # as) (b # bs) = (if a = b then comes_after desc as bs else later_by desc a b)"
| "comes_after desc _ _ = False"

lemma compare_rows_after:
  "list_all (\<lambda>a. a \<noteq> None) as \<Longrightarrow> list_all (\<lambda>b. b \<noteq> None) bs \<Longrightarrow>
     compare_rows desc as bs = Some True \<longleftrightarrow> comes_after desc as bs"
  by (induction desc as bs rule: compare_rows.induct)
    (auto simp: less_by_def later_by_def split: option.splits)

lemma row_pred_after:
  assumes "list_all (\<lambda>c. row c \<noteq> None \<and> cur (ks_arg spec c) \<noteq> None) cols"
  shows "selects row cur (row_pred spec desc cols) \<longleftrightarrow>
    comes_after desc (map row cols) (map (cur \<circ> ks_arg spec) cols)"
proof (cases "length cols = 1")
  case True
  then obtain c where "cols = [c]" by (auto simp: length_Suc_conv)
  with assms show ?thesis
    by (auto simp: row_pred_def selects_simps arg_term_def later_by_def less_by_def)
next
  case False
  with compare_rows_after [of "map row cols" "map (cur \<circ> ks_arg spec) cols" desc] assms show ?thesis
    by (simp add: row_pred_def selects_def arg_term_def list.pred_map comp_def list_all_iff)
qed

lemma same_pred_eq: "selects row cur (same_pred spec c) \<longleftrightarrow> row c = cur (ks_arg spec c)"
  by (cases "row c") (auto simp: same_pred_def selects_simps arg_term_def)

lemma null_arm_after:
  "selects row cur (Paren (Compare desc (Column c) (arg_term spec c))) \<or> selects row cur (Paren (null_arm spec desc c))
     \<longleftrightarrow> later_by desc (row c) (cur (ks_arg spec c)) \<and> row c \<noteq> cur (ks_arg spec c)"
  by (cases "row c"; cases "cur (ks_arg spec c)")
    (auto simp: selects_simps null_arm_def arg_term_def later_by_def less_by_def)

lemma arg_null: "selects row cur (Conj (map (\<lambda>c. IsNull (arg_term spec c)) cols)) \<longleftrightarrow>
    list_all (\<lambda>c. cur (ks_arg spec c) = None) cols"
  by (simp add: selects_simps list_all_iff arg_term_def)

lemma main_preds_after:
  assumes "columns \<noteq> []"
    and "list_all (\<lambda>c. row c \<noteq> None \<and> cur (ks_arg spec c) \<noteq> None) (tl columns)"
    and "contains nullable (hd columns) \<or> row (hd columns) \<noteq> None \<and> cur (ks_arg spec (hd columns)) \<noteq> None"
  shows "list_ex (selects row cur) (main_preds spec columns nullable desc) \<longleftrightarrow>
    comes_after desc (map row columns) (map (cur \<circ> ks_arg spec) columns)"
proof -
  obtain c cs where c: "columns = c # cs" using assms(1) by (cases columns) auto
  show ?thesis
  proof (cases "contains nullable c")
    case False
    then have "list_all (\<lambda>c. row c \<noteq> None \<and> cur (ks_arg spec c) \<noteq> None) columns" using assms c by simp
    from row_pred_after [OF this, of desc] False c show ?thesis by (simp add: main_preds_def)
  next
    case True
    have "selects row cur (Paren (Conj [same_pred spec c, row_pred spec desc cs])) \<longleftrightarrow>
        row c = cur (ks_arg spec c) \<and> comes_after desc (map row cs) (map (cur \<circ> ks_arg spec) cs)"
      using row_pred_after [of row cur spec cs desc] assms(2) c by (simp add: selects_simps same_pred_eq)
    with null_arm_after [of row cur desc c spec] True c show ?thesis
      by (cases "cs = []") (auto simp: main_preds_def)
  qed
qed


definition date_spec :: SortSpec where
  "date_spec = \<lparr>ss_name = ''s'', ss_keys = [], ss_default = [''id''],
     ss_cursor = [(''day'', ''after_day''), (''id'', ''after_id'')], ss_tiebreak = []\<rparr>"


lemma first_page_selects:
  "list_all (\<lambda>c. cur (ks_arg spec c) = None) columns \<Longrightarrow> selects row cur (keyset_pred spec columns nullable desc)"
  by (simp add: keyset_pred_def selects_simps(1,4) arg_null)

text \<open>When every cursor argument is NULL, the predicate selects every row: the first page.\<close>

theorem keysetPredicate_first_page:
  assumes "list_all (\<lambda>c. cur (ks_arg spec c) = None) columns"
  shows "selects row cur (keyset_pred spec columns nullable desc)"
  using assms by (rule first_page_selects)

theorem keysetPredicate_first_page_witness:
  "selects (\<lambda>_. Some (1 :: int)) (\<lambda>_. None) (keyset_pred date_spec [''day'', ''id''] [''day''] False)"
  by (rule keysetPredicate_first_page) simp

text \<open>With a key of one nullable column, the page after a row whose column is NULL starts over:
  the predicate selects rows that do not come after the cursor.\<close>

theorem keyset_single_nullable_repeats:
  "validateNullable ''s'' \<lparr>sk_name = ''k'', sk_columns = [''day''], sk_nullable = [''day'']\<rparr> = Inr () \<and>
   selects (\<lambda>_. Some (1 :: int)) (\<lambda>_. None) (keyset_pred date_spec [''day''] [''day''] False) \<and>
   \<not> comes_after False [Some (1 :: int)] [None]"
  by (intro conjI first_page_selects) (simp_all add: validateNullable_def later_by_def)

end
