(* ===== verification/Utf8Enc.thy ===== *)
theory Utf8Enc
  imports Utf8
begin

text \<open>
  \<^verbatim>\<open>utf8.AppendRune\<close> (what \<^verbatim>\<open>strings.Builder.WriteRune\<close> appends), the runes of a string as a \<^verbatim>\<open>range\<close>
  loop sees them, and that decoding inverts encoding. The Unicode tables of the package
  \<^verbatim>\<open>unicode\<close> are a record of functions, asked only about runes outside ASCII.
\<close>

subsection \<open>Encoding\<close>

definition valid_rune :: "int \<Rightarrow> bool" where
  "valid_rune r \<longleftrightarrow> 0 \<le> r \<and> r < 0xD800 \<or> 0xE000 \<le> r \<and> r \<le> 0x10FFFF"

definition byte :: "int \<Rightarrow> char" where
  "byte z = char_of (nat z)"

definition encode_valid :: "int \<Rightarrow> string" where
  "encode_valid r =
     (if r < 0x80 then [byte r]
      else if r < 0x800 then [byte (0xC0 + r div 64), byte (0x80 + r mod 64)]
      else if r < 0x10000 then
        [byte (0xE0 + r div 4096), byte (0x80 + r div 64 mod 64), byte (0x80 + r mod 64)]
      else [byte (0xF0 + r div 262144), byte (0x80 + r div 4096 mod 64),
            byte (0x80 + r div 64 mod 64), byte (0x80 + r mod 64)])"

definition EncodeRune :: "int \<Rightarrow> string" where
  "EncodeRune r = encode_valid (if valid_rune r then r else RuneError)"

definition RuneLen :: "int \<Rightarrow> nat" where
  "RuneLen r = (if r < 0x80 then 1 else if r < 0x800 then 2 else if r < 0x10000 then 3 else 4)"

definition encode :: "int list \<Rightarrow> string" where
  "encode rs = concat (map EncodeRune rs)"

lemma encode_simps [simp]:
  "encode [] = []" "encode (r # rs) = EncodeRune r @ encode rs" "encode (rs @ ss) = encode rs @ encode ss"
  by (simp_all add: encode_def)

function runes :: "string \<Rightarrow> int list" where
  "runes s = (if s = [] then [] else case DecodeRune s of (r, w) \<Rightarrow> r # runes (drop w s))"
  by pat_completeness auto
termination
  by (relation "measure length") (auto dest!: sym [of "(_, _)"] dest: DecodeRune_width)

declare runes.simps [simp del]

lemma runes_Nil [simp]: "runes [] = []"
  by (simp add: runes.simps)

subsection \<open>Decoding what was encoded\<close>

lemma byte_int: "byte (int k) = char_of k"
  by (simp add: byte_def)

lemma byte_plus: "byte (numeral m + int k) = char_of (numeral m + k)"
  using byte_int [of "numeral m + k"] by simp

lemma byte_val_of: "k < 256 \<Longrightarrow> byte_val (char_of k) = k"
  by simp

lemma low6_of: "k < 64 \<Longrightarrow> low6 (char_of (0x80 + k)) = int k"
proof -
  assume "k < 64"
  then have 1: "(0x80 + k) mod 64 = k" using mod_mult_self2 [of k 64 2] by (simp add: add.commute)
  have "byte_val (char_of (0x80 + k)) = 0x80 + k" using \<open>k < 64\<close> by simp
  then have "low6 (char_of (0x80 + k)) = int ((0x80 + k) mod 64)" by (simp only: low6_def zmod_int of_nat_numeral)
  then show ?thesis by (simp only: 1)
qed

lemma cont_byte_of: "k < 64 \<Longrightarrow> cont_byte (char_of (0x80 + k :: nat))"
  by (simp add: cont_byte_def)

lemma lead_class_2: "2 \<le> k \<Longrightarrow> k < 32 \<Longrightarrow> lead_class (192 + k) = (2, 0x80, 0xBF)"
  by (simp add: lead_class_def)

lemma lead_class_3: "k < 16 \<Longrightarrow> lead_class (224 + k) = (3, if k = 0 then 0xA0 else 0x80, if k = 13 then 0x9F else 0xBF)"
  by (simp add: lead_class_def)

lemma lead_class_4: "k < 5 \<Longrightarrow> lead_class (240 + k) = (4, if k = 0 then 0x90 else 0x80, if k = 4 then 0x8F else 0xBF)"
  by (simp add: lead_class_def)

lemma int_mod_of: "(l :: nat) + k < 256 \<Longrightarrow> int (byte_val (char_of (l + k))) mod int m = int ((l + k) mod m)"
  by (simp add: zmod_int)

lemma lead_mod:
  fixes k :: nat
  shows "k < 32 \<Longrightarrow> (0xC0 + k) mod 32 = k" "k < 16 \<Longrightarrow> (0xE0 + k) mod 16 = k" "k < 8 \<Longrightarrow> (0xF0 + k) mod 8 = k"
  using mod_mult_self2 [of k 32 6] mod_mult_self2 [of k 16 14] mod_mult_self2 [of k 8 30]
  by (simp_all add: add.commute)

lemma split64:
  fixes k x m :: nat
  assumes "k * 64 + x = m" "x < 64"
  shows "32 \<le> m \<Longrightarrow> k = 0 \<Longrightarrow> 32 \<le> x" "m < 864 \<or> 896 \<le> m \<Longrightarrow> k = 13 \<Longrightarrow> x < 32"
    "16 \<le> m \<Longrightarrow> k = 0 \<Longrightarrow> 16 \<le> x" "m < 272 \<Longrightarrow> k = 4 \<Longrightarrow> x < 16" "m < 1024 \<Longrightarrow> k < 16" "m < 272 \<Longrightarrow> k < 5"
  using assms by auto

lemma decode2:
  assumes "2 \<le> a" "a < 32" "b < 64"
  shows "DecodeRune (char_of (0xC0 + a) # char_of (0x80 + b) # s) = (int (a * 64 + b), 2)"
  using assms int_mod_of [of "0xC0" a 32]
  by (simp add: DecodeRune_def low6_of Let_def lead_class_2 lead_mod)

lemma decode3:
  assumes "a < 16" "b < 64" "c < 64" "a = 0 \<longrightarrow> 32 \<le> b" "a = 13 \<longrightarrow> b < 32"
  shows "DecodeRune (char_of (0xE0 + a) # char_of (0x80 + b) # char_of (0x80 + c) # s) =
    (int (a * 4096 + b * 64 + c), 3)"
  using assms int_mod_of [of "0xE0" a 16]
  by (auto simp: DecodeRune_def low6_of cont_byte_of Let_def lead_class_3 lead_mod)

lemma decode4:
  assumes "a < 5" "b < 64" "c < 64" "d < 64" "a = 0 \<longrightarrow> 16 \<le> b" "a = 4 \<longrightarrow> b < 16"
  shows "DecodeRune (char_of (0xF0 + a) # char_of (0x80 + b) # char_of (0x80 + c) # char_of (0x80 + d) # s) =
    (int (a * 262144 + b * 4096 + c * 64 + d), 4)"
  using assms int_mod_of [of "0xF0" a 8]
  by (auto simp: DecodeRune_def low6_of cont_byte_of Let_def lead_class_4 lead_mod numeral_3_eq_3)

lemma encode_valid_int:
  "encode_valid (int n) =
     (if n < 0x80 then [char_of n]
      else if n < 0x800 then [char_of (0xC0 + n div 64), char_of (0x80 + n mod 64)]
      else if n < 0x10000 then
        [char_of (0xE0 + n div 64 div 64), char_of (0x80 + n div 64 mod 64), char_of (0x80 + n mod 64)]
      else [char_of (0xF0 + n div 64 div 64 div 64), char_of (0x80 + n div 64 div 64 mod 64),
            char_of (0x80 + n div 64 mod 64), char_of (0x80 + n mod 64)])"
proof -
  have d: "int n div 4096 = int (n div 64 div 64)" "int n div 262144 = int (n div 64 div 64 div 64)"
    "int n div 64 = int (n div 64)" "int n mod 64 = int (n mod 64)"
    by (simp_all add: zdiv_int zmod_int div_mult2_eq [symmetric])
  have m: "int k mod 64 = int (k mod 64)" for k by (simp add: zmod_int)
  show ?thesis unfolding encode_valid_def d m byte_int byte_plus by simp
qed

lemma DecodeRune_EncodeRune:
  assumes "valid_rune r"
  shows "DecodeRune (EncodeRune r @ s) = (r, length (EncodeRune r))"
proof -
  obtain n where n: "r = int n" using assms by (cases r) (auto simp: valid_rune_def)
  have e: "EncodeRune (int n) = encode_valid (int n)" using assms n by (simp add: EncodeRune_def)
  define m where "m = n div 64"
  define k where "k = m div 64"
  have nm: "m * 64 + n mod 64 = n" "k * 64 + m mod 64 = m" by (simp_all add: m_def k_def)
  consider "n < 0x80" | "0x80 \<le> n" "n < 0x800" | "0x800 \<le> n" "n < 0x10000" | "0x10000 \<le> n" "n \<le> 0x10FFFF"
    using assms n by (fastforce simp: valid_rune_def)
  then show ?thesis
  proof cases
    case 1
    then show ?thesis by (simp add: n e encode_valid_int DecodeRune_def)
  next
    case 2
    then have "2 \<le> m" "m < 32" by (simp_all add: m_def div_less_iff_less_mult less_eq_div_iff_mult_less_eq)
    then have "DecodeRune (encode_valid (int n) @ s) = (int (m * 64 + n mod 64), 2)"
      using decode2 [of m "n mod 64" s] 2 by (simp add: encode_valid_int m_def [symmetric])
    then show ?thesis using 2 nm by (simp add: n e) (simp add: encode_valid_int)
  next
    case 3
    then have "32 \<le> m" "m < 1024" by (simp_all add: m_def div_less_iff_less_mult less_eq_div_iff_mult_less_eq)
    moreover have "n < 0xD800 \<or> 0xE000 \<le> n" using assms n by (auto simp: valid_rune_def)
    then have "m < 864 \<or> 896 \<le> m" by (auto simp: m_def div_less_iff_less_mult less_eq_div_iff_mult_less_eq)
    ultimately have "k < 16" "k = 0 \<longrightarrow> 32 \<le> m mod 64" "k = 13 \<longrightarrow> m mod 64 < 32"
      using split64 [OF nm(2)] by auto
    then have "DecodeRune (encode_valid (int n) @ s) = (int (k * 4096 + m mod 64 * 64 + n mod 64), 3)"
      using decode3 [of k "m mod 64" "n mod 64" s] 3 by (simp add: encode_valid_int m_def [symmetric] k_def [symmetric])
    moreover have "k * 4096 + m mod 64 * 64 + n mod 64 = n" using nm by linarith
    ultimately show ?thesis using 3 by (simp add: n e) (simp add: encode_valid_int)
  next
    case 4
    define j where "j = k div 64"
    have kj: "j * 64 + k mod 64 = k" by (simp add: j_def)
    have "1024 \<le> m" "m < 17408" using 4 by (simp_all add: m_def div_less_iff_less_mult less_eq_div_iff_mult_less_eq)
    then have "16 \<le> k" "k < 272" by (simp_all add: k_def div_less_iff_less_mult less_eq_div_iff_mult_less_eq)
    then have "j < 5" "j = 0 \<longrightarrow> 16 \<le> k mod 64" "j = 4 \<longrightarrow> k mod 64 < 16"
      using split64 [OF kj] by auto
    then have "DecodeRune (encode_valid (int n) @ s) = (int (j * 262144 + k mod 64 * 4096 + m mod 64 * 64 + n mod 64), 4)"
      using decode4 [of j "k mod 64" "m mod 64" "n mod 64" s] 4
      by (simp add: encode_valid_int m_def [symmetric] k_def [symmetric] j_def [symmetric])
    moreover have "j * 262144 + k mod 64 * 4096 + m mod 64 * 64 + n mod 64 = n" using nm kj by linarith
    ultimately show ?thesis using 4 by (simp add: n e) (simp add: encode_valid_int)
  qed
qed

lemma EncodeRune_ne [simp]: "EncodeRune r \<noteq> []"
  by (simp add: EncodeRune_def encode_valid_def)

lemma RuneLen_EncodeRune: "valid_rune r \<Longrightarrow> RuneLen r = length (EncodeRune r)"
  by (simp add: EncodeRune_def encode_valid_def RuneLen_def)

lemma runes_encode: "list_all valid_rune rs \<Longrightarrow> runes (encode rs) = rs"
proof (induction rs)
  case (Cons r rs)
  then have "DecodeRune (EncodeRune r @ encode rs) = (r, length (EncodeRune r))"
    by (intro DecodeRune_EncodeRune) simp
  with Cons show ?case by (simp add: runes.simps [of "EncodeRune r @ encode rs"])
qed simp

lemma encode_inj: "list_all valid_rune rs \<Longrightarrow> list_all valid_rune ss \<Longrightarrow> encode rs = encode ss \<Longrightarrow> rs = ss"
  by (metis runes_encode)

lemma encode_Nil_iff [simp]: "encode rs = [] \<longleftrightarrow> rs = []"
  by (cases rs) simp_all

subsection \<open>Unicode tables\<close>

record unicode =
  u_letter :: "int \<Rightarrow> bool"
  u_digit :: "int \<Rightarrow> bool"
  u_upper :: "int \<Rightarrow> bool"
  u_toUpper :: "int \<Rightarrow> int"
  u_toLower :: "int \<Rightarrow> int"

definition IsUpper :: "unicode \<Rightarrow> int \<Rightarrow> bool" where
  "IsUpper U r = (if r < 0x80 then 65 \<le> r \<and> r \<le> 90 else u_upper U r)"

definition IsLetter :: "unicode \<Rightarrow> int \<Rightarrow> bool" where
  "IsLetter U r = (if r < 0x80 then 65 \<le> r \<and> r \<le> 90 \<or> 97 \<le> r \<and> r \<le> 122 else u_letter U r)"

definition IsDigit :: "unicode \<Rightarrow> int \<Rightarrow> bool" where
  "IsDigit U r = (if r < 0x80 then 48 \<le> r \<and> r \<le> 57 else u_digit U r)"

definition ToUpper :: "unicode \<Rightarrow> int \<Rightarrow> int" where
  "ToUpper U r = (if r < 0x80 then if 97 \<le> r \<and> r \<le> 122 then r - 32 else r else u_toUpper U r)"

definition ToLower :: "unicode \<Rightarrow> int \<Rightarrow> int" where
  "ToLower U r = (if r < 0x80 then if 65 \<le> r \<and> r \<le> 90 then r + 32 else r else u_toLower U r)"

text \<open>\<^verbatim>\<open>strings.ToLower\<close> and \<^verbatim>\<open>strings.ToUpper\<close>: bytes that are no rune become U+FFFD.\<close>

definition strings_ToLower :: "unicode \<Rightarrow> string \<Rightarrow> string" where
  "strings_ToLower U s = encode (map (ToLower U) (runes s))"

definition strings_ToUpper :: "unicode \<Rightarrow> string \<Rightarrow> string" where
  "strings_ToUpper U s = encode (map (ToUpper U) (runes s))"

text \<open>What the Unicode standard says of the tables: letters and digits are runes and no white
  space, and changing the case of a letter gives a letter.\<close>

definition unicode_ok :: "unicode \<Rightarrow> bool" where
  "unicode_ok U \<longleftrightarrow> (\<forall>r. 0x80 \<le> r \<longrightarrow>
     (u_letter U r \<or> u_digit U r \<longrightarrow> valid_rune r \<and> EncodeRune r \<notin> set space_runes) \<and>
     (u_letter U r \<longrightarrow> IsLetter U (u_toUpper U r) \<and> IsLetter U (u_toLower U r)) \<and>
     (\<not> u_letter U r \<longrightarrow> u_toUpper U r = r \<and> u_toLower U r = r))"

text \<open>An example: the letters of Latin-1 from U+00C0 on, and U+0178, the capital of U+00FF.\<close>

definition latin1 :: unicode where
  "latin1 = \<lparr>u_letter = \<lambda>r. 0xC0 \<le> r \<and> r \<le> 0xFF \<and> r \<noteq> 0xD7 \<and> r \<noteq> 0xF7 \<or> r = 0x178, u_digit = \<lambda>_. False,
     u_upper = \<lambda>r. 0xC0 \<le> r \<and> r \<le> 0xDE \<and> r \<noteq> 0xD7 \<or> r = 0x178,
     u_toUpper = \<lambda>r. if 0xE0 \<le> r \<and> r \<le> 0xFE \<and> r \<noteq> 0xF7 then r - 32 else if r = 0xFF then 0x178 else r,
     u_toLower = \<lambda>r. if 0xC0 \<le> r \<and> r \<le> 0xDE \<and> r \<noteq> 0xD7 then r + 32 else if r = 0x178 then 0xFF else r\<rparr>"

end
