(* ===== verification/Casing.thy ===== *)
theory Casing
  imports Utf8Enc
begin

text \<open>
  Names of Go identifiers, \<^verbatim>\<open>internal/casing\<close>: \<^verbatim>\<open>sanitize.go\<close> replaces what no identifier may contain,
  \<^verbatim>\<open>casing.go\<close> splits the result into words and joins them in camel case, with registered acronyms
  spelled as they were registered. A string builder is the string written so far.
\<close>

subsection \<open>sanitize\<close>

function first_legal :: "unicode \<Rightarrow> string \<Rightarrow> (int \<times> string) option" where
  "first_legal U s =
     (if s = [] then None
      else case DecodeRune s of (ch, w) \<Rightarrow>
        if IsLetter U ch \<or> ch = 95 then Some (ch, drop (RuneLen ch) s)
        else first_legal U (drop w s))"
  by pat_completeness auto
termination
  by (relation "measure (\<lambda>(U, s). length s)") (auto dest!: sym [of "(_, _)"] dest: DecodeRune_width)

declare first_legal.simps [simp del]

function san_loop :: "unicode \<Rightarrow> string \<Rightarrow> bool \<Rightarrow> string \<Rightarrow> string" where
  "san_loop U s prevUnderscore sb =
     (if s = [] then sb
      else case DecodeRune s of (ch, w) \<Rightarrow>
        if IsLetter U ch \<or> IsDigit U ch then san_loop U (drop w s) False (sb @ EncodeRune ch)
        else san_loop U (drop w s) True (if prevUnderscore then sb else sb @ ''_''))"
  by pat_completeness auto
termination
  by (relation "measure (\<lambda>(U, s, p, sb). length s)") (auto dest!: sym [of "(_, _)"] dest: DecodeRune_width)

declare san_loop.simps [simp del]

definition sanitize :: "unicode \<Rightarrow> string \<Rightarrow> string" where
  "sanitize U s =
     (case first_legal U s of
        None \<Rightarrow> []
      | Some (firstLetter, rst) \<Rightarrow> san_loop U rst (firstLetter = 95) (EncodeRune firstLetter))"

subsection \<open>Caser\<close>

record Caser =
  acronyms :: "string \<rightharpoonup> string"

definition NewCaser :: Caser where
  "NewCaser = \<lparr>acronyms = Map.empty\<rparr>"

definition AddAcronyms :: "(string \<rightharpoonup> string) \<Rightarrow> Caser \<Rightarrow> Caser" where
  "AddAcronyms acros cs = cs\<lparr>acronyms := acronyms cs ++ acros\<rparr>"

definition AddAcronym :: "string \<Rightarrow> string \<Rightarrow> Caser \<Rightarrow> Caser" where
  "AddAcronym str acronym cs = cs\<lparr>acronyms := (acronyms cs)(str \<mapsto> acronym)\<rparr>"

text \<open>The loop of \<^verbatim>\<open>convert\<close>.\<close>

function convert_loop :: "unicode \<Rightarrow> (string \<Rightarrow> string \<Rightarrow> string) \<Rightarrow> string \<Rightarrow> nat \<Rightarrow> nat \<Rightarrow> bool \<Rightarrow> string
    \<Rightarrow> string" where
  "convert_loop U conv chars lo hi isUpSpan sb =
     (if hi < length chars then
        (case DecodeRune (drop hi chars) of (ch, sz) \<Rightarrow>
           if ch = 95 then
             convert_loop U conv chars (hi + sz) (hi + sz) False
               (conv sb (take (hi - lo) (drop lo chars)))
           else if IsUpper U ch then
             (let up = (lo + 1 = hi \<or> isUpSpan) in
              if \<not> up then convert_loop U conv chars hi (hi + sz) up
                             (conv sb (take (hi - lo) (drop lo chars)))
              else convert_loop U conv chars lo (hi + sz) up sb)
           else convert_loop U conv chars lo (hi + sz) False sb)
      else conv sb (drop lo chars))"
  by pat_completeness auto
termination
  by (relation "measure (\<lambda>(U, conv, chars, lo, hi, up, sb). length chars - hi)")
    (auto dest!: sym [of "(_, _)"] dest!: DecodeRune_width [rotated])

declare convert_loop.simps [simp del]

definition convert :: "unicode \<Rightarrow> (string \<Rightarrow> string \<Rightarrow> string) \<Rightarrow> string \<Rightarrow> string" where
  "convert U conv s =
     (let s = TrimSpace s in if s = [] then s else convert_loop U conv s 0 0 False [])"

definition appendUpperCamel :: "unicode \<Rightarrow> Caser \<Rightarrow> string \<Rightarrow> string \<Rightarrow> string" where
  "appendUpperCamel U cs sb chars =
     (if chars = [] then sb
      else case acronyms cs (strings_ToLower U chars) of
        Some a \<Rightarrow> sb @ a
      | None \<Rightarrow>
          (case DecodeRune chars of (firstCh, sz) \<Rightarrow>
             sb @ EncodeRune (ToUpper U firstCh) @ drop sz chars))"

definition appendLowerCamel :: "unicode \<Rightarrow> Caser \<Rightarrow> string \<Rightarrow> string \<Rightarrow> string" where
  "appendLowerCamel U cs sb chars =
     (if chars = [] then sb
      else let isFirst = (sb = []) in
        case acronyms cs (strings_ToLower U chars) of
          Some a \<Rightarrow> sb @ (if isFirst then strings_ToLower U a else a)
        | None \<Rightarrow>
            (case DecodeRune chars of (firstCh, sz) \<Rightarrow>
               if isFirst then
                 sb @ EncodeRune (ToLower U firstCh) @ encode (map (ToLower U) (runes (drop sz chars)))
               else sb @ EncodeRune (ToUpper U firstCh) @ drop sz chars))"

definition ToUpperGoIdent :: "unicode \<Rightarrow> Caser \<Rightarrow> string \<Rightarrow> string" where
  "ToUpperGoIdent U cs s =
     (let san = sanitize U s in if san = [] then [] else convert U (appendUpperCamel U cs) san)"

text \<open>The words that \<^verbatim>\<open>ToLowerGoIdent\<close> appends an underscore to.\<close>

definition reserved :: "string list" where
  "reserved =
     [''func'', ''interface'', ''select'', ''case'', ''defer'', ''go'', ''map'', ''struct'',
      ''chan'', ''else'', ''goto'', ''package'', ''switch'', ''const'', ''fallthrough'', ''if'',
      ''range'', ''type'', ''continue'', ''for'', ''import'', ''return'', ''var'']"

definition ToLowerGoIdent :: "unicode \<Rightarrow> Caser \<Rightarrow> string \<Rightarrow> string" where
  "ToLowerGoIdent U cs s =
     (let san = sanitize U s in
      if san = [] then []
      else let con = convert U (appendLowerCamel U cs) san in
        if list_ex (\<lambda>w. w = con) reserved then con @ ''_'' else con)"

end
