(* ===== verification/CasingProps.thy ===== *)
theory CasingProps
  imports Casing
begin

text \<open>
  What \<^verbatim>\<open>internal/casing\<close> promises: the conversion is one of rune lists split into words, its results
  are Go identifiers, and where they are not.
\<close>

subsection \<open>The runes of identifiers\<close>

definition part :: "unicode \<Rightarrow> int \<Rightarrow> bool" where
  "part U r \<longleftrightarrow> IsLetter U r \<or> IsDigit U r"

definition clean :: "unicode \<Rightarrow> int \<Rightarrow> bool" where
  "clean U r \<longleftrightarrow> part U r \<or> r = 95"

text \<open>An identifier of the Go specification: a letter or an underscore, then letters, digits and
  underscores.\<close>

definition go_ident :: "unicode \<Rightarrow> string \<Rightarrow> bool" where
  "go_ident U s \<longleftrightarrow> (\<exists>r rs. s = encode (r # rs) \<and> (IsLetter U r \<or> r = 95) \<and> list_all (clean U) rs)"

lemma valid_ascii: "0 \<le> r \<Longrightarrow> r < 0x80 \<Longrightarrow> valid_rune r"
  by (simp add: valid_rune_def)

lemma unicode_okD:
  assumes "unicode_ok U" "0x80 \<le> r"
  shows "u_letter U r \<Longrightarrow> valid_rune r \<and> EncodeRune r \<notin> set space_runes"
    "u_digit U r \<Longrightarrow> valid_rune r \<and> EncodeRune r \<notin> set space_runes"
    "u_letter U r \<Longrightarrow> IsLetter U (u_toUpper U r) \<and> IsLetter U (u_toLower U r)"
    "\<not> u_letter U r \<Longrightarrow> u_toUpper U r = r \<and> u_toLower U r = r"
  using assms by (auto simp: unicode_ok_def)

lemma clean_wide: "clean U r \<Longrightarrow> \<not> r < 0x80 \<Longrightarrow> u_letter U r \<or> u_digit U r"
  by (auto simp: clean_def part_def IsLetter_def IsDigit_def)

lemma clean_valid: "unicode_ok U \<Longrightarrow> clean U r \<Longrightarrow> valid_rune r"
proof (cases "r < 0x80")
  case True
  assume "clean U r"
  with True show ?thesis by (auto simp: clean_def part_def IsLetter_def IsDigit_def intro!: valid_ascii)
next
  case False
  assume "unicode_ok U" "clean U r"
  with False clean_wide [of U r] unicode_okD(1,2) [of U r] show ?thesis by auto
qed

lemma clean_all_valid: "unicode_ok U \<Longrightarrow> list_all (clean U) rs \<Longrightarrow> list_all valid_rune rs"
  by (auto simp: list_all_iff intro: clean_valid)

lemma part_clean: "list_all (part U) rs \<Longrightarrow> list_all (clean U) rs"
  by (auto simp: list_all_iff clean_def)

lemma EncodeRune_ascii: "0 \<le> r \<Longrightarrow> r < 0x80 \<Longrightarrow> EncodeRune r = [byte r]"
  by (simp add: EncodeRune_def encode_valid_def valid_rune_def)

lemma ToUpper_part:
  assumes "unicode_ok U"
  shows "IsLetter U r \<Longrightarrow> IsLetter U (ToUpper U r)" "part U r \<Longrightarrow> part U (ToUpper U r)"
    "IsLetter U r \<Longrightarrow> IsLetter U (ToLower U r)" "part U r \<Longrightarrow> part U (ToLower U r)"
proof -
  note w = unicode_okD [OF assms, of r]
  show up: "IsLetter U r \<Longrightarrow> IsLetter U (ToUpper U r)"
    using w by (cases "r < 0x80") (auto simp: ToUpper_def IsLetter_def)
  show lo: "IsLetter U r \<Longrightarrow> IsLetter U (ToLower U r)"
    using w by (cases "r < 0x80") (auto simp: ToLower_def IsLetter_def)
  have "IsDigit U r \<Longrightarrow> \<not> IsLetter U r \<Longrightarrow> ToUpper U r = r \<and> ToLower U r = r"
    using w by (cases "r < 0x80") (auto simp: ToUpper_def ToLower_def IsDigit_def IsLetter_def)
  with up lo show "part U r \<Longrightarrow> part U (ToUpper U r)" "part U r \<Longrightarrow> part U (ToLower U r)"
    by (cases "IsLetter U r"; auto simp: part_def)+
qed

subsection \<open>No white space\<close>

lemma space_runes_encoded: "w \<in> set space_runes \<Longrightarrow> \<exists>c. valid_rune c \<and> w = EncodeRune c"
proof -
  have "list_all (\<lambda>w. valid_rune (fst (DecodeRune w)) \<and> w = EncodeRune (fst (DecodeRune w))) space_runes"
    by code_simp
  then show "w \<in> set space_runes \<Longrightarrow> ?thesis" by (auto simp: list_all_iff)
qed

lemma EncodeRune_bytes:
  assumes "valid_rune r"
  shows "\<not> cont_byte (hd (EncodeRune r))" "list_all cont_byte (tl (EncodeRune r))"
proof -
  obtain n where n: "r = int n" using assms by (cases r) (auto simp: valid_rune_def)
  have e: "EncodeRune r = encode_valid (int n)" using assms n by (simp add: EncodeRune_def)
  have "n \<le> 0x10FFFF" using assms n by (auto simp: valid_rune_def)
  then have d: "n div 64 div 64 div 64 < 16" "n < 65536 \<Longrightarrow> n div 64 div 64 < 16" "n < 2048 \<Longrightarrow> n div 64 < 32"
    by (simp_all add: div_less_iff_less_mult)
  show "\<not> cont_byte (hd (EncodeRune r))"
    using d by (auto simp: e encode_valid_int cont_byte_def)
  show "list_all cont_byte (tl (EncodeRune r))"
    unfolding e encode_valid_int by (auto intro!: cont_byte_of)
qed

lemma encode_prefix_rune:
  assumes "valid_rune c" "valid_rune r" "prefix (EncodeRune c) (EncodeRune r @ s)"
  shows "c = r"
proof -
  obtain t where "EncodeRune r @ s = EncodeRune c @ t" using assms(3) by (auto simp: prefix_def)
  then have "DecodeRune (EncodeRune r @ s) = DecodeRune (EncodeRune c @ t)" by simp
  with assms show ?thesis by (simp add: DecodeRune_EncodeRune)
qed

lemma no_cut: "list_all P (tl (u @ v)) \<Longrightarrow> v \<noteq> [] \<Longrightarrow> \<not> P (hd v) \<Longrightarrow> u = []"
  by (cases u; cases v) auto

lemma encode_suffix_rune:
  assumes "valid_rune c" "valid_rune r" "suffix (EncodeRune c) (s @ EncodeRune r)"
  shows "EncodeRune c = EncodeRune r"
proof -
  obtain t where t: "s @ EncodeRune r = t @ EncodeRune c" using assms(3) by (auto simp: suffix_def)
  then consider u where "u @ EncodeRune r = EncodeRune c" | u where "EncodeRune r = u @ EncodeRune c"
    by (auto simp: append_eq_append_conv2)
  then show ?thesis
  proof cases
    case 1
    with no_cut [of cont_byte u "EncodeRune r"] EncodeRune_bytes [OF assms(1)] EncodeRune_bytes(1) [OF assms(2)]
    show ?thesis by simp
  next
    case 2
    with no_cut [of cont_byte u "EncodeRune c"] EncodeRune_bytes [OF assms(2)] EncodeRune_bytes(1) [OF assms(1)]
    show ?thesis by simp
  qed
qed

lemma clean_not_space:
  assumes "unicode_ok U" "clean U r"
  shows "EncodeRune r \<notin> set space_runes"
proof (cases "r < 0x80")
  case True
  then have "48 \<le> r" using assms(2) by (auto simp: clean_def part_def IsLetter_def IsDigit_def)
  with True have "EncodeRune r = [byte r]" "byte_val (byte r) = nat r"
    by (simp_all add: EncodeRune_ascii byte_def)
  moreover have "\<forall>c. [c] \<in> set space_runes \<longrightarrow> byte_val c < 48" by (simp add: space_runes_def)
  ultimately show ?thesis using \<open>48 \<le> r\<close> by auto
next
  case False
  with assms clean_wide [of U r] unicode_okD(1,2) [of U r] show ?thesis by auto
qed

lemma TrimSpace_clean:
  assumes "unicode_ok U" "list_all (clean U) rs"
  shows "TrimSpace (encode rs) = encode rs"
proof (rule TrimSpace_trimmed)
  have "\<not> prefix w (encode rs) \<and> \<not> suffix w (encode rs)" if w: "w \<in> set space_runes" for w
  proof -
    from space_runes_encoded [OF w] obtain c where c: "valid_rune c" "w = EncodeRune c" by blast
    have no: "EncodeRune r \<noteq> w" if "r \<in> set rs" for r
      using clean_not_space [OF assms(1)] assms(2) that w by (auto simp: list_all_iff)
    have "\<not> prefix w (encode rs)"
    proof (cases rs)
      case (Cons r ss)
      then have "valid_rune r" using assms by (auto intro: clean_valid)
      with encode_prefix_rune [OF c(1)] c(2) no [of r] Cons show ?thesis by auto
    qed (simp add: c)
    moreover have "\<not> suffix w (encode rs)"
    proof (cases rs rule: rev_cases)
      case (snoc ss r)
      then have "valid_rune r" using assms by (auto intro: clean_valid)
      with encode_suffix_rune [OF c(1), of r "encode ss"] c(2) no [of r] snoc show ?thesis by auto
    qed (simp add: c)
    ultimately show ?thesis by simp
  qed
  then show "trimmed (encode rs)" by (simp add: trimmed_def list_all_iff)
qed

subsection \<open>Splitting into words\<close>

text \<open>The words of a sanitized name, as lists of runes: an underscore ends a word, and so does an
  upper case rune that does not follow another one. The first rune of a span of upper case counts
  only when it is a single byte.\<close>

fun words :: "unicode \<Rightarrow> int list \<Rightarrow> bool \<Rightarrow> int list \<Rightarrow> int list list" where
  "words U cur up [] = [cur]"
| "words U cur up (r # rs) =
     (if r = 95 then cur # words U [] False rs
      else if IsUpper U r then
        (if length (encode cur) = 1 \<or> up then words U (cur @ [r]) True rs else cur # words U [r] False rs)
      else words U (cur @ [r]) False rs)"

lemma convert_loop_words:
  assumes "list_all valid_rune rs"
  shows "convert_loop U conv (encode (pre @ cur @ rs)) (length (encode pre)) (length (encode (pre @ cur))) up sb =
    foldl conv sb (map encode (words U cur up rs))"
  using assms
proof (induction rs arbitrary: pre cur up sb)
  case Nil
  then show ?case by (simp add: convert_loop.simps)
next
  case (Cons r rs)
  let ?chars = "encode (pre @ cur @ r # rs)" and ?lo = "length (encode pre)" and ?hi = "length (encode (pre @ cur))"
  have dec: "DecodeRune (drop ?hi ?chars) = (r, length (EncodeRune r))"
    using Cons.prems by (simp add: DecodeRune_EncodeRune)
  have hi: "?hi < length ?chars" by simp
  have wd: "take (?hi - ?lo) (drop ?lo ?chars) = encode cur" by simp
  have one: "?lo + 1 = ?hi \<longleftrightarrow> length (encode cur) = 1" by auto
  have "convert_loop U conv ?chars (?hi + length (EncodeRune r)) (?hi + length (EncodeRune r)) up' sb' =
      foldl conv sb' (map encode (words U [] up' rs))" for up' sb'
    using Cons.IH [of "pre @ cur @ [r]" "[]" up' sb'] Cons.prems by (simp add: add.assoc)
  moreover have "convert_loop U conv ?chars ?hi (?hi + length (EncodeRune r)) up' sb' =
      foldl conv sb' (map encode (words U [r] up' rs))" for up' sb'
    using Cons.IH [of "pre @ cur" "[r]" up' sb'] Cons.prems by (simp add: add.assoc)
  moreover have "convert_loop U conv ?chars ?lo (?hi + length (EncodeRune r)) up' sb' =
      foldl conv sb' (map encode (words U (cur @ [r]) up' rs))" for up' sb'
    using Cons.IH [of pre "cur @ [r]" up' sb'] Cons.prems by (simp add: add.assoc)
  ultimately show ?case
    using hi one by (subst convert_loop.simps) (simp only: dec wd words.simps if_True prod.case Let_def, simp)
qed

lemma convert_words:
  assumes "unicode_ok U" "list_all (clean U) rs" "rs \<noteq> []"
  shows "convert U conv (encode rs) = foldl conv [] (map encode (words U [] False rs))"
  using convert_loop_words [OF clean_all_valid [OF assms(1,2)], of U conv "[]" "[]" False "[]"] assms
  by (simp add: convert_def TrimSpace_clean)

lemma words_part:
  "list_all (part U) cur \<Longrightarrow> list_all (clean U) rs \<Longrightarrow> list_all (list_all (part U)) (words U cur up rs)"
  by (induction U cur up rs rule: words.induct) (auto simp: clean_def)

lemma words_first: "cur \<noteq> [] \<Longrightarrow> \<exists>cs ws. words U cur up rs = (cur @ cs) # ws"
proof (induction U cur up rs rule: words.induct)
  case (2 U cur up r rs)
  then show ?case by (auto simp del: append_assoc split: if_splits) (metis append_assoc)+
qed simp

lemma words_letter:
  assumes "r \<noteq> 95"
  shows "\<exists>cs ws. filter (\<lambda>w. w \<noteq> []) (words U [] False (r # rs)) = (r # cs) # ws"
  using assms words_first [of "[r]" U False rs] by (auto split: if_splits)

subsection \<open>The two converters\<close>

text \<open>What is asked of the registered acronyms: each is spelled as an identifier that starts with a
  letter and has no underscore.\<close>

definition acro_ok :: "unicode \<Rightarrow> Caser \<Rightarrow> bool" where
  "acro_ok U cs \<longleftrightarrow> (\<forall>k v. acronyms cs k = Some v \<longrightarrow>
     (\<exists>r rs. v = encode (r # rs) \<and> IsLetter U r \<and> list_all (part U) rs))"

locale word_converter =
  fixes conv :: "unicode \<Rightarrow> Caser \<Rightarrow> string \<Rightarrow> string \<Rightarrow> string"
  assumes skips: "conv U cs sb [] = sb"
    and writes: "unicode_ok U \<Longrightarrow> acro_ok U cs \<Longrightarrow> list_all (part U) (r # rs) \<Longrightarrow>
      \<exists>r' rs'. conv U cs sb (encode (r # rs)) = sb @ encode (r' # rs') \<and> list_all (part U) (r' # rs') \<and>
        (IsLetter U r \<longrightarrow> IsLetter U r')"
begin

lemma fold_skips: "foldl (conv U cs) sb (map encode ws) = foldl (conv U cs) sb (map encode (filter (\<lambda>w. w \<noteq> []) ws))"
  by (induction ws arbitrary: sb) (auto simp: skips)

lemma fold_part:
  "unicode_ok U \<Longrightarrow> acro_ok U cs \<Longrightarrow> list_all (list_all (part U)) ws \<Longrightarrow>
     \<exists>rs. foldl (conv U cs) sb (map encode ws) = sb @ encode rs \<and> list_all (part U) rs"
proof (induction ws arbitrary: sb)
  case Nil
  show ?case by (rule exI [of _ "[]"]) simp
next
  case (Cons w ws)
  show ?case
  proof (cases w)
    case Nil
    with Cons show ?thesis by (simp add: skips)
  next
    case (Cons r rs)
    then have "list_all (part U) (r # rs)" using Cons.prems by simp
    from writes [OF Cons.prems(1,2) this, of sb] obtain ss where
      ss: "conv U cs sb (encode (r # rs)) = sb @ encode ss" "list_all (part U) ss" by blast
    from Cons.IH [of "sb @ encode ss"] Cons.prems obtain ts where
      "foldl (conv U cs) (sb @ encode ss) (map encode ws) = (sb @ encode ss) @ encode ts" "list_all (part U) ts" by auto
    with ss Cons show ?thesis by (intro exI [of _ "ss @ ts"]) simp
  qed
qed

lemma convert_ident:
  assumes "unicode_ok U" "acro_ok U cs" "list_all (clean U) (r # rs)" "IsLetter U r"
  shows "\<exists>r' rs'. convert U (conv U cs) (encode (r # rs)) = encode (r' # rs') \<and> IsLetter U r' \<and>
    list_all (part U) rs'"
proof -
  have "r \<noteq> 95" using assms(4) by (auto simp: IsLetter_def)
  then obtain c ws where w: "filter (\<lambda>w. w \<noteq> []) (words U [] False (r # rs)) = (r # c) # ws"
    using words_letter by blast
  have p: "list_all (list_all (part U)) (words U [] False (r # rs))"
    using words_part [OF _ assms(3)] by simp
  have "set ((r # c) # ws) \<subseteq> set (words U [] False (r # rs))" using w by (metis filter_is_subset)
  with p have p': "list_all (part U) (r # c)" "list_all (list_all (part U)) ws"
    by (auto simp: list_all_iff)
  from writes [OF assms(1,2) p'(1), of "[]"] assms(4) obtain r1 rs1 where
    1: "conv U cs [] (encode (r # c)) = encode (r1 # rs1)" "IsLetter U r1" "list_all (part U) (r1 # rs1)" by auto
  from fold_part [OF assms(1,2) p'(2), of "encode (r1 # rs1)"] obtain ts where
    2: "foldl (conv U cs) (encode (r1 # rs1)) (map encode ws) = encode (r1 # rs1) @ encode ts" "list_all (part U) ts" by blast
  have "convert U (conv U cs) (encode (r # rs)) = foldl (conv U cs) [] (map encode (words U [] False (r # rs)))"
    by (rule convert_words [OF assms(1,3)]) simp
  also have "\<dots> = encode (r1 # rs1 @ ts)"
    unfolding fold_skips [of U cs "[]" "words U [] False (r # rs)"] w using 1(1) 2(1) by simp
  finally show ?thesis using 1 2(2) by (intro exI [of _ r1] exI [of _ "rs1 @ ts"]) simp
qed

end

lemma drop_encode_rune: "valid_rune r \<Longrightarrow> DecodeRune (encode (r # rs)) = (r, length (EncodeRune r))"
  by (simp add: DecodeRune_EncodeRune)

lemma lower_encode: "list_all valid_rune rs \<Longrightarrow> strings_ToLower U (encode rs) = encode (map (ToLower U) rs)"
  by (simp add: strings_ToLower_def runes_encode)

lemma part_lower: "unicode_ok U \<Longrightarrow> list_all (part U) rs \<Longrightarrow> list_all (part U) (map (ToLower U) rs)"
  by (auto simp: list_all_iff ToUpper_part(4))

interpretation upper: word_converter appendUpperCamel
proof
  show "appendUpperCamel U cs sb [] = sb" for U cs sb by (simp add: appendUpperCamel_def)
  fix U cs r rs sb
  assume ok: "unicode_ok U" "acro_ok U cs" "list_all (part U) (r # rs)"
  have v: "valid_rune r" "list_all valid_rune rs" using ok clean_all_valid [OF ok(1) part_clean [OF ok(3)]] by auto
  show "\<exists>r' rs'. appendUpperCamel U cs sb (encode (r # rs)) = sb @ encode (r' # rs') \<and>
      list_all (part U) (r' # rs') \<and> (IsLetter U r \<longrightarrow> IsLetter U r')"
  proof (cases "acronyms cs (strings_ToLower U (encode (r # rs)))")
    case None
    then have "appendUpperCamel U cs sb (encode (r # rs)) = sb @ encode (ToUpper U r # rs)"
      using drop_encode_rune [OF v(1), of rs] by (simp add: appendUpperCamel_def)
    with ok ToUpper_part(1,2) [OF ok(1), of r] show ?thesis by (intro exI [of _ "ToUpper U r"] exI [of _ rs]) simp
  next
    case (Some a)
    with ok(2) obtain r' rs' where "a = encode (r' # rs')" "IsLetter U r'" "list_all (part U) rs'"
      unfolding acro_ok_def by blast
    with Some show ?thesis
      by (intro exI [of _ r'] exI [of _ rs']) (simp add: appendUpperCamel_def part_def)
  qed
qed

interpretation lower: word_converter appendLowerCamel
proof
  show "appendLowerCamel U cs sb [] = sb" for U cs sb by (simp add: appendLowerCamel_def)
  fix U cs r rs sb
  assume ok: "unicode_ok U" "acro_ok U cs" "list_all (part U) (r # rs)"
  have v: "valid_rune r" "list_all valid_rune rs" using ok clean_all_valid [OF ok(1) part_clean [OF ok(3)]] by auto
  note up = ToUpper_part [OF ok(1), of r]
  show "\<exists>r' rs'. appendLowerCamel U cs sb (encode (r # rs)) = sb @ encode (r' # rs') \<and>
      list_all (part U) (r' # rs') \<and> (IsLetter U r \<longrightarrow> IsLetter U r')"
  proof (cases "acronyms cs (strings_ToLower U (encode (r # rs)))")
    case None
    then have "appendLowerCamel U cs sb (encode (r # rs)) = sb @
        (if sb = [] then encode (ToLower U r # map (ToLower U) rs) else encode (ToUpper U r # rs))"
      using drop_encode_rune [OF v(1), of rs] runes_encode [OF v(2)] by (simp add: appendLowerCamel_def Let_def)
    with ok up part_lower [OF ok(1), of rs] show ?thesis
      by (cases "sb = []") (auto intro: exI [of _ "ToLower U r"] exI [of _ "ToUpper U r"])
  next
    case (Some a)
    with ok(2) obtain r' rs' where a: "a = encode (r' # rs')" "IsLetter U r'" "list_all (part U) rs'"
      unfolding acro_ok_def by blast
    then have p: "list_all (part U) (r' # rs')" by (simp add: part_def)
    have "strings_ToLower U a = encode (map (ToLower U) (r' # rs'))"
      unfolding a(1) by (rule lower_encode [OF clean_all_valid [OF ok(1) part_clean [OF p]]])
    then have "appendLowerCamel U cs sb (encode (r # rs)) = sb @
        (if sb = [] then encode (ToLower U r' # map (ToLower U) rs') else encode (r' # rs'))"
      using Some a(1) by (simp add: appendLowerCamel_def Let_def)
    with a p ToUpper_part [OF ok(1), of r'] part_lower [OF ok(1), of rs'] show ?thesis
      by (cases "sb = []") (auto intro: exI [of _ "ToLower U r'"] exI [of _ r'])
  qed
qed

subsection \<open>Sanitized names\<close>

lemma san_loop_clean: "\<exists>rs. san_loop U s p sb = sb @ encode rs \<and> list_all (clean U) rs"
proof (induction U s p sb rule: san_loop.induct)
  case (1 U s p sb)
  show ?case
  proof (cases "s = []")
    case True
    then show ?thesis by (intro exI [of _ "[]"]) (simp add: san_loop.simps)
  next
    case False
    obtain ch w where d: "DecodeRune s = (ch, w)" by (cases "DecodeRune s")
    show ?thesis
    proof (cases "IsLetter U ch \<or> IsDigit U ch")
      case True
      from 1(1) [OF False d [symmetric] True] obtain rs where
        "san_loop U (drop w s) False (sb @ EncodeRune ch) = (sb @ EncodeRune ch) @ encode rs" "list_all (clean U) rs" by auto
      moreover have "clean U ch" using True by (simp add: clean_def part_def)
      ultimately show ?thesis
        using False d True by (intro exI [of _ "ch # rs"]) (simp add: san_loop.simps [of U s])
    next
      case no: False
      have u: "EncodeRune 95 = ''_''" by code_simp
      from 1(2) [OF False d [symmetric] no] obtain rs where
        "san_loop U (drop w s) True (if p then sb else sb @ ''_'') = (if p then sb else sb @ ''_'') @ encode rs"
        "list_all (clean U) rs" by auto
      moreover have "clean U 95" by (simp add: clean_def)
      ultimately show ?thesis
        using False d no u by (intro exI [of _ "if p then rs else 95 # rs"]) (simp add: san_loop.simps [of U s])
    qed
  qed
qed

lemma sanitize_clean:
  assumes "first_legal U s = Some (ch, rst)"
  shows "\<exists>rs. sanitize U s = encode (ch # rs) \<and> list_all (clean U) rs"
  using assms san_loop_clean [of U rst "ch = 95" "EncodeRune ch"] by (auto simp: sanitize_def)

lemma first_legal_letter: "first_legal U s = Some (ch, rst) \<Longrightarrow> IsLetter U ch \<or> ch = 95"
proof (induction U s rule: first_legal.induct)
  case (1 U s)
  then show ?case by (subst (asm) (2) first_legal.simps) (auto split: if_splits prod.splits)
qed

definition go_keywords :: "string list" where
  "go_keywords = reserved @ [''break'', ''default'']"

subsection \<open>Properties\<close>

text \<open>C30: the loop of \<^verbatim>\<open>convert\<close> over the bytes of a sanitized name writes the words that the name has
  as a list of runes, one after the other.\<close>

theorem convert_refines_words:
  assumes "unicode_ok U" "list_all (clean U) rs" "rs \<noteq> []"
  shows "convert U conv (encode rs) = foldl conv [] (map encode (words U [] False rs))"
  by (rule convert_words [OF assms])

lemma latin1_ok: "unicode_ok latin1"
proof -
  have b: "byte 195 = CHR 0xC3" by code_simp
  have hds: "list_all (\<lambda>w. hd w \<noteq> CHR 0xC3 \<and> hd w \<noteq> CHR 0xC5) space_runes" by code_simp
  have "EncodeRune r \<notin> set space_runes \<and> valid_rune r" if "0xC0 \<le> r" "r \<le> 0xFF" for r
  proof -
    have "r div 64 = 3" using that by presburger
    moreover have v: "valid_rune r" using that by (simp add: valid_rune_def)
    ultimately have "hd (EncodeRune r) = CHR 0xC3" using that b by (simp add: EncodeRune_def encode_valid_def)
    with hds v show ?thesis by (auto simp: list_all_iff)
  qed
  moreover have "hd (EncodeRune 0x178) = CHR 0xC5" "valid_rune 0x178" by code_simp+
  then have "EncodeRune 0x178 \<notin> set space_runes \<and> valid_rune 0x178" using hds by (auto simp: list_all_iff)
  ultimately show ?thesis by (auto simp: unicode_ok_def latin1_def IsLetter_def)
qed

theorem convert_refines_words_witness:
  "convert latin1 (appendUpperCamel latin1 NewCaser) (encode [111, 73, 68, 115]) =
     foldl (appendUpperCamel latin1 NewCaser) [] (map encode (words latin1 [] False [111, 73, 68, 115]))"
proof (rule convert_refines_words [OF latin1_ok])
  show "list_all (clean latin1) [111, 73, 68, 115]" by code_simp
qed simp



text \<open>\<^verbatim>\<open>ToLowerGoIdent\<close> gives a Go identifier for every name whose first legal rune is a letter, and
  it is none of the keywords of Go but \<^verbatim>\<open>break\<close> and \<^verbatim>\<open>default\<close>.\<close>

lemma ToLowerGoIdent_ident:
  assumes "unicode_ok U" "acro_ok U cs" "first_legal U s = Some (ch, rst)" "ch \<noteq> 95"
  shows "go_ident U (ToLowerGoIdent U cs s) \<and>
    ToLowerGoIdent U cs s \<notin> set go_keywords - {''break'', ''default''}"
proof -
  obtain rs where rs: "sanitize U s = encode (ch # rs)" "list_all (clean U) rs"
    using sanitize_clean [OF assms(3)] by blast
  have l: "IsLetter U ch" using first_legal_letter [OF assms(3)] assms(4) by simp
  then have "list_all (clean U) (ch # rs)" using rs(2) by (simp add: clean_def part_def)
  from lower.convert_ident [OF assms(1,2) this l] obtain r' rs' where
    c: "convert U (appendLowerCamel U cs) (encode (ch # rs)) = encode (r' # rs')" "IsLetter U r'" "list_all (part U) rs'"
    by blast
  let ?con = "encode (r' # rs')"
  have res: "ToLowerGoIdent U cs s = (if ?con \<in> set reserved then ?con @ ''_'' else ?con)"
    using rs(1) c(1) by (simp add: ToLowerGoIdent_def Let_def list_ex_iff)
  have u: "''_'' = encode [95]" by code_simp
  have "go_ident U ?con" unfolding go_ident_def using c part_clean by blast
  moreover have "go_ident U (?con @ ''_'')"
    unfolding go_ident_def u using c part_clean [OF c(3)]
    by (intro exI [of _ r'] exI [of _ "rs' @ [95]"]) (simp add: clean_def)
  moreover have "?con @ ''_'' \<notin> set go_keywords"
  proof -
    have "list_all (\<lambda>w. last w \<noteq> CHR ''_'') go_keywords" by code_simp
    then show ?thesis by (auto simp: list_all_iff)
  qed
  ultimately show ?thesis unfolding res by (auto simp: go_keywords_def)
qed

lemma ToLowerGoIdent_ident_witness:
  "go_ident latin1 (ToLowerGoIdent latin1 NewCaser ''type'') \<and>
    ToLowerGoIdent latin1 NewCaser ''type'' \<notin> set go_keywords - {''break'', ''default''}"
proof (rule ToLowerGoIdent_ident [OF latin1_ok])
  show "acro_ok latin1 NewCaser" by (simp add: acro_ok_def NewCaser_def)
  show "first_legal latin1 ''type'' = Some (116, ''ype'')" by code_simp
qed simp

text \<open>A name that starts with an underscore and a digit is turned into a digit, which is no
  identifier, and a column named \<^verbatim>\<open>default\<close> or \<^verbatim>\<open>break\<close> keeps its name, which is a keyword.\<close>

theorem casing_not_an_identifier:
  "ToUpperGoIdent latin1 NewCaser ''_1'' = ''1'' \<and>
   ToLowerGoIdent latin1 NewCaser ''default'' = ''default'' \<and>
   ToLowerGoIdent latin1 NewCaser ''break'' = ''break''"
  by code_simp

end
