(* ===== verification/GoTypes.thy ===== *)
theory GoTypes
  imports Casing "HOL-Library.List_Lexorder" "HOL-Library.Char_ord"
begin

text \<open>
  Go types in the generated code, \<^verbatim>\<open>internal/codegen/golang/gotype\<close>: the type tree, how a type is
  spelled inside a package, how a \<^verbatim>\<open>--go-type\<close> is read, and the walk over a tree; and the imports of a
  generated file, \<^verbatim>\<open>internal/codegen/golang/import_set.go\<close>. An index out of range, which panics in Go,
  is the result \<^term>\<open>None\<close> or an error of its own. A database type is the pair of whether it is an
  array and its name; the source only asks for those.
\<close>

subsection \<open>Type trees\<close>

datatype gotype =
    ArrayType string gotype
  | MapType string gotype gotype
  | CompositeType string "string list" string "string list" "gotype list"
  | EnumType string string "string list" "string list"
  | ImportType string gotype
  | OpaqueType string
  | PointerType gotype
  | VoidType

fun Import :: "gotype \<Rightarrow> string" where
  "Import (ImportType pkg t) = pkg"
| "Import _ = []"

fun BaseName :: "gotype \<Rightarrow> string" where
  "BaseName (ArrayType sql t) = ''[]'' @ BaseName t"
| "BaseName (MapType sql k v) = ''map['' @ BaseName k @ '']'' @ BaseName v"
| "BaseName (CompositeType sql cols name fnames types) = name"
| "BaseName (EnumType sql name labels values) = name"
| "BaseName (ImportType pkg t) = BaseName t"
| "BaseName (OpaqueType name) = name"
| "BaseName (PointerType t) = ''*'' @ BaseName t"
| "BaseName VoidType = []"

definition majorVersion :: "string \<Rightarrow> bool" where
  "majorVersion s \<longleftrightarrow> length s \<ge> 2 \<and> hd s = CHR ''v'' \<and> list_all is_digit (tl s)"

definition ExtractShortPackage :: "string \<Rightarrow> string option" where
  "ExtractShortPackage pkgPath =
     (let parts = Split pkgPath CHR ''/''; shortPkg = last parts in
      if majorVersion shortPkg then
        (if length parts < 2 then None else Some (parts ! (length parts - 2)))
      else Some shortPkg)"

fun QualifyType :: "gotype \<Rightarrow> string \<Rightarrow> (string \<rightharpoonup> string) \<Rightarrow> string option" where
  "QualifyType (MapType sql k v) other aliases =
     Option.bind (QualifyType k other aliases) (\<lambda>ks.
     map_option (\<lambda>vs. ''map['' @ ks @ '']'' @ vs) (QualifyType v other aliases))"
| "QualifyType (ArrayType sql t) other aliases =
     map_option (\<lambda>s. ''[]'' @ s) (QualifyType t other aliases)"
| "QualifyType (PointerType t) other aliases =
     map_option (\<lambda>s. ''*'' @ s) (QualifyType t other aliases)"
| "QualifyType typ other aliases =
     (let name = BaseName typ; pkg = Import typ in
      if pkg = [] \<or> pkg = other then Some name
      else let alias = (case aliases pkg of None \<Rightarrow> [] | Some a \<Rightarrow> a) in
        map_option (\<lambda>short. short @ ''.'' @ name)
          (if alias = [] then ExtractShortPackage pkg else Some alias))"

definition ChooseFallbackName :: "unicode \<Rightarrow> string \<Rightarrow> string \<Rightarrow> string" where
  "ChooseFallbackName U pgName pre =
     pre @ encode (filter (\<lambda>ch. IsLetter U ch \<or> ch = 95 \<or> IsDigit U ch) (runes pgName))"

definition enum_label :: "unicode \<Rightarrow> Caser \<Rightarrow> string \<Rightarrow> nat \<Rightarrow> string \<Rightarrow> string" where
  "enum_label U cs name i label =
     (let ident = ToUpperGoIdent U cs label in
      name @ (if ident = [] then ChooseFallbackName U label (''UnnamedLabel'' @ itoa (int i)) else ident))"

definition NewArrayType :: "string \<Rightarrow> gotype \<Rightarrow> gotype" where
  "NewArrayType sqlName elem = ArrayType sqlName elem"

definition NewEnumType :: "unicode \<Rightarrow> Caser \<Rightarrow> string \<Rightarrow> string \<Rightarrow> string list \<Rightarrow> gotype" where
  "NewEnumType U cs pkgPath sqlName sqlLabels =
     (let ident = ToUpperGoIdent U cs sqlName;
          name = (if ident = [] then ChooseFallbackName U sqlName ''UnnamedEnum'' else ident);
          labels = map (\<lambda>(i, l). enum_label U cs name i l) (List.enumerate 0 sqlLabels);
          typ = EnumType sqlName name labels sqlLabels
      in if pkgPath \<noteq> [] then ImportType pkgPath typ else typ)"

subsection \<open>Reading a Go type\<close>

datatype gotype_error =
    IndexPanic
  | MissingBracket string
  | NotImportPath string string
  | NotArrayType string

fun dot_loop :: "string \<Rightarrow> nat \<Rightarrow> int \<Rightarrow> nat option \<Rightarrow> nat option" where
  "dot_loop [] i depth lst = lst"
| "dot_loop (b # bs) i depth lst =
     (if b = CHR ''['' then dot_loop bs (i + 1) (depth + 1) lst
      else if b = CHR '']'' then dot_loop bs (i + 1) (depth - 1) lst
      else if b = CHR ''.'' then dot_loop bs (i + 1) depth (if depth = 0 then Some i else lst)
      else dot_loop bs (i + 1) depth lst)"

definition lastDotOutsideBrackets :: "string \<Rightarrow> nat option" where
  "lastDotOutsideBrackets bs = dot_loop bs 0 0 None"

definition stdPackages :: "string list" where
  "stdPackages =
     [''bufio'', ''bytes'', ''cmp'', ''context'', ''crypto'', ''embed'', ''encoding'', ''errors'', ''expvar'',
      ''flag'', ''fmt'', ''hash'', ''html'', ''image'', ''io'', ''iter'', ''log'', ''maps'', ''math'', ''mime'',
      ''net'', ''os'', ''path'', ''plugin'', ''reflect'', ''regexp'', ''runtime'', ''slices'', ''sort'',
      ''strconv'', ''strings'', ''structs'', ''sync'', ''syscall'', ''testing'', ''time'', ''unicode'',
      ''unique'', ''unsafe'', ''weak'']"

definition IsImportPath :: "string \<Rightarrow> bool" where
  "IsImportPath pkgPath \<longleftrightarrow>
     list_ex (\<lambda>c. c = CHR ''.'' \<or> c = CHR ''/'') pkgPath \<or> list_ex (\<lambda>p. p = pkgPath) stdPackages"

definition IsByteSlice :: "string \<Rightarrow> bool" where
  "IsByteSlice name \<longleftrightarrow> name = ''[]byte''"

text \<open>The type argument of a generic type is qualified by its short package name.\<close>

definition shorten_generic :: "string \<Rightarrow> string option" where
  "shorten_generic name =
     (case IndexByte name CHR ''['' of None \<Rightarrow> Some name
      | Some k \<Rightarrow>
          (let inner0 = drop (k + 1) name;
               inner = (if suffix '']'' inner0 then butlast inner0 else inner0) in
           case lastDotOutsideBrackets inner of None \<Rightarrow> Some name
           | Some d \<Rightarrow>
               map_option (\<lambda>short. take (k + 1) name @ short @ ''.'' @ drop (d + 1) inner @ '']'')
                 (ExtractShortPackage (take d inner))))"

text \<open>The name and package of a type, after the brackets and the star.\<close>

definition parse_named :: "string \<Rightarrow> string \<Rightarrow> gotype_error + gotype" where
  "parse_named qualType bs =
     (let idx = lastDotOutsideBrackets bs;
          name = (case idx of None \<Rightarrow> bs | Some d \<Rightarrow> drop (d + 1) bs) in
      case shorten_generic name of
        None \<Rightarrow> Inl IndexPanic
      | Some nm \<Rightarrow>
          (case idx of
             None \<Rightarrow> Inr (OpaqueType nm)
           | Some d \<Rightarrow>
               if \<not> IsImportPath (take d bs) then Inl (NotImportPath (take d bs) qualType)
               else Inr (ImportType (take d bs) (OpaqueType nm))))"

definition parse_pointer :: "string \<Rightarrow> string \<Rightarrow> gotype_error + gotype" where
  "parse_pointer qualType bs =
     (if bs = [] then Inl IndexPanic
      else if hd bs = CHR ''*'' then map_res PointerType (parse_named qualType (tl bs))
      else parse_named qualType bs)"

definition ParseOpaqueType :: "string \<Rightarrow> (bool \<times> string) option \<Rightarrow> gotype_error + gotype" where
  "ParseOpaqueType qualType sqlType =
     (if qualType = [] then Inl IndexPanic
      else if hd qualType = CHR ''['' then
        (if length qualType < 2 then Inl IndexPanic
         else if qualType ! 1 \<noteq> CHR '']'' then Inl (MissingBracket qualType)
         else res_bind (parse_pointer qualType (drop 2 qualType)) (\<lambda>typ.
           case sqlType of
             Some (True, name) \<Rightarrow> Inr (ArrayType name typ)
           | Some (False, name) \<Rightarrow>
               if IsByteSlice qualType then Inr (ArrayType [] typ) else Inl (NotArrayType qualType)
           | None \<Rightarrow> Inr (ArrayType [] typ)))
      else parse_pointer qualType qualType)"

text \<open>\<^verbatim>\<open>mustParseOpaqueType\<close> panics where \<^verbatim>\<open>ParseOpaqueType\<close> fails; \<open>None\<close> stands for that.\<close>

definition mustParseOpaqueType :: "string \<Rightarrow> (bool \<times> string) option \<Rightarrow> gotype option" where
  "mustParseOpaqueType qualType sqlType =
     (case ParseOpaqueType qualType sqlType of Inl e \<Rightarrow> None | Inr t \<Rightarrow> Some t)"

definition MustParseKnownType :: "string \<Rightarrow> gotype option" where
  "MustParseKnownType qualType = mustParseOpaqueType qualType None"

definition MustParseKnownArrayType :: "string \<Rightarrow> string \<Rightarrow> gotype option" where
  "MustParseKnownArrayType qualType sqlName = mustParseOpaqueType qualType (Some (True, sqlName))"

subsection \<open>Walking a type\<close>

fun Walk :: "gotype \<Rightarrow> (gotype \<Rightarrow> 's \<Rightarrow> bool \<times> 's) \<Rightarrow> 's \<Rightarrow> 's" where
  "Walk typ fn s =
     (case fn typ s of (deeper, s1) \<Rightarrow>
        if \<not> deeper then s1
        else case typ of
          ImportType pkg t \<Rightarrow> Walk t fn s1
        | CompositeType sql cols name fnames types \<Rightarrow> fold (\<lambda>field. Walk field fn) types s1
        | MapType sql k v \<Rightarrow> Walk v fn (Walk k fn s1)
        | ArrayType sql t \<Rightarrow> Walk t fn s1
        | PointerType t \<Rightarrow> Walk t fn s1
        | _ \<Rightarrow> s1)"

declare Walk.simps [simp del]

fun UnwrapNestedType :: "gotype \<Rightarrow> gotype" where
  "UnwrapNestedType (ImportType pkg t) = UnwrapNestedType t"
| "UnwrapNestedType (PointerType t) = UnwrapNestedType t"
| "UnwrapNestedType t = t"

definition pgx_names :: "string list" where
  "pgx_names =
     [''string'', ''byte'', ''rune'', ''int'', ''int16'', ''int32'', ''int64'', ''uint'', ''uint16'', ''uint32'',
      ''uint64'', ''float32'', ''float64'', ''time.Time'']"

text \<open>\<^verbatim>\<open>IsPgxSupportedArray\<close> on the element type of an array.\<close>

definition IsPgxSupportedArray :: "gotype \<Rightarrow> bool" where
  "IsPgxSupportedArray elem =
     (let e1 = (case elem of PointerType t \<Rightarrow> t | t \<Rightarrow> t);
          pkgPath = Import e1;
          e2 = (case e1 of ImportType pkg t \<Rightarrow> t | t \<Rightarrow> t)
      in case e2 of
           OpaqueType n \<Rightarrow>
             list_ex (\<lambda>x. x = (if pkgPath \<noteq> [] then pkgPath @ ''.'' @ n else n)) pgx_names
         | _ \<Rightarrow> False)"

fun HasCompositeType :: "gotype \<Rightarrow> bool" where
  "HasCompositeType (ArrayType sql t) = HasCompositeType t"
| "HasCompositeType (CompositeType sql cols name fnames types) = True"
| "HasCompositeType _ = False"

fun HasArrayType :: "gotype \<Rightarrow> bool" where
  "HasArrayType (ArrayType sql t) = True"
| "HasArrayType (CompositeType sql cols name fnames types) = list_ex HasArrayType types"
| "HasArrayType _ = False"

subsection \<open>Import sets\<close>

record ImportSet =
  set_imports :: "string set"

definition NewImportSet :: ImportSet where
  "NewImportSet = \<lparr>set_imports = {}\<rparr>"

definition AddPackage :: "string \<Rightarrow> ImportSet \<Rightarrow> ImportSet" where
  "AddPackage p s = s\<lparr>set_imports := insert p (set_imports s)\<rparr>"

definition AddType :: "gotype \<Rightarrow> ImportSet \<Rightarrow> ImportSet" where
  "AddType typ s =
     Walk typ (\<lambda>t s. (True, case t of ImportType pkg _ \<Rightarrow> AddPackage pkg s | _ \<Rightarrow> s)) s"

definition SortedPackages :: "ImportSet \<Rightarrow> string list" where
  "SortedPackages s = sorted_list_of_set (set_imports s - {[]})"

record ImportPkg =
  PkgPath :: string
  Alias :: string

definition FormatImport :: "ImportPkg \<Rightarrow> string" where
  "FormatImport ip =
     (if Alias ip \<noteq> [] then Alias ip @ '' '' else []) @ [CHR 0x22] @ PkgPath ip @ [CHR 0x22]"

text \<open>The first loop of \<^verbatim>\<open>SortedImports\<close>: the packages of each short name, in order.\<close>

fun by_short :: "(string \<times> string) list \<Rightarrow> (string \<Rightarrow> string list) \<Rightarrow> string \<Rightarrow> string list" where
  "by_short [] m = m"
| "by_short ((pkg, short) # ps) m = by_short ps (m(short := m short @ [pkg]))"

fun index_of :: "'a list \<Rightarrow> 'a \<Rightarrow> nat" where
  "index_of [] x = 0"
| "index_of (y # ys) x = (if y = x then 0 else Suc (index_of ys x))"

text \<open>The alias of the package with index \<open>i\<close> among those of its short name; the first one has none.\<close>

definition import_alias :: "(string \<Rightarrow> string list) \<Rightarrow> string \<times> string \<Rightarrow> string" where
  "import_alias m ps =
     (case ps of (pkg, short) \<Rightarrow>
        let i = index_of (m short) pkg in
        if length (m short) < 2 \<or> i < 1 then [] else short @ replicate i CHR ''_'')"

fun short_names :: "string list \<Rightarrow> (string \<times> string) list option" where
  "short_names [] = Some []"
| "short_names (p # ps) =
     Option.bind (ExtractShortPackage p) (\<lambda>short. map_option (\<lambda>r. (p, short) # r) (short_names ps))"

definition SortedImports :: "ImportSet \<Rightarrow> ImportPkg list option" where
  "SortedImports s =
     map_option (\<lambda>ps. let m = by_short ps (\<lambda>_. []) in
         map (\<lambda>p. \<lparr>PkgPath = fst p, Alias = import_alias m p\<rparr>) ps)
       (short_names (SortedPackages s))"

definition AliasMap :: "ImportSet \<Rightarrow> (string \<rightharpoonup> string) option" where
  "AliasMap s =
     map_option (\<lambda>is. map_of (map (\<lambda>i. (PkgPath i, Alias i)) (filter (\<lambda>i. Alias i \<noteq> []) is))) (SortedImports s)"

end
