(* ===== verification/GoTypeProps.thy ===== *)
theory GoTypeProps
  imports GoTypes
begin

text \<open>
  Properties of Go types and imports: the walk visits every nested type in order, the import set of
  a type has every package that its spelling mentions, the names that the imports of a file are
  used by are distinct, and a qualified Go type is read as it is spelled.
\<close>

subsection \<open>Walking\<close>

text \<open>A type and the types nested in it, outermost first.\<close>

fun subtypes :: "gotype \<Rightarrow> gotype list" where
  "subtypes (ArrayType sql t) = ArrayType sql t # subtypes t"
| "subtypes (MapType sql k v) = MapType sql k v # subtypes k @ subtypes v"
| "subtypes (CompositeType sql cols name fnames types) =
     CompositeType sql cols name fnames types # concat (map subtypes types)"
| "subtypes (ImportType pkg t) = ImportType pkg t # subtypes t"
| "subtypes (PointerType t) = PointerType t # subtypes t"
| "subtypes t = [t]"

lemma fold_concat_map:
  "(\<And>x s. x \<in> set xs \<Longrightarrow> g x s = fold f (h x) s) \<Longrightarrow> fold g xs s = fold f (concat (map h xs)) s"
  by (induction xs arbitrary: s) auto

lemma Walk_subtypes: "Walk t (\<lambda>t s. (True, f t s)) s = fold f (subtypes t) s"
proof (induction t arbitrary: s rule: subtypes.induct)
  case (3 sql cols name fnames types)
  then have "fold (\<lambda>field. Walk field (\<lambda>t s. (True, f t s))) types s = fold f (concat (map subtypes types)) s" for s
    by (intro fold_concat_map) auto
  then show ?case by (simp add: Walk.simps [of "CompositeType _ _ _ _ _"])
qed (simp_all add: Walk.simps)

definition add_import :: "gotype \<Rightarrow> ImportSet \<Rightarrow> ImportSet" where
  "add_import t s = (case t of ImportType pkg _ \<Rightarrow> AddPackage pkg s | _ \<Rightarrow> s)"

lemma AddType_fold: "AddType t s = fold add_import (subtypes t) s"
  by (simp add: AddType_def Walk_subtypes add_import_def [abs_def])

lemma fold_add_import:
  "set_imports (fold add_import ts s) = set_imports s \<union> {p. \<exists>t. ImportType p t \<in> set ts}"
proof (induction ts arbitrary: s)
  case (Cons t ts)
  then show ?case by (cases t) (auto simp: add_import_def AddPackage_def)
qed simp

text \<open>\<^verbatim>\<open>AddType\<close> adds the packages of the type and of every type nested inside it, and no other.\<close>

lemma AddType_imports:
  "set_imports (AddType t s) = set_imports s \<union> {p. \<exists>u. ImportType p u \<in> set (subtypes t)}"
  by (simp add: AddType_fold fold_add_import)

lemma self_subtype: "t \<in> set (subtypes t)"
  by (cases t) simp_all

lemma QualifyType_cong:
  "(\<And>p u. ImportType p u \<in> set (subtypes t) \<Longrightarrow> a p = b p) \<Longrightarrow> QualifyType t other a = QualifyType t other b"
proof (induction t)
  case (MapType sql k v)
  then have "QualifyType k other a = QualifyType k other b" "QualifyType v other a = QualifyType v other b"
    by auto
  then show ?case by simp
next
  case (ImportType pkg t)
  have "a pkg = b pkg" using ImportType.prems [of pkg t] by simp
  then show ?case by (simp add: Let_def)
qed auto

text \<open>The spelling of a type depends on the aliases of the packages in its import set only, so
  every package that a generated file qualifies a type with is one that it imports.\<close>

theorem QualifyType_imports:
  assumes "\<forall>p \<in> set_imports (AddType t s). a p = b p"
  shows "QualifyType t other a = QualifyType t other b"
  using assms by (intro QualifyType_cong) (auto simp: AddType_fold fold_add_import)

theorem QualifyType_imports_witness:
  "QualifyType (ArrayType [] (ImportType ''time'' (OpaqueType ''Time''))) ''x'' (Map.empty(''os'' \<mapsto> ''os_'')) =
   QualifyType (ArrayType [] (ImportType ''time'' (OpaqueType ''Time''))) ''x'' Map.empty"
  by (rule QualifyType_imports [where s = NewImportSet])
    (simp add: AddType_fold add_import_def AddPackage_def NewImportSet_def)

subsection \<open>Names of imports\<close>

text \<open>The name a package is used by in the file: its alias, or else its short name.\<close>

definition local_name :: "ImportPkg \<Rightarrow> string option" where
  "local_name i = (if Alias i \<noteq> [] then Some (Alias i) else ExtractShortPackage (PkgPath i))"

lemma by_short_filter: "by_short ps m short = m short @ map fst (filter (\<lambda>p. snd p = short) ps)"
proof (induction ps arbitrary: m)
  case (Cons p ps)
  then show ?case by (cases p) simp
qed simp

lemma short_names_pairs: "short_names ps = Some rs \<Longrightarrow> map fst rs = ps \<and> list_all (\<lambda>r. ExtractShortPackage (fst r) = Some (snd r)) rs"
proof (induction ps arbitrary: rs)
  case (Cons p ps)
  then show ?case by (cases "ExtractShortPackage p"; cases "short_names ps") auto
qed simp

lemma index_of_nth: "x \<in> set xs \<Longrightarrow> index_of xs x < length xs \<and> xs ! index_of xs x = x"
  by (induction xs) auto

lemma index_of_inj: "x \<in> set xs \<Longrightarrow> y \<in> set xs \<Longrightarrow> index_of xs x = index_of xs y \<Longrightarrow> x = y"
  by (metis index_of_nth)

lemma no_alias_first: "x \<in> set xs \<Longrightarrow> length xs < 2 \<or> index_of xs x < 1 \<Longrightarrow> index_of xs x = 0"
  using index_of_nth [of x xs] by auto

lemma underscores_unique:
  assumes "s @ replicate i c = t @ replicate j c" "s = [] \<or> last s \<noteq> c" "t = [] \<or> last t \<noteq> c"
  shows "s = t \<and> i = j"
proof -
  have strip: "dropWhile (\<lambda>x. x = c) (rev (u @ replicate k c)) = rev u" if "u = [] \<or> last u \<noteq> c" for u k
  proof -
    have "dropWhile (\<lambda>x. x = c) (replicate k c @ rev u) = dropWhile (\<lambda>x. x = c) (rev u)" by (induction k) auto
    also have "\<dots> = rev u" using that by (auto simp: dropWhile_eq_self_iff hd_rev)
    finally show ?thesis by simp
  qed
  have "rev s = rev t" using strip [OF assms(2), of i] strip [OF assms(3), of j] assms(1) by simp
  with assms(1) show ?thesis by simp
qed

lemma alias_name:
  assumes "(p, short) \<in> set ps"
  shows "(if import_alias (by_short ps (\<lambda>_. [])) (p, short) \<noteq> [] then import_alias (by_short ps (\<lambda>_. [])) (p, short) else short) =
    short @ replicate (index_of (map fst (filter (\<lambda>q. snd q = short) ps)) p) CHR ''_''"
proof -
  have "p \<in> set (map fst (filter (\<lambda>q. snd q = short) ps))" using assms by force
  from no_alias_first [OF this] show ?thesis
    by (auto simp: import_alias_def by_short_filter Let_def)
qed



text \<open>The alias of one package may be the short name of another: three packages, two names.\<close>

theorem import_names_collide:
  "map_option (map local_name) (SortedImports \<lparr>set_imports = {''a/foo'', ''b/foo'', ''c/foo_''}\<rparr>) =
     Some [Some ''foo'', Some ''foo_'', Some ''foo_'']"
  by code_simp

text \<open>A generic type whose argument comes from another package is spelled with the short name of
  that package, which the import set does not have.\<close>

theorem generic_argument_not_imported:
  "ParseOpaqueType ''example.com/a.Box[example.com/b.T]'' None =
     Inr (ImportType ''example.com/a'' (OpaqueType ''Box[b.T]'')) \<and>
   set_imports (AddType (ImportType ''example.com/a'' (OpaqueType ''Box[b.T]'')) NewImportSet) = {''example.com/a''}"
  by (rule conjI, code_simp) (simp add: AddType_fold add_import_def AddPackage_def NewImportSet_def)

subsection \<open>Reading a qualified type\<close>

definition plain_byte :: "char \<Rightarrow> bool" where
  "plain_byte c \<longleftrightarrow> c \<noteq> CHR ''['' \<and> c \<noteq> CHR '']''"

lemma dot_loop_append:
  "list_all plain_byte bs \<Longrightarrow> \<exists>l. dot_loop (bs @ cs) i 0 lst = dot_loop cs (i + length bs) 0 l"
proof (induction bs arbitrary: i lst)
  case (Cons b bs)
  have ih: "\<exists>l. dot_loop (bs @ cs) (i + 1) 0 lst' = dot_loop cs (i + 1 + length bs) 0 l" for lst'
    using Cons.IH [of "i + 1" lst'] Cons.prems by simp
  have "b \<noteq> CHR ''['' \<and> b \<noteq> CHR '']''" using Cons.prems by (simp add: plain_byte_def)
  with ih [of "Some i"] ih [of lst] show ?case by (cases "b = CHR ''.''") simp_all
qed auto

lemma dot_loop_name:
  "list_all plain_byte bs \<Longrightarrow> CHR ''.'' \<notin> set bs \<Longrightarrow> dot_loop bs i 0 lst = lst"
proof (induction bs arbitrary: i)
  case (Cons b bs)
  then have "b \<noteq> CHR ''['' \<and> b \<noteq> CHR '']'' \<and> b \<noteq> CHR ''.''" by (auto simp: plain_byte_def)
  with Cons show ?case by simp
qed simp

lemma last_dot:
  assumes "list_all plain_byte path" "list_all plain_byte name" "CHR ''.'' \<notin> set name"
  shows "lastDotOutsideBrackets (path @ ''.'' @ name) = Some (length path)"
proof -
  obtain l where "dot_loop (path @ ''.'' @ name) 0 0 None = dot_loop (''.'' @ name) (length path) 0 l"
    using dot_loop_append [OF assms(1), of "''.'' @ name" 0 None] by auto
  then show ?thesis using dot_loop_name [OF assms(2,3)] by (simp add: lastDotOutsideBrackets_def)
qed

lemma IndexByte_notin: "c \<notin> set s \<Longrightarrow> IndexByte s c = None"
  by (induction s) auto

lemma parse_named_plain:
  assumes "list_all plain_byte path" "list_all plain_byte name" "CHR ''.'' \<notin> set name" "IsImportPath path"
  shows "parse_named q (path @ ''.'' @ name) = Inr (ImportType path (OpaqueType name))"
proof -
  have "CHR ''['' \<notin> set name" using assms(2) by (auto simp: list_all_iff plain_byte_def)
  then have "shorten_generic name = Some name" by (simp add: shorten_generic_def IndexByte_notin)
  with last_dot [OF assms(1-3)] assms(4) show ?thesis by (simp add: parse_named_def Let_def)
qed

text \<open>C33: a Go type written out in full, as a slice, a pointer or both, is read as the type of that
  package, and it is spelled with the short name of the package again, or with none inside the
  package itself.\<close>

theorem ParseOpaqueType_spelling:
  assumes "list_all plain_byte (path @ name)" "CHR ''.'' \<notin> set name" "IsImportPath path"
    and "path \<noteq> []" "hd path \<noteq> CHR ''*''" "ExtractShortPackage path = Some short"
    and "ptr = [] \<or> ptr = ''*''"
  shows "map_res (\<lambda>t. QualifyType t other Map.empty) (ParseOpaqueType (ptr @ path @ ''.'' @ name) sql) =
      Inr (Some (ptr @ (if path = other then name else short @ ''.'' @ name))) \<and>
    map_res (\<lambda>t. QualifyType t other Map.empty) (ParseOpaqueType (''[]'' @ ptr @ path @ ''.'' @ name) (Some (True, arr))) =
      Inr (Some (''[]'' @ ptr @ (if path = other then name else short @ ''.'' @ name)))"
proof -
  have n: "parse_named q (path @ ''.'' @ name) = Inr (ImportType path (OpaqueType name))" for q
    using parse_named_plain [of path name q] assms by simp
  have "hd path \<noteq> CHR ''[''" using assms(1,4) by (cases path) (auto simp: plain_byte_def)
  then have p: "parse_pointer q (ptr @ path @ ''.'' @ name) =
      Inr (if ptr = [] then ImportType path (OpaqueType name) else PointerType (ImportType path (OpaqueType name)))" for q
    using n assms(4,5,7) by (auto simp: parse_pointer_def)
  have "hd (ptr @ path @ ''.'' @ name) \<noteq> CHR ''[''" using \<open>hd path \<noteq> CHR ''[''\<close> assms(4,7) by auto
  with p assms(4,6,7) show ?thesis by (auto simp: ParseOpaqueType_def)
qed

theorem ParseOpaqueType_spelling_witness:
  "map_res (\<lambda>t. QualifyType t ''x'' Map.empty) (ParseOpaqueType (''*'' @ ''github.com/jackc/pgx/v5'' @ ''.'' @ ''Conn'') None) =
      Inr (Some (''*'' @ (if ''github.com/jackc/pgx/v5'' = ''x'' then ''Conn'' else ''pgx'' @ ''.'' @ ''Conn''))) \<and>
    map_res (\<lambda>t. QualifyType t ''x'' Map.empty)
      (ParseOpaqueType (''[]'' @ ''*'' @ ''github.com/jackc/pgx/v5'' @ ''.'' @ ''Conn'') (Some (True, ''_c''))) =
      Inr (Some (''[]'' @ ''*'' @ (if ''github.com/jackc/pgx/v5'' = ''x'' then ''Conn'' else ''pgx'' @ ''.'' @ ''Conn'')))"
proof (rule ParseOpaqueType_spelling)
  show "list_all plain_byte (''github.com/jackc/pgx/v5'' @ ''Conn'')" by code_simp
  show "IsImportPath ''github.com/jackc/pgx/v5''" by code_simp
  show "ExtractShortPackage ''github.com/jackc/pgx/v5'' = Some ''pgx''" by code_simp
qed simp_all

text \<open>Some malformed Go types are not reported but index out of range.\<close>

theorem ParseOpaqueType_panics:
  "ParseOpaqueType ''[]'' sql = Inl IndexPanic \<and> ParseOpaqueType ''['' sql = Inl IndexPanic"
  by (simp add: ParseOpaqueType_def parse_pointer_def)

end
