(* ===== verification/ChIdentifiers.thy ===== *)
theory ChIdentifiers
  imports GoStrings Utf8Enc
begin

text \<open>
  The functions that generated ClickHouse code calls to fill \<^verbatim>\<open>{name:Identifier}\<close> into a query before it is
  sent, from the text that \<^verbatim>\<open>internal/codegen/golang/declarer_identifier.go\<close> puts into the generated
  package: the only place where a caller's string becomes SQL text. The main lemma is that the loop,
  whatever order it takes the entries of its map in, is one simultaneous substitution of plain identifiers.
\<close>

subsection \<open>Filling in identifiers\<close>

datatype ident_error =
    EmptyIdent string
  | EmptyPart string string
  | NotPlain string string

function plain_runes :: "string \<Rightarrow> bool \<Rightarrow> bool" where
  "plain_runes s first =
     (if s = [] then True
      else case DecodeRune s of (r, w) \<Rightarrow>
        let isLetter = (r = 95 \<or> 97 \<le> r \<and> r \<le> 122 \<or> 65 \<le> r \<and> r \<le> 90) in
        if isLetter \<or> \<not> first \<and> 48 \<le> r \<and> r \<le> 57 then plain_runes (drop w s) False else False)"
  by pat_completeness auto
termination
  by (relation "measure (\<lambda>(s, b). length s)") (auto dest!: sym [of "(_, _)"] dest: DecodeRune_width)

declare plain_runes.simps [simp del]

fun check_parts :: "string \<Rightarrow> string \<Rightarrow> string list \<Rightarrow> ident_error option" where
  "check_parts param val [] = None"
| "check_parts param val (part # parts) =
     (if part = [] then Some (EmptyPart param val)
      else if \<not> plain_runes part True then Some (NotPlain param val)
      else check_parts param val parts)"

definition checkIdentifier :: "string \<Rightarrow> string \<Rightarrow> ident_error option" where
  "checkIdentifier param val =
     (if val = [] then Some (EmptyIdent param) else check_parts param val (Split val CHR ''.''))"

text \<open>\<^verbatim>\<open>strings.ReplaceAll\<close>, for a non-empty \<open>old\<close>.\<close>

function ReplaceAll :: "string \<Rightarrow> string \<Rightarrow> string \<Rightarrow> string" where
  "ReplaceAll s old new =
     (if s = [] then []
      else if old \<noteq> [] \<and> prefix old s then new @ ReplaceAll (drop (length old) s) old new
      else hd s # ReplaceAll (tl s) old new)"
  by pat_completeness auto
termination
  by (relation "measure (\<lambda>(s, old, new). length s)") auto

declare ReplaceAll.simps [simp del]

definition hole_text :: "string \<Rightarrow> string" where
  "hole_text name = ''{'' @ name @ '':Identifier}''"

text \<open>The loop ranges over a map: the list is its entries in the order of the iteration.\<close>

fun substituteIdentifiers :: "string \<Rightarrow> (string \<times> string) list \<Rightarrow> ident_error + string" where
  "substituteIdentifiers sql [] = Inr sql"
| "substituteIdentifiers sql ((name, val) # vals) =
     (case checkIdentifier name val of
        Some err \<Rightarrow> Inl err
      | None \<Rightarrow> substituteIdentifiers (ReplaceAll sql (hole_text name) val) vals)"

subsection \<open>Accepted values\<close>

definition name_char :: "char \<Rightarrow> bool" where
  "name_char c \<longleftrightarrow> is_lower c \<or> is_upper c \<or> is_digit c \<or> c = CHR ''_'' \<or> c = CHR ''.''"

lemma plain_runes_chars: "plain_runes s first \<Longrightarrow> list_all name_char s"
proof (induction s first rule: plain_runes.induct)
  case (1 s first)
  show ?case
  proof (cases s)
    case (Cons c t)
    obtain r w where rw: "DecodeRune (c # t) = (r, w)" by (cases "DecodeRune (c # t)")
    have r: "r = 95 \<or> 97 \<le> r \<and> r \<le> 122 \<or> 65 \<le> r \<and> r \<le> 90 \<or> 48 \<le> r \<and> r \<le> 57"
      and rec: "plain_runes (drop w (c # t)) False"
      using 1(2) rw Cons by (auto simp: plain_runes.simps [of "c # t"] Let_def split: if_splits)
    have c: "byte_val c < 0x80" using DecodeRune_wide [OF rw] r by (cases "byte_val c < 0x80") auto
    then have w: "w = 1" "r = int (byte_val c)" using rw by (auto simp: DecodeRune_def)
    have "char_of (95 :: nat) = CHR ''_''" by code_simp
    then have "byte_val c = 95 \<Longrightarrow> c = CHR ''_''" by (metis char_of_char)
    then have "name_char c"
      using r w(2) by (auto simp: name_char_def is_lower_def is_upper_def is_digit_def in_range_def)
    moreover have "list_all name_char t"
      using 1(1) [of r w] rw r rec Cons w 1(2) by (auto simp: plain_runes.simps [of "c # t"] Let_def split: if_splits)
    ultimately show ?thesis using Cons by simp
  qed simp
qed

lemma check_parts_chars: "check_parts param val parts = None \<Longrightarrow> list_all (list_all name_char) parts"
  by (induction parts) (auto split: if_splits dest: plain_runes_chars)

lemma Split_chars: "list_all (list_all P) (Split s c) \<Longrightarrow> P c \<Longrightarrow> list_all P s"
proof (induction s)
  case (Cons x xs)
  then show ?case by (cases "Split xs c") (auto split: if_splits)
qed simp

text \<open>An accepted value consists of letters, digits, underscores and dots.\<close>

lemma checkIdentifier_chars: "checkIdentifier param val = None \<Longrightarrow> list_all name_char val"
  by (auto simp: checkIdentifier_def name_char_def [of "CHR ''.''"] split: if_splits
      intro: Split_chars dest!: check_parts_chars)

lemma checkIdentifier_no_brace: "checkIdentifier param val = None \<Longrightarrow> CHR ''{'' \<notin> set val"
proof -
  assume "checkIdentifier param val = None"
  moreover have "\<not> name_char CHR ''{''" by code_simp
  ultimately show ?thesis using checkIdentifier_chars by (auto simp: list_all_iff)
qed

subsection \<open>Holes in a text\<close>

abbreviation up_to_brace :: "string \<Rightarrow> string" where
  "up_to_brace s \<equiv> takeWhile (\<lambda>c. c \<noteq> CHR ''}'') s"

lemma brace_split: "CHR ''}'' \<in> set t \<Longrightarrow> \<exists>u. t = up_to_brace t @ CHR ''}'' # u"
  by (induction t) auto

lemma up_to_brace_eq: "CHR ''}'' \<notin> set b \<Longrightarrow> up_to_brace (b @ CHR ''}'' # u) = b"
  by (induction b) auto

lemma hole_at:
  assumes "CHR ''}'' \<notin> set n" "CHR ''}'' \<notin> set b"
  shows "prefix (hole_text n) (CHR ''{'' # b @ CHR ''}'' # u) \<longleftrightarrow> b = n @ '':Identifier''"
proof
  assume "prefix (hole_text n) (CHR ''{'' # b @ CHR ''}'' # u)"
  then obtain z where z: "b @ CHR ''}'' # u = (n @ '':Identifier'') @ CHR ''}'' # z"
    by (auto simp: hole_text_def prefix_def)
  have "CHR ''}'' \<notin> set (n @ '':Identifier'')" using assms(1) by simp
  then show "b = n @ '':Identifier''"
    using up_to_brace_eq [of b u] up_to_brace_eq [of "n @ '':Identifier''" z] assms(2) z by simp
qed (simp add: hole_text_def)

lemma hole_closed: "prefix (hole_text n) (c # t) \<Longrightarrow> c = CHR ''{'' \<and> CHR ''}'' \<in> set t"
  by (auto simp: hole_text_def prefix_def)

text \<open>Between a brace and the next closing brace there is no further opening one.\<close>

fun no_nest :: "string \<Rightarrow> bool" where
  "no_nest [] \<longleftrightarrow> True"
| "no_nest (c # s) \<longleftrightarrow> (c = CHR ''{'' \<longrightarrow> CHR ''{'' \<notin> set (up_to_brace s)) \<and> no_nest s"

lemma no_nest_append: "no_nest (p @ s) \<Longrightarrow> no_nest s"
  by (induction p) auto

subsection \<open>Simultaneous substitution\<close>

function simult :: "(string \<times> string) list \<Rightarrow> string \<Rightarrow> string" where
  "simult vals s =
     (if s = [] then []
      else case find (\<lambda>nv. prefix (hole_text (fst nv)) s) vals of
        Some nv \<Rightarrow> snd nv @ simult vals (drop (length (hole_text (fst nv))) s)
      | None \<Rightarrow> hd s # simult vals (tl s))"
  by pat_completeness auto
termination
  by (relation "measure (\<lambda>(vals, s). length s)") (auto simp: hole_text_def)

declare simult.simps [simp del]

lemma simult_Nil [simp]: "simult vals [] = []"
  by (simp add: simult.simps)

lemma find_no_brace: "c \<noteq> CHR ''{'' \<Longrightarrow> find (\<lambda>nv. prefix (hole_text (fst nv)) (c # t)) vals = None"
  by (auto simp: find_None_iff hole_text_def)

lemma simult_skip: "CHR ''{'' \<notin> set p \<Longrightarrow> simult vals (p @ s) = p @ simult vals s"
proof (induction p)
  case (Cons c p)
  have "find (\<lambda>nv. prefix (hole_text (fst nv)) (c # p @ s)) vals = None" using Cons.prems by (intro find_no_brace) auto
  with Cons show ?case by (simp add: simult.simps [of vals "c # p @ s"])
qed simp

lemma ReplaceAll_Nil [simp]: "ReplaceAll [] old new = []"
  by (simp add: ReplaceAll.simps)

lemma ReplaceAll_skip: "CHR ''{'' \<notin> set p \<Longrightarrow> ReplaceAll (p @ s) (hole_text n) v = p @ ReplaceAll s (hole_text n) v"
proof (induction p)
  case (Cons c p)
  then have "\<not> prefix (hole_text n) (c # p @ s)" by (auto simp: hole_text_def)
  with Cons show ?case by (simp add: ReplaceAll.simps [of "c # p @ s"])
qed simp

lemma find_hole:
  assumes "\<forall>nv \<in> set vals. CHR ''}'' \<notin> set (fst nv)" "CHR ''}'' \<notin> set b"
  shows "find (\<lambda>nv. prefix (hole_text (fst nv)) (CHR ''{'' # b @ CHR ''}'' # u)) vals =
    find (\<lambda>nv. b = fst nv @ '':Identifier'') vals"
  using assms by (induction vals) (auto simp: hole_at)

lemma simult_hole:
  assumes "\<forall>nv \<in> set vals. CHR ''}'' \<notin> set (fst nv)" "CHR ''}'' \<notin> set b" "CHR ''{'' \<notin> set b"
  shows "simult vals (CHR ''{'' # b @ CHR ''}'' # u) =
    (case find (\<lambda>nv. b = fst nv @ '':Identifier'') vals of
       Some nv \<Rightarrow> snd nv @ simult vals u
     | None \<Rightarrow> CHR ''{'' # b @ CHR ''}'' # simult vals u)"
proof (cases "find (\<lambda>nv. b = fst nv @ '':Identifier'') vals")
  case None
  with find_hole [OF assms(1,2), of u] simult_skip [of "b @ ''}''" vals u] assms(3) show ?thesis
    by (subst simult.simps) simp
next
  case (Some nv)
  then have "b = fst nv @ '':Identifier''" by (auto simp: find_Some_iff)
  then have "drop (length (hole_text (fst nv))) (CHR ''{'' # b @ CHR ''}'' # u) = u" by (simp add: hole_text_def)
  with Some find_hole [OF assms(1,2), of u] show ?thesis by (subst simult.simps) simp
qed

lemma ReplaceAll_hole:
  assumes "CHR ''}'' \<notin> set n" "CHR ''}'' \<notin> set b" "CHR ''{'' \<notin> set b"
  shows "ReplaceAll (CHR ''{'' # b @ CHR ''}'' # u) (hole_text n) v =
    (if b = n @ '':Identifier'' then v @ ReplaceAll u (hole_text n) v
     else CHR ''{'' # b @ CHR ''}'' # ReplaceAll u (hole_text n) v)"
proof (cases "b = n @ '':Identifier''")
  case True
  then show ?thesis using hole_at [OF assms(1,2), of u]
    by (subst ReplaceAll.simps) (simp add: hole_text_def)
next
  case False
  then show ?thesis using hole_at [OF assms(1,2), of u] ReplaceAll_skip [of "b @ ''}''" u n v] assms(3)
    by (subst ReplaceAll.simps) simp
qed

lemma ReplaceAll_simult:
  assumes names: "\<forall>nv \<in> set ((n, v) # vals). CHR ''}'' \<notin> set (fst nv)" and n: "n \<notin> fst ` set vals"
    and vals: "\<forall>nv \<in> set vals. CHR ''{'' \<notin> set (snd nv)"
  shows "no_nest s \<Longrightarrow> ReplaceAll (simult vals s) (hole_text n) v = simult ((n, v) # vals) s"
proof (induction s rule: length_induct)
  case (1 s)
  have IH: "ReplaceAll (simult vals u) (hole_text n) v = simult ((n, v) # vals) u" if "s = p @ u" "p \<noteq> []" for p u
    using 1 that no_nest_append by auto
  have names': "\<forall>nv \<in> set vals. CHR ''}'' \<notin> set (fst nv)" "CHR ''}'' \<notin> set n" using names by auto
  show ?case
  proof (cases s)
    case (Cons c t)
    consider "c \<noteq> CHR ''{''" | "c = CHR ''{''" "CHR ''}'' \<notin> set t" | "c = CHR ''{''" "CHR ''}'' \<in> set t" by blast
    then show ?thesis
    proof cases
      case 1
      then show ?thesis
        using IH [of "[c]" t] Cons simult_skip [of "[c]" _ t] ReplaceAll_skip [of "[c]" "simult vals t" n v] by simp
    next
      case 2
      then have "up_to_brace t = t" by (auto simp: takeWhile_eq_all_conv)
      then have t: "CHR ''{'' \<notin> set t" using "1.prems" Cons 2 by (simp only: no_nest.simps) simp
      have none: "find (\<lambda>nv. prefix (hole_text (fst nv)) (c # t)) vs = None" for vs :: "(string \<times> string) list"
        using 2 hole_closed by (auto simp: find_None_iff)
      have keep: "simult vs (c # t) = c # t" for vs
        using none [of vs] simult_skip [OF t, of vs "[]"] by (subst simult.simps) simp
      have "ReplaceAll (c # t) (hole_text n) v = c # t"
      proof -
        have "\<not> prefix (hole_text n) (c # t)" using 2 hole_closed by blast
        then show ?thesis using ReplaceAll_skip [OF t, of "[]" n v] by (subst ReplaceAll.simps) simp
      qed
      with keep Cons show ?thesis by simp
    next
      case 3
      then obtain u where u: "t = up_to_brace t @ CHR ''}'' # u" using brace_split by blast
      define b where "b = up_to_brace t"
      have b: "CHR ''}'' \<notin> set b" "CHR ''{'' \<notin> set b"
        using "1.prems" Cons 3 by (auto simp: b_def dest: set_takeWhileD)
      have s: "s = CHR ''{'' # b @ CHR ''}'' # u" using Cons 3 u by (simp add: b_def)
      note IHu = IH [of "CHR ''{'' # b @ ''}''" u]
      note new = simult_hole [OF names b, of u] and old = simult_hole [OF names'(1) b, of u]
      show ?thesis
      proof (cases "find (\<lambda>nv. b = fst nv @ '':Identifier'') vals")
        case None
        then show ?thesis
          using IHu new old ReplaceAll_hole [OF names'(2) b, of "simult vals u" v] s by simp
      next
        case (Some nv)
        then have nv: "nv \<in> set vals" "b = fst nv @ '':Identifier''" by (auto simp: find_Some_iff)
        then have "b \<noteq> n @ '':Identifier''" using n by auto
        then show ?thesis
          using Some IHu new old s ReplaceAll_skip [of "snd nv" "simult vals u" n v] vals nv by simp
      qed
    qed
  qed simp
qed

lemma substitute_simult:
  assumes "no_nest sql" "distinct (map fst (ws @ vals))" "\<forall>nv \<in> set (ws @ vals). CHR ''}'' \<notin> set (fst nv)"
    "\<forall>nv \<in> set (ws @ vals). checkIdentifier (fst nv) (snd nv) = None"
  shows "substituteIdentifiers (simult ws sql) vals = Inr (simult (rev vals @ ws) sql)"
  using assms
proof (induction vals arbitrary: ws)
  case (Cons nv vals)
  obtain n v where nv: "nv = (n, v)" by (cases nv)
  have "ReplaceAll (simult ws sql) (hole_text n) v = simult ((n, v) # ws) sql"
  proof (rule ReplaceAll_simult)
    show "\<forall>nv \<in> set ws. CHR ''{'' \<notin> set (snd nv)"
    proof
      fix nw
      assume "nw \<in> set ws"
      then have "checkIdentifier (fst nw) (snd nw) = None" using Cons.prems(4) by simp
      then show "CHR ''{'' \<notin> set (snd nw)" by (rule checkIdentifier_no_brace)
    qed
  qed (use Cons.prems nv in auto)
  with Cons.IH [of "(n, v) # ws"] Cons.prems nv show ?case by (auto simp: insert_commute)
qed simp

lemma simult_empty: "simult [] s = s"
  by (induction s) (simp_all add: simult.simps)

text \<open>With distinct names the order of the entries does not matter.\<close>

lemma find_unique:
  assumes "\<And>x y. x \<in> set xs \<Longrightarrow> y \<in> set xs \<Longrightarrow> P x \<Longrightarrow> P y \<Longrightarrow> x = y" "set ys = set xs"
  shows "find P ys = find P xs"
proof (cases "find P xs")
  case None
  then have "find P ys = None" using assms(2) by (simp add: find_None_iff)
  with None show ?thesis by simp
next
  case (Some x)
  then have x: "x \<in> set xs" "P x" by (auto simp: find_Some_iff)
  then have "find P ys \<noteq> None" using assms(2) by (auto simp: find_None_iff)
  then obtain y where y: "find P ys = Some y" by blast
  then have "y \<in> set ys" "P y" by (auto simp: find_Some_iff)
  then show ?thesis using assms x y Some by metis
qed

lemma simult_perm:
  assumes "\<forall>nv \<in> set vals. CHR ''}'' \<notin> set (fst nv)" "distinct (map fst vals)" "set ws = set vals"
  shows "simult ws s = simult vals s"
proof (induction s rule: length_induct)
  case (1 s)
  show ?case
  proof (cases s)
    case (Cons c t)
    have "find (\<lambda>nv. prefix (hole_text (fst nv)) s) ws = find (\<lambda>nv. prefix (hole_text (fst nv)) s) vals"
    proof (rule find_unique)
      fix x y
      assume x: "x \<in> set vals" "prefix (hole_text (fst x)) s" and y: "y \<in> set vals" "prefix (hole_text (fst y)) s"
      then have "c = CHR ''{''" "CHR ''}'' \<in> set t" using hole_closed Cons by blast+
      then obtain b u where "s = CHR ''{'' # b @ CHR ''}'' # u" "CHR ''}'' \<notin> set b"
        using brace_split [of t] Cons by (metis set_takeWhileD)
      with x y have "fst x @ '':Identifier'' = fst y @ '':Identifier''" using assms(1) hole_at by metis
      then show "x = y" using x(1) y(1) assms(2) by (auto simp: distinct_map dest: inj_onD)
    qed (rule assms(3))
    then show ?thesis using 1 Cons
      by (simp add: simult.simps [of ws "c # t"] simult.simps [of vals "c # t"] hole_text_def split: option.split)
  qed simp
qed

subsection \<open>The loop\<close>

lemma substitute_any_order:
  assumes "no_nest sql" "distinct (map fst vals)" "list_all (\<lambda>nv. CHR ''}'' \<notin> set (fst nv)) vals"
    "list_all (\<lambda>nv. checkIdentifier (fst nv) (snd nv) = None) vals"
    "set order = set vals" "distinct order"
  shows "substituteIdentifiers sql order = Inr (simult vals sql)"
proof -
  have "length order = length vals"
    using assms(2,5,6) by (metis distinct_card distinct_map)
  then have dist: "distinct (map fst order)"
    using assms(2,5) by (metis card_distinct distinct_card length_map list.set_map)
  have "substituteIdentifiers (simult [] sql) order = Inr (simult (rev order @ []) sql)"
    using assms dist by (intro substitute_simult) (auto simp: list_all_iff)
  then show ?thesis
    using simult_perm [of vals "rev order" sql] assms by (simp add: simult_empty list_all_iff)
qed

text \<open>C36: in whatever order the loop over the map takes the identifiers, the result is their
  simultaneous substitution: no value is scanned again for the name of another parameter.\<close>

theorem substituteIdentifiers_simultaneous:
  assumes "no_nest sql" "distinct (map fst vals)" "list_all (\<lambda>nv. CHR ''}'' \<notin> set (fst nv)) vals"
    "list_all (\<lambda>nv. checkIdentifier (fst nv) (snd nv) = None) vals"
    "set order = set vals" "distinct order"
  shows "substituteIdentifiers sql order = Inr (simult vals sql)"
  using substitute_any_order [OF assms] .

theorem substituteIdentifiers_simultaneous_witness:
  "substituteIdentifiers ''SELECT {col:Identifier} FROM {tbl:Identifier} WHERE x = cast(@n AS UInt8)''
     [(''tbl'', ''db.usage''), (''col'', ''tbl'')] =
   Inr (simult [(''col'', ''tbl''), (''tbl'', ''db.usage'')]
     ''SELECT {col:Identifier} FROM {tbl:Identifier} WHERE x = cast(@n AS UInt8)'')"
  by (rule substituteIdentifiers_simultaneous) code_simp+

end
