(* ===== verification/GeneratedQuery.thy ===== *)
theory GeneratedQuery
  imports ChSqlProps ChIdentifiers
begin

text \<open>
  The text that generated ClickHouse code sends: the constant that \<^verbatim>\<open>ch.RewriteParams\<close> makes of the query,
  with its identifiers filled in by \<^verbatim>\<open>substituteIdentifiers\<close>. No parameter of the server is left in it.
\<close>

definition filled :: "(string \<times> string) list \<Rightarrow> Param \<Rightarrow> string" where
  "filled vals p =
     (if IsIdentifier (p_type p) then (case map_of vals (p_name p) of None \<Rightarrow> [] | Some v \<Rightarrow> v)
      else ''cast(@'' @ p_name p @ '' AS '' @ type_string (p_type p) @ '')'')"

text \<open>No brace outside the parameters: \<^verbatim>\<open>substituteIdentifiers\<close> works on the text, and would also replace in
  string literals and comments.\<close>

definition plain_item :: "item \<Rightarrow> bool" where
  "plain_item it \<longleftrightarrow>
     (case it of TextItem t \<Rightarrow> CHR ''{'' \<notin> set t | ParamItem p \<Rightarrow> CHR ''{'' \<notin> set (type_string (p_type p)))"

definition plain_texts :: "string \<Rightarrow> bool" where
  "plain_texts sql \<longleftrightarrow> (case items [] sql of Inl e \<Rightarrow> False | Inr its \<Rightarrow> list_all plain_item its)"

lemma ident_no_braces: "list_all isIdentByte n \<Longrightarrow> CHR ''{'' \<notin> set n \<and> CHR ''}'' \<notin> set n"
proof -
  have "\<not> isIdentByte CHR ''{''" "\<not> isIdentByte CHR ''}''" by code_simp+
  then show "list_all isIdentByte n \<Longrightarrow> CHR ''{'' \<notin> set n \<and> CHR ''}'' \<notin> set n" by (auto simp: list_all_iff)
qed

lemma rewritten_cases:
  "rewritten p = (if IsIdentifier (p_type p) then CHR ''{'' # (p_name p @ '':Identifier'') @ ''}''
     else ''cast(@'' @ p_name p @ '' AS '' @ type_string (p_type p) @ '')'')"
  by (auto simp: rewritten_def braced_def IsIdentifier_iff)

lemma no_nest_text: "CHR ''{'' \<notin> set t \<Longrightarrow> no_nest (t @ s) = no_nest s"
  by (induction t) auto

lemma no_nest_hole:
  assumes "CHR ''{'' \<notin> set b" "CHR ''}'' \<notin> set b"
  shows "no_nest (CHR ''{'' # b @ CHR ''}'' # s) = no_nest s"
  using assms no_nest_text [of "b @ ''}''" s] up_to_brace_eq [of b s] by simp

lemma item_simps:
  "render f (TextItem t) = t" "render f (ParamItem p) = f p" "plain_item (TextItem t) \<longleftrightarrow> CHR ''{'' \<notin> set t"
  "plain_item (ParamItem p) \<longleftrightarrow> CHR ''{'' \<notin> set (type_string (p_type p))"
  by (simp_all add: render_def plain_item_def)

lemma find_fst:
  "find (\<lambda>nv. n = fst nv) vals = map_option (\<lambda>v. (n, v)) (map_of vals n)"
  by (induction vals) auto

lemma simult_rewritten:
  assumes "list_all plain_item its" "\<forall>p \<in> set (params_of its). list_all isIdentByte (p_name p)"
    "\<forall>nv \<in> set vals. CHR ''}'' \<notin> set (fst nv)"
    "\<forall>p \<in> set (params_of its). IsIdentifier (p_type p) \<longrightarrow> p_name p \<in> fst ` set vals"
  shows "no_nest (concat (map (render rewritten) its)) \<and>
    simult vals (concat (map (render rewritten) its)) = concat (map (render (filled vals)) its)"
  using assms(1,2,4)
proof (induction its)
  case (Cons it its)
  let ?s = "concat (map (render rewritten) its)"
  have IH: "no_nest ?s" "simult vals ?s = concat (map (render (filled vals)) its)"
    using Cons by (cases it; auto)+
  have skip: "no_nest (t @ ?s) \<and> simult vals (t @ ?s) = t @ concat (map (render (filled vals)) its)"
    if "CHR ''{'' \<notin> set t" for t
    using that IH no_nest_text simult_skip by auto
  show ?case
  proof (cases it)
    case (TextItem t)
    then show ?thesis using skip [of t] Cons.prems(1) by (simp add: item_simps)
  next
    case (ParamItem p)
    then have p: "list_all isIdentByte (p_name p)" "CHR ''{'' \<notin> set (type_string (p_type p))"
      "IsIdentifier (p_type p) \<Longrightarrow> p_name p \<in> fst ` set vals"
      using Cons.prems by (auto simp: item_simps)
    note nb = ident_no_braces [OF p(1)]
    show ?thesis
    proof (cases "IsIdentifier (p_type p)")
      case False
      then show ?thesis using skip [of "rewritten p"] nb p(2) ParamItem
        by (simp add: item_simps rewritten_cases [of p] filled_def [of vals p])
    next
      case True
      then obtain v where v: "map_of vals (p_name p) = Some v" using p(3) by (metis map_of_eq_None_iff not_None_eq)
      have b: "CHR ''{'' \<notin> set (p_name p @ '':Identifier'')" "CHR ''}'' \<notin> set (p_name p @ '':Identifier'')"
        using nb by auto
      from simult_hole [OF assms(3) b(2,1), of ?s] no_nest_hole [OF b, of ?s] IH v True ParamItem
      show ?thesis by (simp add: item_simps rewritten_cases [of p] filled_def [of vals p] find_fst)
    qed
  qed
qed simp

lemma name_char_plain: "name_char c \<Longrightarrow> plain_char c \<and> opens c"
proof -
  have "\<forall>c. name_char c \<longrightarrow> plain_char c \<and> opens c" by code_simp
  then show "name_char c \<Longrightarrow> plain_char c \<and> opens c" by blast
qed

lemma replaces_filled:
  assumes "list_all isIdentByte (p_name p)" "ch_wf (p_type p)"
    "IsIdentifier (p_type p) \<Longrightarrow> p_name p \<in> fst ` set vals"
    "\<forall>nv \<in> set vals. checkIdentifier (fst nv) (snd nv) = None"
  shows "replaces (filled vals) (\<lambda>p. None) p"
proof (cases "IsIdentifier (p_type p)")
  case True
  then obtain v where v: "map_of vals (p_name p) = Some v" using assms(3) by (metis map_of_eq_None_iff not_None_eq)
  then have "checkIdentifier (p_name p) v = None" using assms(4) map_of_SomeD by fastforce
  then have "list_all name_char v" "v \<noteq> []" using checkIdentifier_chars by (auto simp: checkIdentifier_def)
  then have "closed v" "opens (hd v)"
    using name_char_plain by (auto intro!: closed_chars simp: list_all_iff)
  with True v \<open>v \<noteq> []\<close> show ?thesis by (simp add: replaces_def filled_def)
next
  case False
  then show ?thesis
    using assms(1,2) by (simp add: replaces_def filled_def closed_simps opens_def closed_type_string closed_ident)
qed



end
