(* ===== verification/Connect.thy ===== *)
theory Connect
  imports ChSqlProps
begin

text \<open>
  Connecting to a database, \<^verbatim>\<open>generate.go\<close>: an external server, or a container that is started for the run
  and stopped at the end of it. The container and the driver are the parameter \<open>driver\<close>, which says
  what succeeds. What a function does to them is the list of actions it returns; an action that only
  takes effect when it succeeds, starting or opening, is recorded in that case.
\<close>

datatype action = Start | Stop | Open | Close | Exec string

record driver =
  dr_start :: "string list \<Rightarrow> bool"
  dr_connString :: "string option"
  dr_parse :: "string \<Rightarrow> bool"
  dr_open :: "string \<Rightarrow> bool"
  dr_ping :: bool
  dr_exec :: "string \<Rightarrow> bool"
  dr_close :: bool
  dr_stop :: bool
  dr_read :: "string \<Rightarrow> string option"

datatype connect_error =
    StartFailed
  | NoConnString
  | BadDSN
  | OpenFailed
  | PingFailed
  | NotSqlFile string
  | ReadSchema string
  | RunSchema string
  | BadDialect string

text \<open>\<^verbatim>\<open>filepath.Ext\<close>: the suffix from the last dot of the last element on.\<close>

definition path_Ext :: "string \<Rightarrow> string" where
  "path_Ext p =
     (let base = rev (takeWhile (\<lambda>c. c \<noteq> CHR ''/'') (rev p)) in
      if CHR ''.'' \<in> set base then CHR ''.'' # rev (takeWhile (\<lambda>c. c \<noteq> CHR ''.'') (rev base)) else [])"

subsection \<open>Schema files\<close>

fun run_statements :: "driver \<Rightarrow> string \<Rightarrow> string list \<Rightarrow> action list \<times> connect_error option" where
  "run_statements dr file [] = ([], None)"
| "run_statements dr file (stmt # stmts) =
     (if dr_exec dr stmt then (case run_statements dr file stmts of (acts, e) \<Rightarrow> (Exec stmt # acts, e))
      else ([Exec stmt], Some (RunSchema file)))"

fun loadClickHouseSchemas :: "driver \<Rightarrow> string list \<Rightarrow> action list \<times> connect_error option" where
  "loadClickHouseSchemas dr [] = ([], None)"
| "loadClickHouseSchemas dr (file # files) =
     (if path_Ext file \<noteq> ''.sql'' then ([], Some (NotSqlFile file))
      else case dr_read dr file of
        None \<Rightarrow> ([], Some (ReadSchema file))
      | Some bs \<Rightarrow>
          (case run_statements dr file (SplitStatements bs) of
             (acts, Some e) \<Rightarrow> (acts, Some e)
           | (acts, None) \<Rightarrow> (case loadClickHouseSchemas dr files of (acts1, e) \<Rightarrow> (acts @ acts1, e))))"

fun loadPostgresSchemas :: "driver \<Rightarrow> string list \<Rightarrow> action list \<times> connect_error option" where
  "loadPostgresSchemas dr [] = ([], None)"
| "loadPostgresSchemas dr (file # files) =
     (if path_Ext file \<noteq> ''.sql'' then ([], Some (NotSqlFile file))
      else case dr_read dr file of
        None \<Rightarrow> ([], Some (ReadSchema file))
      | Some bs \<Rightarrow>
          (case run_statements dr file [bs] of
             (acts, Some e) \<Rightarrow> (acts, Some e)
           | (acts, None) \<Rightarrow> (case loadPostgresSchemas dr files of (acts1, e) \<Rightarrow> (acts @ acts1, e))))"

subsection \<open>Connections\<close>

text \<open>\<^verbatim>\<open>stop\<close> and \<^verbatim>\<open>cleanup\<close>; \<open>container\<close> is whether one was started.\<close>

definition stop_actions :: "bool \<Rightarrow> action list" where
  "stop_actions container = (if container then [Stop] else [])"

definition cleanup_actions :: "bool \<Rightarrow> action list" where
  "cleanup_actions container = Close # stop_actions container"

definition cleanup_fails :: "driver \<Rightarrow> bool \<Rightarrow> bool" where
  "cleanup_fails dr container \<longleftrightarrow> container \<and> \<not> dr_stop dr \<or> \<not> dr_close dr"

text \<open>The part after the container: a connection string is at hand.\<close>

definition ch_open :: "driver \<Rightarrow> string \<Rightarrow> string list \<Rightarrow> bool \<Rightarrow> string \<Rightarrow> (connect_error + bool) \<times> action list" where
  "ch_open dr optString schemas container connString =
     (if \<not> dr_parse dr connString then (Inl BadDSN, stop_actions container)
      else if \<not> dr_open dr connString then (Inl OpenFailed, stop_actions container)
      else if \<not> dr_ping dr then (Inl PingFailed, Open # cleanup_actions container)
      else if optString \<noteq> [] then
        (case loadClickHouseSchemas dr schemas of
           (acts, Some e) \<Rightarrow> (Inl e, Open # acts @ cleanup_actions container)
         | (acts, None) \<Rightarrow> (Inr container, Open # acts))
      else (Inr container, [Open]))"

definition connectClickHouse :: "driver \<Rightarrow> string \<Rightarrow> string list \<Rightarrow> (connect_error + bool) \<times> action list" where
  "connectClickHouse dr connString schemas =
     (if connString = [] then
        (if \<not> dr_start dr schemas then (Inl StartFailed, [])
         else case ch_open dr connString schemas True (case dr_connString dr of None \<Rightarrow> [] | Some s \<Rightarrow> s) of
           (res, acts) \<Rightarrow> (res, Start # acts))
      else ch_open dr connString schemas False connString)"

definition pg_open :: "driver \<Rightarrow> string \<Rightarrow> string list \<Rightarrow> bool \<Rightarrow> string \<Rightarrow> (connect_error + bool) \<times> action list" where
  "pg_open dr optString schemas container connString =
     (if \<not> dr_open dr connString then (Inl OpenFailed, stop_actions container)
      else if optString \<noteq> [] then
        (case loadPostgresSchemas dr schemas of
           (acts, Some e) \<Rightarrow> (Inl e, Open # acts @ cleanup_actions container)
         | (acts, None) \<Rightarrow> (Inr container, Open # acts))
      else (Inr container, [Open]))"

definition connectPostgres :: "driver \<Rightarrow> string \<Rightarrow> string list \<Rightarrow> (connect_error + bool) \<times> action list" where
  "connectPostgres dr connString schemas =
     (if connString = [] then
        (if \<not> dr_start dr schemas then (Inl StartFailed, [])
         else case dr_connString dr of
           None \<Rightarrow> (Inl NoConnString, Start # stop_actions True)
         | Some s \<Rightarrow> (case pg_open dr connString schemas True s of (res, acts) \<Rightarrow> (res, Start # acts)))
      else pg_open dr connString schemas False connString)"

subsection \<open>Nothing is left behind\<close>

text \<open>
  The order that the resources ask for, as an automaton: a container is started once, a connection is
  opened once, statements run only over an open connection, and a connection is closed before its
  container is stopped. The state says whether a container runs and whether a connection is open.
\<close>

fun lifecycle :: "bool \<times> bool \<Rightarrow> action list \<Rightarrow> (bool \<times> bool) option" where
  "lifecycle st [] = Some st"
| "lifecycle (running, opened) (a # acts) =
     (case a of
        Start \<Rightarrow> (if running \<or> opened then None else lifecycle (True, False) acts)
      | Stop \<Rightarrow> (if \<not> running \<or> opened then None else lifecycle (False, False) acts)
      | Open \<Rightarrow> (if opened then None else lifecycle (running, True) acts)
      | Close \<Rightarrow> (if \<not> opened then None else lifecycle (running, False) acts)
      | Exec s \<Rightarrow> (if \<not> opened then None else lifecycle (running, True) acts))"

lemma lifecycle_append: "lifecycle st (xs @ ys) = Option.bind (lifecycle st xs) (\<lambda>st1. lifecycle st1 ys)"
  by (induction st xs rule: lifecycle.induct) (auto split: action.splits)

lemma lifecycle_cleanup [simp]: "lifecycle (container, True) (cleanup_actions container) = Some (False, False)"
  by (simp add: cleanup_actions_def stop_actions_def)

lemma lifecycle_stop [simp]: "lifecycle (container, False) (stop_actions container) = Some (False, False)"
  by (simp add: stop_actions_def)

lemma run_statements_open: "run_statements dr file stmts = (acts, e) \<Longrightarrow> lifecycle (container, True) acts = Some (container, True)"
  by (induction stmts arbitrary: acts) (auto split: prod.splits if_splits)

lemma loadClickHouseSchemas_open:
  "loadClickHouseSchemas dr files = (acts, e) \<Longrightarrow> lifecycle (container, True) acts = Some (container, True)"
  by (induction files arbitrary: acts)
    (auto dest!: run_statements_open [where container = container] simp: lifecycle_append split: prod.splits option.splits if_splits)

lemma loadPostgresSchemas_open:
  "loadPostgresSchemas dr files = (acts, e) \<Longrightarrow> lifecycle (container, True) acts = Some (container, True)"
  by (induction files arbitrary: acts)
    (auto simp del: run_statements.simps dest!: run_statements_open [where container = container] simp: lifecycle_append
      split: prod.splits option.splits if_splits)

text \<open>A failed connection has undone what it did; a successful one is left to its cleanup.\<close>

definition connected :: "bool \<Rightarrow> (connect_error + bool) \<times> action list \<Rightarrow> bool" where
  "connected running r =
     (case r of
        (Inl e, acts) \<Rightarrow> lifecycle (running, False) acts = Some (False, False)
      | (Inr container, acts) \<Rightarrow> lifecycle (running, False) acts = Some (container, True))"

lemma ch_open_connected: "connected container (ch_open dr optString schemas container connString)"
  by (auto simp: ch_open_def connected_def lifecycle_append dest!: loadClickHouseSchemas_open [where container = container]
      split: prod.splits option.splits)

lemma pg_open_connected: "connected container (pg_open dr optString schemas container connString)"
  by (auto simp: pg_open_def connected_def lifecycle_append dest!: loadPostgresSchemas_open [where container = container]
      split: prod.splits option.splits)

lemma connected_start: "connected True (res, acts) \<Longrightarrow> connected False (res, Start # acts)"
  by (cases res) (simp_all add: connected_def)

lemma connectClickHouse_connected: "connected False (connectClickHouse dr connString schemas)"
proof -
  obtain res acts where o: "ch_open dr [] schemas True (case dr_connString dr of None \<Rightarrow> [] | Some s \<Rightarrow> s) = (res, acts)"
    by fastforce
  have "connected False (Inl StartFailed, [])" by (simp add: connected_def)
  then show ?thesis
    using connected_start [of res acts] o ch_open_connected [of True dr "[]" schemas "case dr_connString dr of None \<Rightarrow> [] | Some s \<Rightarrow> s"] ch_open_connected [of False]
    by (cases "connString = []") (auto simp: connectClickHouse_def)
qed

lemma connectPostgres_connected: "connected False (connectPostgres dr connString schemas)"
proof (cases "dr_connString dr")
  case None
  then show ?thesis using pg_open_connected [of False]
    by (simp add: connectPostgres_def) (simp add: connected_def stop_actions_def)
next
  case (Some s)
  obtain res acts where o: "pg_open dr [] schemas True s = (res, acts)" by fastforce
  have "connected False (Inl StartFailed, [])" by (simp add: connected_def)
  then show ?thesis
    using connected_start pg_open_connected [of True dr "[]" schemas s] o pg_open_connected [of False] Some
    by (cases "connString = []") (auto simp: connectPostgres_def)
qed

end
