(* ===== verification/Emitter.thy ===== *)
theory Emitter
  imports GoStrings
begin

text \<open>
  The names of the generated files, \<^verbatim>\<open>internal/codegen/golang/emitter.go\<close>. Executing the template and
  writing the file are left out. The source paths come from \<^verbatim>\<open>filepath.Abs\<close>, so they are clean: no
  empty, \<^verbatim>\<open>.\<close> or \<^verbatim>\<open>..\<close> parts and no slash at the end.
\<close>

subsection \<open>Paths\<close>

definition path_Base :: "string \<Rightarrow> string" where
  "path_Base p =
     (if p = [] then ''.''
      else let q = rev (dropWhile (\<lambda>c. c = CHR ''/'') (rev p)) in
        if q = [] then ''/'' else rev (takeWhile (\<lambda>c. c \<noteq> CHR ''/'') (rev q)))"

text \<open>\<^verbatim>\<open>filepath.Dir\<close> of a clean absolute path.\<close>

definition path_Dir :: "string \<Rightarrow> string" where
  "path_Dir p =
     (let d = rev (dropWhile (\<lambda>c. c \<noteq> CHR ''/'') (rev p)) in if length d \<le> 1 then d else butlast d)"

subsection \<open>Choosing names\<close>

fun has_repeat :: "string list \<Rightarrow> string set \<Rightarrow> bool \<Rightarrow> bool" where
  "has_repeat [] seen collision = collision"
| "has_repeat (b # bs) seen collision = has_repeat bs (insert b seen) (collision \<or> b \<in> seen)"

definition parent_name :: "string \<Rightarrow> string" where
  "parent_name p = path_Base (path_Dir p) @ ''_'' @ path_Base p"

text \<open>The second loop: the names so far, how often each prefixed name was used, and its first index.\<close>

fun choose_loop :: "string list \<Rightarrow> (string \<rightharpoonup> nat) \<Rightarrow> (string \<rightharpoonup> nat) \<Rightarrow> string list \<Rightarrow> string list" where
  "choose_loop [] usedNames firstIdx outNames = outNames"
| "choose_loop (out # outs) usedNames firstIdx outNames =
     (case usedNames out of
        Some n \<Rightarrow>
          let names1 = outNames @ [out @ ''.'' @ itoa (int n)];
              firstI = (case firstIdx out of None \<Rightarrow> 0 | Some i \<Rightarrow> i)
          in choose_loop outs (usedNames(out \<mapsto> n + 1)) firstIdx
               (if n = 1 then names1[firstI := names1 ! firstI @ ''.0''] else names1)
      | None \<Rightarrow>
          choose_loop outs (usedNames(out \<mapsto> 1)) (firstIdx(out \<mapsto> length outNames)) (outNames @ [out]))"

definition chooseOutputFiles :: "string list \<Rightarrow> string list" where
  "chooseOutputFiles paths =
     (if \<not> has_repeat (map path_Base paths) {} False then map (\<lambda>p. path_Base p @ ''.go'') paths
      else map (\<lambda>n. n @ ''.go'') (choose_loop (map parent_name paths) Map.empty Map.empty []))"

subsection \<open>The names by count\<close>

text \<open>The reference: a name that occurs more than once is numbered by how often it occurred before.\<close>

definition numbered :: "string list \<Rightarrow> nat \<Rightarrow> string" where
  "numbered xs i =
     (let x = xs ! i in
      if count_list xs x \<ge> 2 then x @ ''.'' @ itoa (int (count_list (take i xs) x)) else x)"

definition numbered_all :: "string list \<Rightarrow> string list" where
  "numbered_all xs = map (numbered xs) [0..<length xs]"

lemma has_repeat_iff: "has_repeat bs seen c \<longleftrightarrow> c \<or> \<not> distinct bs \<or> set bs \<inter> seen \<noteq> {}"
  by (induction bs arbitrary: seen c) auto

lemma count_list_pos: "count_list xs x = 0 \<longleftrightarrow> x \<notin> set xs"
  by (induction xs) auto

lemma numbered_snoc:
  assumes "i < length xs"
  shows "numbered (xs @ [x]) i =
    (if xs ! i = x \<and> count_list xs x = 1 then x @ ''.'' @ itoa (int (count_list (take i xs) x)) else numbered xs i)"
  using assms by (auto simp: numbered_def nth_append Let_def)

lemma numbered_last:
  "numbered (xs @ [x]) (length xs) = (if x \<in> set xs then x @ ''.'' @ itoa (int (count_list xs x)) else x)"
  using count_list_pos [of xs x] by (auto simp: numbered_def Let_def)

definition first_index :: "string list \<Rightarrow> string \<rightharpoonup> nat" where
  "first_index xs x = (if x \<in> set xs then Some (length (takeWhile (\<lambda>y. y \<noteq> x) xs)) else None)"

definition use_count :: "string list \<Rightarrow> string \<rightharpoonup> nat" where
  "use_count xs x = (if x \<in> set xs then Some (count_list xs x) else None)"

lemma count_take_first: "count_list (take (length (takeWhile (\<lambda>y. y \<noteq> x) xs)) xs) x = 0"
  by (induction xs) auto

lemma first_index_unique:
  assumes "count_list xs x = 1" "i < length xs" "xs ! i = x"
  shows "i = length (takeWhile (\<lambda>y. y \<noteq> x) xs)"
  using assms
proof (induction xs arbitrary: i)
  case (Cons y ys)
  show ?case
  proof (cases "y = x")
    case True
    with Cons.prems have "x \<notin> set ys" by (simp add: count_list_pos)
    with Cons.prems True show ?thesis by (cases i) auto
  next
    case False
    with Cons.prems obtain j where "i = Suc j" by (cases i) auto
    with Cons False show ?thesis by auto
  qed
qed simp

lemma takeWhile_first: "x \<in> set xs \<Longrightarrow> length (takeWhile (\<lambda>y. y \<noteq> x) xs) < length xs \<and> xs ! length (takeWhile (\<lambda>y. y \<noteq> x) xs) = x"
  using nth_length_takeWhile [of "\<lambda>y. y \<noteq> x" xs] by (induction xs) auto

lemma numbered_all_snoc:
  "numbered_all (xs @ [x]) =
     (let names1 = numbered_all xs @ [if x \<in> set xs then x @ ''.'' @ itoa (int (count_list xs x)) else x];
          k = length (takeWhile (\<lambda>y. y \<noteq> x) xs)
      in if count_list xs x = 1 then names1[k := names1 ! k @ ''.0''] else names1)"
  (is "?l = ?r")
proof (rule nth_equalityI)
  show "length ?l = length ?r" by (simp add: numbered_all_def Let_def)
next
  fix i
  assume "i < length ?l"
  then have i: "i < length xs \<or> i = length xs" by (auto simp: numbered_all_def)
  let ?k = "length (takeWhile (\<lambda>y. y \<noteq> x) xs)"
  show "?l ! i = ?r ! i"
  proof (cases "count_list xs x = 1")
    case False
    then show ?thesis using i by (auto simp: numbered_all_def Let_def nth_append numbered_snoc numbered_last)
  next
    case True
    then have x: "x \<in> set xs" using count_list_pos [of xs x] by auto
    note k = takeWhile_first [OF x]
    have at_k: "numbered xs ?k = x" using k True by (simp add: numbered_def)
    have zero: "itoa 0 = ''0''" by code_simp
    show ?thesis
    proof (cases "i = ?k")
      case True
      then show ?thesis
        using k x \<open>count_list xs x = 1\<close> at_k count_take_first [of x xs]
        by (auto simp: numbered_all_def Let_def nth_append numbered_snoc zero)
    next
      case False
      then have "i < length xs \<Longrightarrow> xs ! i \<noteq> x" using first_index_unique [OF True] by blast
      with False i k x True show ?thesis
        by (auto simp: numbered_all_def Let_def nth_append numbered_snoc numbered_last)
    qed
  qed
qed

lemma takeWhile_snoc: "y \<notin> set xs \<Longrightarrow> length (takeWhile (\<lambda>z. z \<noteq> y) (xs @ [y])) = length xs"
  by (induction xs) auto

lemma choose_loop_numbered:
  "choose_loop ys (use_count xs) (first_index xs) (numbered_all xs) = numbered_all (xs @ ys)"
proof (induction ys arbitrary: xs)
  case (Cons y ys)
  have used: "use_count (xs @ [y]) = (use_count xs)(y \<mapsto> count_list xs y + 1)"
    by (auto simp: use_count_def fun_eq_iff)
  have fst: "first_index (xs @ [y]) = (if y \<in> set xs then first_index xs else (first_index xs)(y \<mapsto> length xs))"
    by (auto simp: first_index_def fun_eq_iff takeWhile_append1 takeWhile_snoc)
  have len: "length (numbered_all xs) = length xs" by (simp add: numbered_all_def)
  show ?case
  proof (cases "y \<in> set xs")
    case True
    then have "choose_loop (y # ys) (use_count xs) (first_index xs) (numbered_all xs) =
        choose_loop ys (use_count (xs @ [y])) (first_index (xs @ [y])) (numbered_all (xs @ [y]))"
      by (simp add: use_count_def [of xs] first_index_def [of xs] used fst numbered_all_snoc Let_def)
    with Cons [of "xs @ [y]"] show ?thesis by simp
  next
    case False
    then have c: "count_list xs y = 0" by (simp add: count_list_pos)
    have "use_count xs y = None" using False by (simp add: use_count_def)
    with c False have "choose_loop (y # ys) (use_count xs) (first_index xs) (numbered_all xs) =
        choose_loop ys (use_count (xs @ [y])) (first_index (xs @ [y])) (numbered_all (xs @ [y]))"
      by (simp add: used fst numbered_all_snoc Let_def len)
    with Cons [of "xs @ [y]"] show ?thesis by simp
  qed
qed simp

text \<open>C38: the names of the generated files are the base names of the sources if these differ, and
  otherwise the base names prefixed by their directory, numbered from 0 where they still repeat.\<close>

theorem chooseOutputFiles_numbered:
  "chooseOutputFiles paths =
     map (\<lambda>n. n @ ''.go'')
       (if distinct (map path_Base paths) then map path_Base paths else numbered_all (map parent_name paths))"
proof -
  have "choose_loop xs Map.empty Map.empty [] = numbered_all xs" for xs
  proof -
    have "use_count [] = Map.empty" "first_index [] = Map.empty" "numbered_all [] = []"
      by (auto simp: use_count_def first_index_def numbered_all_def fun_eq_iff)
    then show ?thesis using choose_loop_numbered [of xs "[]"] by simp
  qed
  then show ?thesis by (simp add: chooseOutputFiles_def has_repeat_iff)
qed

subsection \<open>No file is written twice\<close>

lemma suffix_Base:
  assumes "suffix ''.sql'' p"
  shows "suffix ''.sql'' (path_Base p)"
proof -
  obtain q where p: "p = q @ ''.sql''" using assms by (auto simp: suffix_def)
  have "path_Base p = rev (takeWhile (\<lambda>c. c \<noteq> CHR ''/'') (rev q)) @ ''.sql''" unfolding path_Base_def p by simp
  then show ?thesis by (simp add: suffix_def)
qed

lemma itoa_no_dot: "CHR ''.'' \<notin> set (itoa (int n))"
proof
  assume "CHR ''.'' \<in> set (itoa (int n))"
  then have "is_digit CHR ''.''" using nat_digits_all [of n] by (auto simp: itoa_def list_all_iff)
  then show False by (simp add: is_digit_def in_range_def)
qed

lemma split_last_dot:
  assumes "x @ ''.'' @ d = y @ ''.'' @ e" "CHR ''.'' \<notin> set d" "CHR ''.'' \<notin> set e"
  shows "x = y \<and> d = e"
proof -
  have tw: "takeWhile (\<lambda>c. c \<noteq> CHR ''.'') (rev (w @ ''.'' @ z)) = rev z" if "CHR ''.'' \<notin> set z" for w z :: string
    using that by (induction z rule: rev_induct) auto
  have "rev d = takeWhile (\<lambda>c. c \<noteq> CHR ''.'') (rev (x @ ''.'' @ d))" using tw [OF assms(2), of x] by (rule sym)
  also have "\<dots> = takeWhile (\<lambda>c. c \<noteq> CHR ''.'') (rev (y @ ''.'' @ e))" by (simp only: assms(1))
  also have "\<dots> = rev e" using tw [OF assms(3), of y] .
  finally show ?thesis using assms(1) by simp
qed

lemma sql_not_numbered:
  assumes "suffix ''.sql'' x"
  shows "x \<noteq> y @ ''.'' @ itoa (int n)"
proof
  assume eq: "x = y @ ''.'' @ itoa (int n)"
  have ne: "itoa (int n) \<noteq> []" by (simp add: itoa_def)
  then have "last x \<in> set (itoa (int n))" using eq by simp
  then have "is_digit (last x)" using nat_digits_all [of n] by (simp add: itoa_def list_all_iff)
  moreover have "last x = CHR ''l''" using assms by (auto simp: suffix_def)
  ultimately show False by (simp add: is_digit_def in_range_def)
qed

lemma count_take_mono:
  assumes "i \<le> j"
  shows "count_list (take i xs) x \<le> count_list (take j xs) x"
proof -
  have "take j xs = take i xs @ drop i (take j xs)"
    using append_take_drop_id [of i "take j xs"] assms by (simp add: min.absorb1)
  then have "count_list (take j xs) x = count_list (take i xs) x + count_list (drop i (take j xs)) x"
    by (metis count_list_append)
  then show ?thesis by simp
qed

lemma count_take_less:
  assumes "i < j" "i < length xs"
  shows "count_list (take i xs) (xs ! i) < count_list (take j xs) (xs ! i)"
  using count_take_mono [of "Suc i" j xs "xs ! i"] assms by (simp add: take_Suc_conv_app_nth)

lemma numbered_inj:
  assumes sql: "list_all (suffix ''.sql'') xs" and ij: "i < j" "j < length xs"
  shows "numbered xs i \<noteq> numbered xs j"
proof
  assume eq: "numbered xs i = numbered xs j"
  have si: "suffix ''.sql'' (xs ! i)" and sj: "suffix ''.sql'' (xs ! j)"
    using sql ij by (auto simp: list_all_iff)
  let ?n = "\<lambda>k. count_list (take k xs) (xs ! k)"
  consider "count_list xs (xs ! i) \<ge> 2" "count_list xs (xs ! j) \<ge> 2"
    | "count_list xs (xs ! i) \<ge> 2" "count_list xs (xs ! j) < 2"
    | "count_list xs (xs ! i) < 2" "count_list xs (xs ! j) \<ge> 2"
    | "count_list xs (xs ! i) < 2" "count_list xs (xs ! j) < 2" by linarith
  then show False
  proof cases
    case 1
    then have "xs ! i @ ''.'' @ itoa (int (?n i)) = xs ! j @ ''.'' @ itoa (int (?n j))"
      using eq by (simp add: numbered_def Let_def)
    from split_last_dot [OF this itoa_no_dot itoa_no_dot]
    have same: "xs ! i = xs ! j" "?n i = ?n j" using itoa_nat_inj by auto
    with count_take_less [of i j xs] ij show False by simp
  next
    case 2
    then show False using eq sql_not_numbered [OF sj] by (auto simp: numbered_def Let_def dest: sym)
  next
    case 3
    then show False using eq sql_not_numbered [OF si] by (auto simp: numbered_def Let_def)
  next
    case 4
    then have same: "xs ! i = xs ! j" using eq by (simp add: numbered_def Let_def)
    have "?n i < ?n j" using count_take_less [of i j xs] ij same by simp
    moreover have "?n j < count_list xs (xs ! j)" using count_take_less [of j "length xs" xs] ij by simp
    ultimately show False using 4 by linarith
  qed
qed



end
