(* ===== verification/Paths.thy ===== *)
theory Paths
  imports Emitter Utf8Enc "HOL-Library.AList" "HOL-Library.List_Lexorder" "HOL-Library.Char_ord"
begin

text \<open>
  File names: \<^verbatim>\<open>internal/paths/paths.go\<close>, \<^verbatim>\<open>internal/gomod/gomod.go\<close> and the functions of
  \<^verbatim>\<open>internal/cli/cli.go\<close> that read flags. The fragment of \<^verbatim>\<open>path/filepath\<close> is the one for Unix and for
  absolute names. The file system is the parameter \<open>files\<close>; it does not change during a run, so the
  values that \<^verbatim>\<open>sync.Once\<close> keeps are computed again here.
\<close>

subsection \<open>path/filepath\<close>

abbreviation slash :: char where
  "slash \<equiv> CHR ''/''"

text \<open>\<^verbatim>\<open>filepath.Clean\<close> of an absolute name, part by part; \<open>st\<close> holds the parts so far, the last first.\<close>

fun clean_parts :: "string list \<Rightarrow> string list \<Rightarrow> string list" where
  "clean_parts st [] = rev st"
| "clean_parts st (x # xs) =
     (if x = [] \<or> x = ''.'' then clean_parts st xs
      else if x = ''..'' then clean_parts (tl st) xs
      else clean_parts (x # st) xs)"

definition abs_path :: "string list \<Rightarrow> string" where
  "abs_path parts = slash # strings_Join ''/'' parts"

definition path_Clean :: "string \<Rightarrow> string" where
  "path_Clean p = abs_path (clean_parts [] (Split p slash))"

definition path_Join :: "string \<Rightarrow> string \<Rightarrow> string" where
  "path_Join dir name = path_Clean (dir @ ''/'' @ name)"

definition path_IsAbs :: "string \<Rightarrow> bool" where
  "path_IsAbs p \<longleftrightarrow> p \<noteq> [] \<and> hd p = slash"

definition path_Abs :: "string option \<Rightarrow> string \<Rightarrow> string option" where
  "path_Abs wd p = (if path_IsAbs p then Some (path_Clean p) else map_option (\<lambda>w. path_Join w p) wd)"

fun drop_common :: "string list \<Rightarrow> string list \<Rightarrow> string list \<times> string list" where
  "drop_common (x # xs) (y # ys) = (if x = y then drop_common xs ys else (x # xs, y # ys))"
| "drop_common xs ys = (xs, ys)"

text \<open>\<^verbatim>\<open>filepath.Rel\<close> of two absolute names, as the parts of the result; no part stands for \<^verbatim>\<open>.\<close>.\<close>

definition rel_parts :: "string \<Rightarrow> string \<Rightarrow> string list" where
  "rel_parts base targ =
     (case drop_common (clean_parts [] (Split base slash)) (clean_parts [] (Split targ slash)) of
        (bs, ts) \<Rightarrow> replicate (length bs) ''..'' @ ts)"

subsection \<open>The file system\<close>

datatype stat = Present | Absent | StatFails

record files =
  fs_wd :: "string option"
  fs_stat :: "string \<Rightarrow> stat"
  fs_read :: "string \<Rightarrow> string option"
  fs_glob :: "string \<Rightarrow> string list option"
  fs_modulePath :: "string \<Rightarrow> string"

datatype path_error =
    StatFile string
  | NoDir string
  | NoWorkingDir
  | NoGoMod
  | MissingFile string
  | BadGlob string
  | NoAbs string

subsection \<open>paths.go\<close>

partial_function (option) WalkUp :: "(string \<Rightarrow> stat) \<Rightarrow> string \<Rightarrow> string \<Rightarrow> (path_error + string) option" where
  "WalkUp stat dir name =
     (if dir = ''/'' then Some (Inl (NoDir dir))
      else case stat (path_Join dir name) of
        Present \<Rightarrow> Some (Inr dir)
      | StatFails \<Rightarrow> Some (Inl (StatFile (path_Join dir name)))
      | Absent \<Rightarrow> WalkUp stat (path_Dir dir) name)"

declare WalkUp.simps [code]

text \<open>The matches of a glob are those of \<^verbatim>\<open>doublestar.Glob\<close>, joined to its base.\<close>

definition is_glob :: "string \<Rightarrow> bool" where
  "is_glob p \<longleftrightarrow> list_ex (\<lambda>c. c \<in> set ''*?[{'') p"

definition glob_files :: "files \<Rightarrow> string \<Rightarrow> path_error + string list" where
  "glob_files fs glob =
     (if \<not> is_glob glob then (if fs_stat fs glob = Absent then Inl (MissingFile glob) else Inr [glob])
      else case fs_glob fs glob of None \<Rightarrow> Inl (BadGlob glob) | Some ms \<Rightarrow> Inr (sort ms))"

definition abs_file :: "files \<Rightarrow> string \<Rightarrow> path_error + string" where
  "abs_file fs p = (case path_Abs (fs_wd fs) p of None \<Rightarrow> Inl (NoAbs p) | Some a \<Rightarrow> Inr a)"

definition ExpandSortGlobs :: "files \<Rightarrow> string list \<Rightarrow> path_error + string list" where
  "ExpandSortGlobs fs globs =
     res_bind (seq_res (map (glob_files fs) globs)) (\<lambda>ms. seq_res (map (abs_file fs) (concat ms)))"

subsection \<open>gomod.go\<close>

definition FindDir :: "files \<Rightarrow> (path_error + string) option" where
  "FindDir fs = (case fs_wd fs of None \<Rightarrow> Some (Inl NoWorkingDir) | Some wd \<Rightarrow> WalkUp (fs_stat fs) wd ''go.mod'')"

definition ParsePath :: "files \<Rightarrow> string \<Rightarrow> path_error + string" where
  "ParsePath fs dir =
     (case fs_read fs (path_Join dir ''go.mod'') of None \<Rightarrow> Inl NoGoMod | Some bs \<Rightarrow> Inr (fs_modulePath fs bs))"

definition rel_dir :: "string \<Rightarrow> string \<Rightarrow> string" where
  "rel_dir base targ = (let ds = butlast (rel_parts base targ) in if ds = [] then ''.'' else strings_Join ''/'' ds)"

definition GuessPackage :: "files \<Rightarrow> string \<Rightarrow> (path_error + string) option" where
  "GuessPackage fs fileName =
     map_option (\<lambda>dir.
       res_bind dir (\<lambda>goModDir.
       res_bind (ParsePath fs goModDir) (\<lambda>goModPath.
       res_bind (abs_file fs fileName) (\<lambda>abs.
         Inr (goModPath @ ''/'' @ rel_dir goModDir abs))))) (FindDir fs)"

subsection \<open>Flags\<close>

text \<open>A flag that may be given several times, \<^verbatim>\<open>internal/flags/flags.go\<close>.\<close>

definition stringsValue_String :: "string list \<Rightarrow> string" where
  "stringsValue_String sv = strings_Join '','' sv"

definition stringsValue_Set :: "string list \<Rightarrow> string \<Rightarrow> string list" where
  "stringsValue_Set sv value = sv @ [value]"

fun deduce_dir :: "string list \<Rightarrow> string \<Rightarrow> string option" where
  "deduce_dir [] outDir = Some outDir"
| "deduce_dir (p # ps) outDir =
     (let dir = path_Dir p in if outDir \<noteq> [] \<and> dir \<noteq> outDir then None else deduce_dir ps dir)"

datatype flag_error =
    DifferentDirs
  | NoOutputDir string
  | UpperAcronym string
  | BadGoType string

definition DeduceOutputDir :: "string option \<Rightarrow> string \<Rightarrow> string list \<Rightarrow> flag_error + string" where
  "DeduceOutputDir wd outputDir queryFiles =
     (case (if outputDir = [] then deduce_dir queryFiles [] else Some outputDir) of
        None \<Rightarrow> Inl DifferentDirs
      | Some outDir \<Rightarrow> (case path_Abs wd outDir of None \<Rightarrow> Inl (NoOutputDir outDir) | Some a \<Rightarrow> Inr a))"

fun parse_acronyms :: "unicode \<Rightarrow> string list \<Rightarrow> (string \<rightharpoonup> string) \<Rightarrow> flag_error + (string \<rightharpoonup> string)" where
  "parse_acronyms U [] acros = Inr acros"
| "parse_acronyms U (acro # acronyms) acros =
     (case Cut acro CHR ''='' of (word, custom, found) \<Rightarrow>
        if word \<noteq> strings_ToLower U word then Inl (UpperAcronym word)
        else parse_acronyms U acronyms (acros(word \<mapsto> if found then custom else strings_ToUpper U word)))"

definition ParseAcronyms :: "unicode \<Rightarrow> string list \<Rightarrow> flag_error + (string \<rightharpoonup> string)" where
  "ParseAcronyms U acronyms = parse_acronyms U acronyms Map.empty"

fun parse_go_types :: "string list \<Rightarrow> (string \<times> string) list \<Rightarrow> flag_error + (string \<times> string) list" where
  "parse_go_types [] overrides = Inr overrides"
| "parse_go_types (typeAssoc # goTypes) overrides =
     (let i = LastIndex typeAssoc ''='' in
      if i \<le> 0 \<or> i = int (length typeAssoc) - 1 then Inl (BadGoType typeAssoc)
      else parse_go_types goTypes (AList.update (take (nat i) typeAssoc) (drop (nat i + 1) typeAssoc) overrides))"

definition ParseGoTypes :: "string list \<Rightarrow> flag_error + (string \<times> string) list" where
  "ParseGoTypes goTypes = parse_go_types goTypes []"

subsection \<open>Clean names\<close>

definition part_ok :: "string \<Rightarrow> bool" where
  "part_ok x \<longleftrightarrow> x \<noteq> [] \<and> x \<noteq> ''.'' \<and> x \<noteq> ''..'' \<and> slash \<notin> set x"

lemma Split_no_sep: "c \<notin> set x \<Longrightarrow> Split x c = [x]"
  by (induction x) auto

lemma Split_append: "c \<notin> set x \<Longrightarrow> Split (x @ c # y) c = x # Split y c"
  by (induction x) auto

lemma Split_Join:
  assumes "list_all (\<lambda>x. c \<notin> set x) xs" "xs \<noteq> []"
  shows "Split (strings_Join [c] xs) c = xs"
  using assms
proof (induction xs)
  case (Cons x xs)
  then show ?case by (cases xs) (simp_all add: Split_no_sep Split_append)
qed simp

lemma clean_parts_ok: "list_all part_ok xs \<Longrightarrow> clean_parts st xs = rev st @ xs"
  by (induction xs arbitrary: st) (auto simp: part_ok_def)

lemma parts_of_abs [simp]: "list_all part_ok xs \<Longrightarrow> clean_parts [] (Split (abs_path xs) slash) = xs"
  using Split_Join [of slash xs]
  by (cases "xs = []") (auto simp: abs_path_def clean_parts_ok part_ok_def list_all_iff)

lemma Split_parts: "x \<in> set (Split p c) \<Longrightarrow> c \<notin> set x"
  by (induction p arbitrary: x) (auto split: list.splits if_splits)

lemma clean_parts_parts:
  "list_all (\<lambda>x. slash \<notin> set x) xs \<Longrightarrow> list_all part_ok st \<Longrightarrow> list_all part_ok (clean_parts st xs)"
proof (induction xs arbitrary: st)
  case (Cons x xs)
  moreover have "list_all part_ok (tl st)" using Cons.prems(2) by (cases st) auto
  moreover have "x \<noteq> [] \<Longrightarrow> x \<noteq> ''.'' \<Longrightarrow> x \<noteq> ''..'' \<Longrightarrow> part_ok x" using Cons.prems(1) by (simp add: part_ok_def)
  ultimately show ?case by simp
qed (simp add: list_all_iff)

lemma clean_ok: "list_all part_ok (clean_parts [] (Split p slash))"
  using clean_parts_parts [of "Split p slash" "[]"] Split_parts [of _ p slash] by (auto simp: list_all_iff)

lemma path_Clean_abs: "list_all part_ok xs \<Longrightarrow> path_Clean (abs_path xs) = abs_path xs"
  by (simp add: path_Clean_def)

lemma path_Abs_clean: "path_Abs wd p = Some a \<Longrightarrow> \<exists>xs. list_all part_ok xs \<and> a = abs_path xs"
  using clean_ok by (auto simp: path_Abs_def path_Join_def path_Clean_def split: if_splits)

lemma Join_snoc: "strings_Join sep (xs @ [x]) = (if xs = [] then x else strings_Join sep xs @ sep @ x)"
  by (induction xs) (auto simp: strings_Join_Cons)

lemma abs_path_snoc: "abs_path (xs @ [x]) = (if xs = [] then slash # x else abs_path xs @ slash # x)"
  by (simp add: abs_path_def Join_snoc)

lemma dropWhile_snoc_part:
  "slash \<notin> set x \<Longrightarrow> dropWhile (\<lambda>c. c \<noteq> slash) (rev x @ slash # ys) = slash # ys"
  by (subst dropWhile_append2) auto

lemma path_Dir_abs [simp]:
  assumes "part_ok x"
  shows "path_Dir (abs_path (xs @ [x])) = abs_path xs"
proof -
  have s: "slash \<notin> set x" using assms by (simp add: part_ok_def)
  show ?thesis
    unfolding path_Dir_def abs_path_snoc
    by (cases "xs = []") (simp_all add: abs_path_def dropWhile_snoc_part [OF s] Let_def)
qed

lemma Split_app: "Split (u @ c # v) c = Split u c @ Split v c"
  by (induction u) (auto split: list.splits)

lemma clean_parts_append: "clean_parts st (xs @ ys) = clean_parts (rev (clean_parts st xs)) ys"
  by (induction xs arbitrary: st) auto

lemma path_Join_abs [simp]: "list_all part_ok xs \<Longrightarrow> part_ok x \<Longrightarrow> path_Join (abs_path xs) x = abs_path (xs @ [x])"
  by (simp add: path_Join_def path_Clean_def Split_app clean_parts_append, simp add: part_ok_def Split_no_sep)

lemma abs_path_eq_root: "list_all part_ok xs \<Longrightarrow> abs_path xs = ''/'' \<longleftrightarrow> xs = []"
  by (cases xs rule: rev_cases) (auto simp: abs_path_def Join_snoc part_ok_def)

lemma drop_common_append: "drop_common xs (xs @ ys) = ([], ys)"
  by (induction xs) (cases ys, auto)

subsection \<open>Looking for the module\<close>

text \<open>The reference: the longest beginning of the name, not the empty one, whose directory has the file.\<close>

fun nearest :: "(string \<Rightarrow> stat) \<Rightarrow> string \<Rightarrow> string list \<Rightarrow> nat \<Rightarrow> path_error + string" where
  "nearest stat name parts 0 = Inl (NoDir ''/'')"
| "nearest stat name parts (Suc n) =
     (let dir = take (Suc n) parts; p = abs_path (dir @ [name]) in
      case stat p of Present \<Rightarrow> Inr (abs_path dir) | StatFails \<Rightarrow> Inl (StatFile p) | Absent \<Rightarrow> nearest stat name parts n)"

lemma WalkUp_abs:
  assumes "list_all part_ok parts" "part_ok name" "n \<le> length parts"
  shows "WalkUp stat (abs_path (take n parts)) name = Some (nearest stat name parts n)"
  using assms
proof (induction n)
  case 0
  show ?case by (subst WalkUp.simps) (simp add: abs_path_def)
next
  case (Suc n)
  have ok: "list_all part_ok (take (Suc n) parts)" using Suc.prems(1) set_take_subset [of "Suc n" parts] by (auto simp: list_all_iff)
  have t: "take (Suc n) parts = take n parts @ [parts ! n]" using Suc.prems(3) by (simp add: take_Suc_conv_app_nth)
  have p: "part_ok (parts ! n)" using Suc.prems by (simp add: list_all_length)
  have ne: "abs_path (take (Suc n) parts) \<noteq> ''/''" unfolding abs_path_eq_root [OF ok] using t by simp
  have d: "path_Dir (abs_path (take (Suc n) parts)) = abs_path (take n parts)" unfolding t by (rule path_Dir_abs [OF p])
  have j: "path_Join (abs_path (take (Suc n) parts)) name = abs_path (take (Suc n) parts @ [name])"
    by (rule path_Join_abs [OF ok Suc.prems(2)])
  show ?case
    by (subst WalkUp.simps)
      (simp only: ne d j if_False Suc.IH [OF Suc.prems(1,2) Suc_leD [OF Suc.prems(3)]], simp add: Let_def split: stat.split)
qed

lemma nearest_dir: "nearest stat name parts n = Inr d \<Longrightarrow> \<exists>k. 0 < k \<and> k \<le> n \<and> d = abs_path (take k parts)"
proof (induction n)
  case (Suc n)
  then show ?case
    by (fastforce simp: Let_def split: stat.splits)
qed simp

text \<open>The working directory is a clean absolute name.\<close>

definition wd_ok :: "files \<Rightarrow> bool" where
  "wd_ok fs = (case fs_wd fs of None \<Rightarrow> True | Some wd \<Rightarrow> path_IsAbs wd \<and> path_Clean wd = wd)"

lemma wd_parts:
  assumes "wd_ok fs" "fs_wd fs = Some wd"
  obtains parts where "list_all part_ok parts" "wd = abs_path parts"
  using assms clean_ok [of wd] by (auto simp: wd_ok_def path_Clean_def dest: sym)

lemma FindDir_returns:
  assumes "wd_ok fs"
  shows "\<exists>r. FindDir fs = Some r"
proof (cases "fs_wd fs")
  case (Some wd)
  from wd_parts [OF assms Some] obtain parts where p: "list_all part_ok parts" "wd = abs_path parts" .
  have "part_ok ''go.mod''" by code_simp
  with WalkUp_abs [OF p(1) this order_refl, of "fs_stat fs"] Some p(2) show ?thesis by (simp add: FindDir_def)
qed (simp add: FindDir_def)

lemma GuessPackage_returns: "wd_ok fs \<Longrightarrow> \<exists>r. GuessPackage fs p = Some r"
  using FindDir_returns by (fastforce simp: GuessPackage_def)

subsection \<open>The package of a file\<close>

lemma strings_Join_slash: "rel_dir (abs_path xs) (abs_path (xs @ dirs @ [name])) =
    (if dirs = [] then ''.'' else strings_Join ''/'' dirs)"
  if "list_all part_ok xs" "list_all part_ok dirs" "part_ok name"
  using that by (simp add: rel_dir_def rel_parts_def drop_common_append butlast_append)

text \<open>C40: A query file below the directory of the nearest \<^verbatim>\<open>go.mod\<close> gets the path of the module followed by
  its directory in the module. A file in the directory of the module itself gets a path that ends in
  \<^verbatim>\<open>/.\<close>, which is not the path of the package.\<close>

theorem GuessPackage_below:
  assumes ok: "list_all part_ok root" "list_all part_ok sub" "list_all part_ok dirs" "part_ok name"
    and wd: "fs_wd fs = Some (abs_path (root @ sub))"
    and found: "nearest (fs_stat fs) ''go.mod'' (root @ sub) (length (root @ sub)) = Inr (abs_path root)"
    and go_mod: "fs_read fs (abs_path (root @ [''go.mod''])) = Some bs"
  shows "GuessPackage fs (abs_path (root @ dirs @ [name])) =
    Some (Inr (fs_modulePath fs bs @ ''/'' @ (if dirs = [] then ''.'' else strings_Join ''/'' dirs)))"
proof -
  have gm: "part_ok ''go.mod''" by code_simp
  have all: "list_all part_ok (root @ sub)" "list_all part_ok (root @ dirs @ [name])" using ok by simp_all
  have "FindDir fs = Some (Inr (abs_path root))"
    using WalkUp_abs [OF all(1) gm order_refl, of "fs_stat fs"] found wd by (simp add: FindDir_def)
  moreover have "ParsePath fs (abs_path root) = Inr (fs_modulePath fs bs)"
    using go_mod path_Join_abs [OF ok(1) gm] by (simp add: ParsePath_def)
  moreover have "abs_file fs (abs_path (root @ dirs @ [name])) = Inr (abs_path (root @ dirs @ [name]))"
    using path_Clean_abs [OF all(2)] by (simp add: abs_file_def path_Abs_def path_IsAbs_def) (simp add: abs_path_def)
  ultimately show ?thesis using strings_Join_slash [OF ok(1,3,4)] by (simp add: GuessPackage_def)
qed

definition sample_files :: files where
  "sample_files = \<lparr>fs_wd = Some ''/home/repo/cmd'', fs_stat = (\<lambda>p. if p = ''/home/repo/go.mod'' then Present else Absent),
     fs_read = (\<lambda>p. if p = ''/home/repo/go.mod'' then Some ''module example.com/repo'' else None), fs_glob = Map.empty,
     fs_modulePath = drop 7\<rparr>"

theorem GuessPackage_below_witness:
  "GuessPackage sample_files ''/home/repo/internal/db/query.sql'' = Some (Inr ''example.com/repo/internal/db'') \<and>
   GuessPackage sample_files ''/home/repo/query.sql'' = Some (Inr ''example.com/repo/.'')"
proof -
  have "list_all part_ok [''home'', ''repo'']" "list_all part_ok [''cmd'']" "list_all part_ok [''internal'', ''db'']" "list_all part_ok []"
    "part_ok ''query.sql''" "fs_wd sample_files = Some (abs_path ([''home'', ''repo''] @ [''cmd'']))"
    "nearest (fs_stat sample_files) ''go.mod'' ([''home'', ''repo''] @ [''cmd'']) (length ([''home'', ''repo''] @ [''cmd''])) =
       Inr (abs_path [''home'', ''repo''])"
    "fs_read sample_files (abs_path ([''home'', ''repo''] @ [''go.mod''])) = Some ''module example.com/repo''"
    by code_simp+
  note * = GuessPackage_below [OF this(1,2) _ this(5-8)]
  show ?thesis using * [of "[''internal'', ''db'']"] * [of "[]"]
    by (simp add: abs_path_def sample_files_def part_ok_def)
qed

subsection \<open>Type overrides\<close>

lemma LastIndex_nonneg: "LastIndex s [c] \<ge> 0 \<longleftrightarrow> c \<in> set s"
  by (induction s) (auto simp: Let_def)

lemma LastIndex_last: "c \<notin> set v \<Longrightarrow> LastIndex (k @ c # v) [c] = int (length k)"
proof (induction k)
  case Nil
  then have "\<not> LastIndex v [c] \<ge> 0" by (simp add: LastIndex_nonneg)
  then show ?case by (simp add: Let_def)
qed (simp add: Let_def)

lemma parse_go_types_pairs:
  assumes "list_all (\<lambda>(k, v). k \<noteq> [] \<and> v \<noteq> [] \<and> CHR ''='' \<notin> set v) kvs"
  shows "parse_go_types (map (\<lambda>(k, v). k @ ''='' @ v) kvs) acc = Inr (fold (\<lambda>(k, v). AList.update k v) kvs acc)"
  using assms
proof (induction kvs arbitrary: acc)
  case (Cons kv kvs)
  obtain k v where kv: "kv = (k, v)" by fastforce
  have "LastIndex (k @ CHR ''='' # v) ''='' = int (length k)" using Cons.prems kv by (simp add: LastIndex_last)
  then show ?case using Cons kv by (simp add: Let_def)
qed simp

end
