(* ===== verification/SqlTypes.thy ===== *)
theory SqlTypes
  imports GoPrelude ChTypes
begin

text \<open>
  The database types: those of Postgres, \<^verbatim>\<open>internal/pg/types.go\<close>, identified by OID, and the interface
  \<^verbatim>\<open>internal/sqltype/sqltype.go\<close> that Postgres and ClickHouse types implement. The floats that order the
  labels of an enum are left out; nothing reads them. The element type of an array is nil in the
  predeclared types of \<^verbatim>\<open>internal/pg/known_types.go\<close>.
\<close>

type_synonym oid = "32 word"

definition VoidOID :: oid where
  "VoidOID = 2278"

datatype TypeKind =
    KindBaseType | KindCompositeType | KindDomainType | KindEnumType | KindPseudoType | KindRangeType
  | KindPlaceholderType

fun TypeKind_String :: "TypeKind \<Rightarrow> string option" where
  "TypeKind_String KindBaseType = Some ''BaseType''"
| "TypeKind_String KindCompositeType = Some ''CompositeType''"
| "TypeKind_String KindDomainType = Some ''DomainType''"
| "TypeKind_String KindEnumType = Some ''EnumType''"
| "TypeKind_String KindPseudoType = Some ''PseudoType''"
| "TypeKind_String KindRangeType = Some ''RangeType''"
| "TypeKind_String KindPlaceholderType = None"

datatype pgtype =
    PgBase oid string
  | PgVoid
  | PgArray oid string "pgtype option"
  | PgEnum oid string "string list" "oid list"
  | PgDomain oid string bool bool pgtype int
  | PgComposite oid string "string list" "pgtype list"
  | PgUnknown oid string TypeKind
  | PgPlaceholder oid

fun pg_OID :: "pgtype \<Rightarrow> oid" where
  "pg_OID (PgBase i n) = i"
| "pg_OID PgVoid = VoidOID"
| "pg_OID (PgArray i n e) = i"
| "pg_OID (PgEnum i n ls cs) = i"
| "pg_OID (PgDomain i n nn d b k) = i"
| "pg_OID (PgComposite i n cs ts) = i"
| "pg_OID (PgUnknown i n k) = i"
| "pg_OID (PgPlaceholder i) = i"

fun pg_String :: "pgtype \<Rightarrow> string" where
  "pg_String (PgBase i n) = n"
| "pg_String PgVoid = ''void''"
| "pg_String (PgArray i n e) = n"
| "pg_String (PgEnum i n ls cs) = n"
| "pg_String (PgDomain i n nn d b k) = n"
| "pg_String (PgComposite i n cs ts) = n"
| "pg_String (PgUnknown i n k) = n"
| "pg_String (PgPlaceholder i) = ''placeholder-'' @ itoa (uint i)"

fun pg_Kind :: "pgtype \<Rightarrow> TypeKind" where
  "pg_Kind (PgBase i n) = KindBaseType"
| "pg_Kind PgVoid = KindPseudoType"
| "pg_Kind (PgArray i n e) = KindBaseType"
| "pg_Kind (PgEnum i n ls cs) = KindEnumType"
| "pg_Kind (PgDomain i n nn d b k) = KindDomainType"
| "pg_Kind (PgComposite i n cs ts) = KindCompositeType"
| "pg_Kind (PgUnknown i n k) = k"
| "pg_Kind (PgPlaceholder i) = KindPlaceholderType"

definition oidKey :: "oid \<Rightarrow> string" where
  "oidKey i = ''pg:'' @ itoa (uint i)"

definition pg_Key :: "pgtype \<Rightarrow> string" where
  "pg_Key t = oidKey (pg_OID t)"

subsection \<open>The interface\<close>

datatype sqltype = PgT pgtype | ChT chtype

fun sql_String :: "sqltype \<Rightarrow> string" where
  "sql_String (PgT t) = pg_String t"
| "sql_String (ChT t) = type_string t"

fun sql_Key :: "sqltype \<Rightarrow> string" where
  "sql_Key (PgT t) = pg_Key t"
| "sql_Key (ChT t) = chKey t"

text \<open>
  \<^verbatim>\<open>sqltype.ArrayType\<close>: the element type of an array of either database; the inner \<open>None\<close> is the nil
  element of the predeclared Postgres arrays.
\<close>

fun ElemType :: "sqltype \<Rightarrow> sqltype option option" where
  "ElemType (PgT (PgArray i n e)) = Some (map_option PgT e)"
| "ElemType (ChT (Array e)) = Some (Some (ChT e))"
| "ElemType t = None"

text \<open>What reading a Go type asks of a database type: whether it is an array, and its name.\<close>

definition sql_arg :: "sqltype \<Rightarrow> (bool \<times> string) option" where
  "sql_arg t = Some (ElemType t \<noteq> None, sql_String t)"

end
