(* ===== verification/GoQuote.thy ===== *)
theory GoQuote
  imports Utf8Enc
begin

text \<open>
  \<^verbatim>\<open>strconv.Quote\<close> of the Go standard library, the value of a Go string literal as the language
  defines it, and that the value of a quoted string is the string.
\<close>

subsection \<open>Encoding what was decoded\<close>

lemma char_offset: "l \<le> byte_val c \<Longrightarrow> c = char_of (l + (byte_val c - l))"
  by simp

lemma decode_shape:
  assumes "DecodeRune (c # s) = (r, w)" "r \<noteq> RuneError \<or> w \<noteq> 1" "0x80 \<le> byte_val c"
  obtains a b :: nat and t where "c # s = char_of (0xC0 + a) # char_of (0x80 + b) # t" "2 \<le> a" "a < 32" "b < 64"
  | a b d :: nat and t where "c # s = char_of (0xE0 + a) # char_of (0x80 + b) # char_of (0x80 + d) # t"
      "a < 16" "b < 64" "d < 64" "a = 0 \<longrightarrow> 32 \<le> b" "a = 13 \<longrightarrow> b < 32"
  | a b d e :: nat and t where "c # s = char_of (0xF0 + a) # char_of (0x80 + b) # char_of (0x80 + d) # char_of (0x80 + e) # t"
      "a < 5" "b < 64" "d < 64" "e < 64" "a = 0 \<longrightarrow> 16 \<le> b" "a = 4 \<longrightarrow> b < 16"
proof -
  let ?x = "byte_val c"
  obtain sz lo hi where lead: "lead_class ?x = (sz, lo, hi)" by (cases "lead_class ?x")
  have sz: "sz \<noteq> 0" "sz \<le> Suc (length s)" "sz = 2 \<or> sz = 3 \<or> sz = 4"
    using assms lead by (auto simp: DecodeRune_def lead_class_def split: if_splits)
  then obtain c1 s1 where s: "s = c1 # s1" by (cases s) auto
  have c1: "lo \<le> byte_val c1" "byte_val c1 \<le> hi" using assms lead sz s by (auto simp: DecodeRune_def Let_def split: if_splits)
  have lohi: "0x80 \<le> lo" "hi \<le> 0xBF" using lead sz(1) by (auto simp: lead_class_def split: if_splits)
  define b where "b = byte_val c1 - 0x80"
  have b: "c1 = char_of (0x80 + b)" "b < 64" using c1 lohi by (auto simp: b_def)
  consider "sz = 2" | "sz = 3" | "sz = 4" using sz(3) by blast
  then show ?thesis
  proof cases
    case 1
    then have "2 \<le> ?x - 0xC0" "?x - 0xC0 < 32" "0xC0 \<le> ?x" using lead by (auto simp: lead_class_def split: if_splits)
    then show ?thesis using that(1) [of "?x - 0xC0" b s1] s b by simp
  next
    case 2
    then obtain c2 s2 where s1: "s1 = c2 # s2" using sz s by (cases s1) auto
    have "cont_byte c2" using assms lead sz s s1 c1 2 by (auto simp: DecodeRune_def Let_def split: if_splits)
    then have d: "c2 = char_of (0x80 + (byte_val c2 - 0x80))" "byte_val c2 - 0x80 < 64" by (auto simp: cont_byte_def)
    have x: "0xE0 \<le> ?x" "?x - 0xE0 < 16" "?x - 0xE0 = 0 \<longrightarrow> 32 \<le> b" "?x - 0xE0 = 13 \<longrightarrow> b < 32"
      using lead 2 c1 by (auto simp: lead_class_def b_def split: if_splits)
    show ?thesis
      by (rule that(2) [of "?x - 0xE0" b "byte_val c2 - 0x80" s2]) (use s s1 b d x in auto)
  next
    case 3
    then obtain c2 c3 s3 where s1: "s1 = c2 # c3 # s3" using sz s
      by (cases s1; cases "tl s1") auto
    have "cont_byte c2" "cont_byte c3"
      using assms lead sz s s1 c1 3 by (auto simp: DecodeRune_def Let_def numeral_3_eq_3 split: if_splits)
    then have d: "c2 = char_of (0x80 + (byte_val c2 - 0x80))" "byte_val c2 - 0x80 < 64"
      "c3 = char_of (0x80 + (byte_val c3 - 0x80))" "byte_val c3 - 0x80 < 64" by (auto simp: cont_byte_def)
    have x: "0xF0 \<le> ?x" "?x - 0xF0 < 5" "?x - 0xF0 = 0 \<longrightarrow> 16 \<le> b" "?x - 0xF0 = 4 \<longrightarrow> b < 16"
      using lead 3 c1 by (auto simp: lead_class_def b_def split: if_splits)
    show ?thesis
      by (rule that(3) [of "?x - 0xF0" b "byte_val c2 - 0x80" "byte_val c3 - 0x80" s3]) (use s s1 b d x in auto)
  qed
qed

lemma divs:
  fixes a b d e :: nat
  assumes "b < 64" "d < 64" "e < 64"
  shows "(a * 64 + b) div 64 = a" "(a * 64 + b) mod 64 = b"
    "a * 4096 + b * 64 + d = (a * 64 + b) * 64 + d" "a * 262144 + b * 4096 + d * 64 + e = ((a * 64 + b) * 64 + d) * 64 + e"
  using assms by simp_all

lemma range3:
  fixes a b d :: nat
  assumes "a < 16" "b < 64" "d < 64" "a = 0 \<longrightarrow> 32 \<le> b" "a = 13 \<longrightarrow> b < 32"
  shows "0x800 \<le> (a * 64 + b) * 64 + d" "(a * 64 + b) * 64 + d < 0x10000"
    "(a * 64 + b) * 64 + d < 0xD800 \<or> 0xE000 \<le> (a * 64 + b) * 64 + d"
proof -
  show "0x800 \<le> (a * 64 + b) * 64 + d" using assms by (cases "a = 0") auto
  show "(a * 64 + b) * 64 + d < 0x10000" using assms(1-3) by auto
  show "(a * 64 + b) * 64 + d < 0xD800 \<or> 0xE000 \<le> (a * 64 + b) * 64 + d"
    using assms by (cases "a = 13"; cases "a < 13") auto
qed

lemma range4:
  fixes a b d e :: nat
  assumes "a < 5" "b < 64" "d < 64" "e < 64" "a = 0 \<longrightarrow> 16 \<le> b" "a = 4 \<longrightarrow> b < 16"
  shows "0x10000 \<le> ((a * 64 + b) * 64 + d) * 64 + e" "((a * 64 + b) * 64 + d) * 64 + e \<le> 0x10FFFF"
proof -
  show "0x10000 \<le> ((a * 64 + b) * 64 + d) * 64 + e" using assms by (cases "a = 0") auto
  show "((a * 64 + b) * 64 + d) * 64 + e \<le> 0x10FFFF" using assms by (cases "a = 4") auto
qed

lemma EncodeRune_DecodeRune:
  assumes "DecodeRune (c # s) = (r, w)" "r \<noteq> RuneError \<or> w \<noteq> 1"
  shows "valid_rune r" "EncodeRune r = take w (c # s)"
proof -
  have "valid_rune r \<and> EncodeRune r = take w (c # s)"
  proof (cases "byte_val c < 0x80")
    case True
    with assms show ?thesis
      by (auto simp: DecodeRune_def EncodeRune_def valid_rune_def encode_valid_int)
  next
    case False
    then have c: "0x80 \<le> byte_val c" by simp
    from decode_shape [OF assms c] show ?thesis
    proof cases
      case (1 a b t)
      let ?n = "a * 64 + b"
      have r: "r = int ?n" "w = 2" using decode2 [OF 1(2-4), of t] assms(1) 1(1) by simp_all
      have n: "0x80 \<le> ?n" "?n < 0x800" using 1 by simp_all
      then have "encode_valid (int ?n) = take 2 (c # s)"
        unfolding 1(1) encode_valid_int using divs(1,2) [OF 1(4), of 0 0 a] by simp
      with r n show ?thesis by (simp add: EncodeRune_def valid_rune_def)
    next
      case (2 a b d t)
      let ?n = "(a * 64 + b) * 64 + d"
      have r: "r = int ?n" "w = 3" using decode3 [OF 2(2-6), of t] assms(1) 2(1) by simp_all
      have n: "0x800 \<le> ?n" "?n < 0x10000" "?n < 0xD800 \<or> 0xE000 \<le> ?n" using range3 [OF 2(2-6)] .
      then have "encode_valid (int ?n) = take 3 (c # s)"
        unfolding 2(1) encode_valid_int using divs(1,2) [OF 2(3), of 0 0 a] divs(1,2) [OF 2(4), of 0 0 "a * 64 + b"] by simp
      moreover have "valid_rune (int ?n)" unfolding valid_rune_def using n by linarith
      ultimately show ?thesis unfolding r EncodeRune_def by simp
    next
      case (3 a b d e t)
      let ?n = "((a * 64 + b) * 64 + d) * 64 + e"
      have r: "r = int ?n" "w = 4" using decode4 [OF 3(2-7), of t] assms(1) 3(1) by simp_all
      have n: "0x10000 \<le> ?n" "?n \<le> 0x10FFFF" using range4 [OF 3(2-7)] .
      then have "encode_valid (int ?n) = take 4 (c # s)"
        unfolding 3(1) encode_valid_int
        using divs(1,2) [OF 3(3), of 0 0 a] divs(1,2) [OF 3(4), of 0 0 "a * 64 + b"]
          divs(1,2) [OF 3(5), of 0 0 "(a * 64 + b) * 64 + d"] by simp
      moreover have "valid_rune (int ?n)" unfolding valid_rune_def using n by linarith
      ultimately show ?thesis unfolding r EncodeRune_def by simp
    qed
  qed
  then show "valid_rune r" "EncodeRune r = take w (c # s)" by auto
qed

subsection \<open>Quoting\<close>

definition hex_char :: "nat \<Rightarrow> char" where
  "hex_char d = (if d < 10 then char_of (48 + d) else char_of (87 + d))"

primrec hexn :: "nat \<Rightarrow> nat \<Rightarrow> string" where
  "hexn 0 n = []"
| "hexn (Suc k) n = hexn k (n div 16) @ [hex_char (n mod 16)]"

text \<open>\<open>pr\<close> is \<^verbatim>\<open>strconv.IsPrint\<close>; \<open>pr_ok\<close> says what it is on ASCII.\<close>

definition pr_ok :: "(int \<Rightarrow> bool) \<Rightarrow> bool" where
  "pr_ok pr \<longleftrightarrow> list_all (\<lambda>r. pr (int r) \<longleftrightarrow> 32 \<le> r \<and> r < 127) [0..<128]"

definition escape_letters :: "(int \<times> char) list" where
  "escape_letters =
     [(7, CHR ''a''), (8, CHR ''b''), (12, CHR ''f''), (10, CHR ''n''), (13, CHR ''r''), (9, CHR ''t''), (11, CHR ''v'')]"

definition escape_letter :: "int \<Rightarrow> char option" where
  "escape_letter r = map_of escape_letters r"

definition escape_rune :: "(int \<Rightarrow> bool) \<Rightarrow> int \<Rightarrow> string" where
  "escape_rune pr r =
     (if r = 34 \<or> r = 92 then [CHR 0x5C, byte r]
      else if pr r then EncodeRune r
      else case escape_letter r of Some c \<Rightarrow> [CHR 0x5C, c]
      | None \<Rightarrow>
          if r < 32 \<or> r = 127 then [CHR 0x5C, CHR ''x''] @ hexn 2 (nat r)
          else if \<not> valid_rune r then [CHR 0x5C, CHR ''u''] @ hexn 4 0xFFFD
          else if r < 0x10000 then [CHR 0x5C, CHR ''u''] @ hexn 4 (nat r)
          else [CHR 0x5C, CHR ''U''] @ hexn 8 (nat r))"

function quote_body :: "(int \<Rightarrow> bool) \<Rightarrow> string \<Rightarrow> string" where
  "quote_body pr s =
     (if s = [] then []
      else case DecodeRune s of (r, w) \<Rightarrow>
        (if w = 1 \<and> r = RuneError then [CHR 0x5C, CHR ''x''] @ hexn 2 (byte_val (hd s)) else escape_rune pr r)
        @ quote_body pr (drop w s))"
  by pat_completeness auto
termination
  by (relation "measure (\<lambda>(pr, s). length s)") (auto dest!: sym [of "(_, _)"] dest: DecodeRune_width)

declare quote_body.simps [simp del]

definition Quote :: "(int \<Rightarrow> bool) \<Rightarrow> string \<Rightarrow> string" where
  "Quote pr s = [CHR 0x22] @ quote_body pr s @ [CHR 0x22]"

subsection \<open>The value of a string literal\<close>

definition hex_val :: "char \<Rightarrow> nat option" where
  "hex_val c =
     (let b = byte_val c in
      if 48 \<le> b \<and> b < 58 then Some (b - 48)
      else if 97 \<le> b \<and> b < 103 then Some (b - 87)
      else if 65 \<le> b \<and> b < 71 then Some (b - 55) else None)"

definition hex_value :: "string \<Rightarrow> nat option" where
  "hex_value ds = fold (\<lambda>c acc. Option.bind acc (\<lambda>n. map_option (\<lambda>d. n * 16 + d) (hex_val c))) ds (Some 0)"

definition escape_value :: "char \<Rightarrow> char option" where
  "escape_value c = map_of
     [(CHR ''a'', CHR 0x07), (CHR ''b'', CHR 0x08), (CHR ''f'', CHR 0x0C), (CHR ''n'', CHR 0x0A), (CHR ''r'', CHR 0x0D),
      (CHR ''t'', CHR 0x09), (CHR ''v'', CHR 0x0B), (CHR 0x5C, CHR 0x5C), (CHR 0x22, CHR 0x22)] c"

definition hex_width :: "char \<Rightarrow> nat" where
  "hex_width c = (if c = CHR ''x'' then 2 else if c = CHR ''u'' then 4 else if c = CHR ''U'' then 8 else 0)"

text \<open>The value of an interpreted string literal after its opening quote; \<open>None\<close> for what is no
  literal. Octal escapes, which \<open>Quote\<close> never writes, are not read.\<close>

function lit_body :: "string \<Rightarrow> string option" where
  "lit_body s =
     (case s of
        [] \<Rightarrow> None
      | c # t \<Rightarrow>
          if c = CHR 0x22 then (if t = [] then Some [] else None)
          else if c = CHR 0x0A then None
          else if c \<noteq> CHR 0x5C then map_option (\<lambda>v. c # v) (lit_body t)
          else case t of
            [] \<Rightarrow> None
          | e # u \<Rightarrow>
              (case escape_value e of
                 Some b \<Rightarrow> map_option (\<lambda>v. b # v) (lit_body u)
               | None \<Rightarrow>
                   let k = hex_width e in
                   if k = 0 \<or> length u < k then None
                   else case hex_value (take k u) of
                     None \<Rightarrow> None
                   | Some n \<Rightarrow>
                       if e = CHR ''x'' then map_option (\<lambda>v. char_of n # v) (lit_body (drop k u))
                       else if valid_rune (int n) then map_option (\<lambda>v. EncodeRune (int n) @ v) (lit_body (drop k u))
                       else None))"
  by pat_completeness auto
termination
  by (relation "measure length") auto

declare lit_body.simps [simp del]

text \<open>A raw literal is all up to the next back quote, less the carriage returns.\<close>

definition go_literal :: "string \<Rightarrow> string option" where
  "go_literal s =
     (case s of
        [] \<Rightarrow> None
      | q # t \<Rightarrow>
          if q = CHR 0x22 then lit_body t
          else if q = CHR 0x60 \<and> t \<noteq> [] \<and> last t = CHR 0x60 \<and> CHR 0x60 \<notin> set (butlast t)
          then Some (filter (\<lambda>c. c \<noteq> CHR 0x0D) (butlast t)) else None)"

subsection \<open>The value of a quoted string\<close>

definition plain :: "char \<Rightarrow> bool" where
  "plain c \<longleftrightarrow> c \<noteq> CHR 0x22 \<and> c \<noteq> CHR 0x5C \<and> c \<noteq> CHR 0x0A"

lemma lit_plain: "list_all plain p \<Longrightarrow> lit_body (p @ s) = map_option (\<lambda>v. p @ v) (lit_body s)"
proof (induction p)
  case (Cons c p)
  then show ?case by (simp add: lit_body.simps [of "c # p @ s"] plain_def option.map_comp comp_def)
qed (cases "lit_body s"; simp)

lemma lit_letter: "escape_value e = Some b \<Longrightarrow> lit_body (CHR 0x5C # e # s) = map_option (\<lambda>v. b # v) (lit_body s)"
  by (simp add: lit_body.simps [of "CHR 0x5C # e # s"])

lemma hex_val_char: "d < 16 \<Longrightarrow> hex_val (hex_char d) = Some d"
  by (simp add: hex_val_def hex_char_def)

lemma hex_value_hexn: "n < 16 ^ k \<Longrightarrow> hex_value (hexn k n) = Some n"
proof (induction k arbitrary: n)
  case (Suc k)
  then have "n div 16 < 16 ^ k" by (simp add: div_less_iff_less_mult mult.commute)
  from Suc.IH [OF this] show ?case by (simp add: hex_value_def hex_val_char)
qed (simp add: hex_value_def)

lemma length_hexn [simp]: "length (hexn k n) = k"
  by (induction k arbitrary: n) simp_all

lemma lit_hex:
  assumes "n < 16 ^ hex_width e" "hex_width e \<noteq> 0"
  shows "lit_body (CHR 0x5C # e # hexn (hex_width e) n @ s) =
    (if e = CHR ''x'' then map_option (\<lambda>v. char_of n # v) (lit_body s)
     else if valid_rune (int n) then map_option (\<lambda>v. EncodeRune (int n) @ v) (lit_body s) else None)"
proof -
  have "escape_value e = None" using assms(2) by (auto simp: hex_width_def escape_value_def split: if_splits)
  then show ?thesis
    using hex_value_hexn [OF assms(1)] assms(2) by (subst lit_body.simps) simp
qed

lemma EncodeRune_ascii_char: "0 \<le> r \<Longrightarrow> r < 128 \<Longrightarrow> EncodeRune r = [char_of (nat r)]"
  by (simp add: EncodeRune_def valid_rune_def encode_valid_def byte_def)

lemma wide_bytes:
  assumes "valid_rune r" "128 \<le> r"
  shows "list_all plain (EncodeRune r)"
proof -
  obtain n where n: "r = int n" "128 \<le> n" using assms(2) by (cases r) auto
  have e: "EncodeRune r = encode_valid (int n)" using assms(1) n by (simp add: EncodeRune_def)
  have p: "plain (char_of k)" if "128 \<le> k" "k < 256" for k :: nat
    using that by (auto simp: plain_def dest!: arg_cong [where f = byte_val])
  have "n < 0x800 \<Longrightarrow> n div 64 < 32" "n < 0x10000 \<Longrightarrow> n div 64 div 64 < 16"
    "n \<le> 0x10FFFF \<Longrightarrow> n div 64 div 64 div 64 < 5" by auto
  moreover have "n \<le> 0x10FFFF" using assms(1) n by (auto simp: valid_rune_def)
  ultimately show ?thesis
    using n(2) unfolding e encode_valid_int by (auto intro!: p)
qed

lemma lit_escape_rune:
  assumes "pr_ok pr" "valid_rune r"
  shows "lit_body (escape_rune pr r @ s) = map_option (\<lambda>v. EncodeRune r @ v) (lit_body s)"
proof -
  have nonneg: "0 \<le> r" using assms(2) by (auto simp: valid_rune_def)
  have ascii: "pr r \<longleftrightarrow> 32 \<le> r \<and> r < 127" if "r < 128"
    using assms(1) nonneg that by (auto simp: pr_ok_def list_all_iff dest!: bspec [where x = "nat r"])
  consider "r = 34 \<or> r = 92" | "pr r" "r \<noteq> 34" "r \<noteq> 92" | "\<not> pr r" "r \<noteq> 34" "r \<noteq> 92" by blast
  then show ?thesis
  proof cases
    case 1
    have "escape_value (byte 34) = Some (byte 34)" "escape_value (byte 92) = Some (byte 92)"
      "EncodeRune 34 = [byte 34]" "EncodeRune 92 = [byte 92]"
      by code_simp+
    with 1 show ?thesis using lit_letter [of "byte r" "byte r" s] by (elim disjE) (simp_all add: escape_rune_def)
  next
    case 2
    have "list_all plain (EncodeRune r)"
    proof (cases "r < 128")
      case True
      then have "32 \<le> r" using ascii 2 by blast
      then have "plain (char_of (nat r))" using True 2 by (auto simp: plain_def dest!: arg_cong [where f = byte_val])
      then show ?thesis using True nonneg by (simp add: EncodeRune_ascii_char)
    qed (use assms wide_bytes in auto)
    with 2 show ?thesis using lit_plain by (simp add: escape_rune_def)
  next
    case 3
    show ?thesis
    proof (cases "escape_letter r")
      case (Some c)
      have "list_all (\<lambda>(r, c). escape_value c = Some (char_of (nat r)) \<and> r < 128) escape_letters" by code_simp
      then have "escape_value c = Some (char_of (nat r)) \<and> r < 128"
        using map_of_SomeD [OF Some [unfolded escape_letter_def]] by (auto simp: list_all_iff)
      with 3 Some nonneg show ?thesis by (simp add: escape_rune_def lit_letter EncodeRune_ascii_char)
    next
      case None
      have x: "hex_width CHR ''x'' = 2" "hex_width CHR ''u'' = 4" "hex_width CHR ''U'' = 8" by (simp_all add: hex_width_def)
      consider "r < 32 \<or> r = 127" | "32 \<le> r" "r \<noteq> 127" "r < 0x10000" | "0x10000 \<le> r" by linarith
      then show ?thesis
      proof cases
        case 1
        then show ?thesis using lit_hex [of "nat r" "CHR ''x''" s] 3 None nonneg
          by (auto simp: escape_rune_def x EncodeRune_ascii_char)
      next
        case 2
        then show ?thesis using lit_hex [of "nat r" "CHR ''u''" s] 3 None nonneg assms(2)
          by (auto simp: escape_rune_def x)
      next
        case 3
        then have "r \<le> 0x10FFFF" using assms(2) by (auto simp: valid_rune_def)
        then show ?thesis using lit_hex [of "nat r" "CHR ''U''" s] 3 \<open>\<not> pr r\<close> None nonneg assms(2)
          by (auto simp: escape_rune_def x)
      qed
    qed
  qed
qed

lemma lit_quote_body:
  assumes "pr_ok pr"
  shows "lit_body (quote_body pr s @ [CHR 0x22]) = Some s"
  using assms
proof (induction pr s rule: quote_body.induct)
  case (1 pr s)
  show ?case
  proof (cases s)
    case (Cons c t)
    obtain r w where rw: "DecodeRune s = (r, w)" by (cases "DecodeRune s")
    have IH: "lit_body (quote_body pr (drop w s) @ [CHR 0x22]) = Some (drop w s)"
      using 1 rw Cons by auto
    show ?thesis
    proof (cases "w = 1 \<and> r = RuneError")
      case True
      have "byte_val c < 16 ^ hex_width CHR ''x''" by (simp add: hex_width_def)
      from lit_hex [OF this] have "lit_body (CHR 0x5C # CHR ''x'' # hexn 2 (byte_val c) @ quote_body pr (drop w s) @ [CHR 0x22]) =
          Some (c # drop w s)"
        using IH by (simp add: hex_width_def)
      with True rw Cons show ?thesis by (simp add: quote_body.simps [of pr "c # t"])
    next
      case False
      note enc = EncodeRune_DecodeRune [of c t r w]
      have "valid_rune r" "EncodeRune r = take w s" using enc rw Cons False by auto
      with lit_escape_rune [OF 1(2) this(1), of "quote_body pr (drop w s) @ [CHR 0x22]"] IH rw Cons False
      show ?thesis by (auto simp: quote_body.simps [of pr "c # t"])
    qed
  qed (simp add: quote_body.simps lit_body.simps)
qed

lemma go_literal_Quote: "pr_ok pr \<Longrightarrow> go_literal (Quote pr s) = Some s"
  by (simp add: go_literal_def Quote_def lit_quote_body)

end
