(* ===== verification/Templated.thy ===== *)
theory Templated
  imports SqlTypes GoTypes GoQuote ChInfer
begin

text \<open>
  The data from which a Go file is printed and the functions that print its parts,
  \<^verbatim>\<open>internal/codegen/golang/templated_file.go\<close> and \<^verbatim>\<open>ch_templated_file.go\<close>. \<open>U\<close> is the table of letters,
  \<open>pr\<close> is \<^verbatim>\<open>strconv.IsPrint\<close>. A file is not linked to its package: the one function that reads the
  package takes its files as an argument. \<^verbatim>\<open>switch\<close> branches for result kinds other than the three
  have no counterpart.
\<close>

subsection \<open>Data\<close>

definition DialectPostgres :: string where
  "DialectPostgres = ''postgres''"

definition DialectClickHouse :: string where
  "DialectClickHouse = ''clickhouse''"

record TemplatedParam =
  pa_UpperName :: string
  pa_LowerName :: string
  pa_QualType :: string
  pa_Type :: gotype
  pa_RawName :: "sqltype InputParam"

record TemplatedColumn =
  co_PgName :: string
  co_UpperName :: string
  co_LowerName :: string
  co_Type :: gotype
  co_QualType :: string

record TemplatedQuery =
  q_Dialect :: string
  q_Name :: string
  q_SQLVarName :: string
  q_ResultKind :: ResultKind
  q_Doc :: string
  q_PreparedSQL :: string
  q_Inputs :: "TemplatedParam list"
  q_Outputs :: "TemplatedColumn list"
  q_InlineParamCount :: int
  q_OutputType :: string
  q_SQLConst :: string
  q_VariantGroup :: string
  q_VariantKey :: VariantKey

record SortKeyConst =
  ConstName :: string
  sk_Value :: string

record PaginateGroup =
  pg_Name :: string
  ParamsTypeName :: string
  UnifiedInputs :: "TemplatedParam list"
  SortKeyConsts :: "SortKeyConst list"
  pg_Variants :: "TemplatedQuery list"

text \<open>\<^verbatim>\<open>strings.Repeat(" ", width-len(s))\<close>\<close>

definition blanks_to :: "nat \<Rightarrow> string \<Rightarrow> string" where
  "blanks_to width s = replicate (width - length s) CHR '' ''"

text \<open>The running maximum of lengths.\<close>

definition longest :: "string list \<Rightarrow> nat" where
  "longest xs = fold (\<lambda>x n. max n (length x)) xs 0"

definition nl :: string where
  "nl = [CHR 0x0A]"

definition tab :: string where
  "tab = [CHR 0x09]"

definition tick :: string where
  "tick = [CHR 0x60]"

definition dquote :: string where
  "dquote = [CHR 0x22]"

subsection \<open>Names\<close>

definition lowerFirst :: "unicode \<Rightarrow> string \<Rightarrow> string" where
  "lowerFirst U s = (if s = [] then s else strings_ToLower U (take 1 s) @ drop 1 s)"

definition upperFirst :: "unicode \<Rightarrow> string \<Rightarrow> string" where
  "upperFirst U s = (if s = [] then s else strings_ToUpper U (take 1 s) @ drop 1 s)"

definition snakeToCamel :: "unicode \<Rightarrow> string \<Rightarrow> string" where
  "snakeToCamel U s = concat (map (upperFirst U) (Split s CHR ''_''))"

definition variantSuffix :: "unicode \<Rightarrow> VariantKey \<Rightarrow> string" where
  "variantSuffix U k =
     (if vk_default k then ''Default''
      else upperFirst U (snakeToCamel U (vk_sort k)) @ (if vk_descending k then ''Desc'' else ''Asc''))"

definition IsVariant :: "TemplatedQuery \<Rightarrow> bool" where
  "IsVariant tq \<longleftrightarrow> q_VariantGroup tq \<noteq> []"

definition VariantMethodName :: "unicode \<Rightarrow> TemplatedQuery \<Rightarrow> string" where
  "VariantMethodName U tq = lowerFirst U (q_VariantGroup tq) @ variantSuffix U (q_VariantKey tq)"

definition VariantParamsType :: "TemplatedQuery \<Rightarrow> string" where
  "VariantParamsType tq = q_VariantGroup tq @ ''Params''"

definition EmitVariantParamNames :: "TemplatedQuery \<Rightarrow> string" where
  "EmitVariantParamNames tq = concat (map (\<lambda>i. '', params.'' @ pa_UpperName i) (q_Inputs tq))"

definition rowTypeName :: "TemplatedQuery \<Rightarrow> string" where
  "rowTypeName tq = (if q_OutputType tq \<noteq> [] then q_OutputType tq else q_Name tq @ ''Row'')"

definition removeVoidColumns :: "TemplatedColumn list \<Rightarrow> TemplatedColumn list" where
  "removeVoidColumns cols = filter (\<lambda>c. co_Type c \<noteq> VoidType) cols"

subsection \<open>Parameters\<close>

definition EmitPreparedSQL :: "(int \<Rightarrow> bool) \<Rightarrow> TemplatedQuery \<Rightarrow> string" where
  "EmitPreparedSQL pr tq =
     (if CHR 0x60 \<in> set (q_PreparedSQL tq) then Quote pr (q_PreparedSQL tq)
      else tick @ q_PreparedSQL tq @ tick)"

definition isInlineParams :: "TemplatedQuery \<Rightarrow> bool" where
  "isInlineParams tq \<longleftrightarrow> int (length (q_Inputs tq)) \<le> q_InlineParamCount tq"

definition EmitParams :: "TemplatedQuery \<Rightarrow> string" where
  "EmitParams tq =
     (if \<not> isInlineParams tq then '', params '' @ q_Name tq @ ''Params''
      else concat (map (\<lambda>i. '', '' @ pa_LowerName i @ '' '' @ pa_QualType i) (q_Inputs tq)))"

definition getLongestInput :: "TemplatedParam list \<Rightarrow> nat \<times> nat" where
  "getLongestInput inputs = (longest (map pa_UpperName inputs) + 1, longest (map pa_QualType inputs) + 1)"

definition EmitParamStruct :: "(int \<Rightarrow> bool) \<Rightarrow> TemplatedQuery \<Rightarrow> string" where
  "EmitParamStruct pr tq =
     (if isInlineParams tq then []
      else case getLongestInput (q_Inputs tq) of (maxNameLen, maxTypeLen) \<Rightarrow>
        nl @ nl @ ''type '' @ q_Name tq @ ''Params struct {'' @ nl @
        concat (map (\<lambda>out. tab @ pa_UpperName out @ blanks_to maxNameLen (pa_UpperName out) @
          pa_QualType out @ blanks_to maxTypeLen (pa_QualType out) @
          tick @ ''json:'' @ Quote pr (ip_name (pa_RawName out)) @ tick @ nl) (q_Inputs tq)) @ ''}'')"

definition EmitArgNamesContext :: "(int \<Rightarrow> bool) \<Rightarrow> TemplatedQuery \<Rightarrow> string" where
  "EmitArgNamesContext pr tq =
     (if q_Inputs tq = [] then []
      else nl @ tab @ ''ctx = context.WithValue(ctx, '' @ dquote @ ''pggen_query_args'' @ dquote @ '', []string{'' @
        strings_Join '', '' (map (\<lambda>i. Quote pr (ip_name (pa_RawName i))) (q_Inputs tq)) @ ''})'')"

definition EmitParamNames :: "TemplatedQuery \<Rightarrow> string" where
  "EmitParamNames tq =
     (if isInlineParams tq then concat (map (\<lambda>i. '', '' @ pa_LowerName i) (q_Inputs tq))
      else concat (map (\<lambda>i. '', '' @ ''params.'' @ pa_UpperName i) (q_Inputs tq)))"

subsection \<open>Results\<close>

datatype emit_error =
    RowScanOfExec string
  | InitOfExec
  | ExprOfExec
  | NoResultColumns string
  | BadQueryText sql_error
  | NoGoPackage

definition EmitRowScanArgs :: "TemplatedQuery \<Rightarrow> emit_error + string" where
  "EmitRowScanArgs tq =
     (if q_ResultKind tq = ResultKindExec then Inl (RowScanOfExec (q_Name tq))
      else let hasOnlyOneNonVoid = (length (removeVoidColumns (q_Outputs tq)) = 1) in
        Inr (strings_Join '', '' (map (\<lambda>out.
          if UnwrapNestedType (co_Type out) = VoidType then ''nil''
          else if hasOnlyOneNonVoid then ''&item'' else ''&item.'' @ co_UpperName out) (q_Outputs tq))))"

definition EmitResultType :: "TemplatedQuery \<Rightarrow> string" where
  "EmitResultType tq =
     (case q_ResultKind tq of
        ResultKindExec \<Rightarrow> ''pgconn.CommandTag''
      | ResultKindMany \<Rightarrow>
          (case removeVoidColumns (q_Outputs tq) of
             [] \<Rightarrow> ''pgconn.CommandTag''
           | [out] \<Rightarrow> ''[]'' @ co_QualType out
           | _ \<Rightarrow> ''[]'' @ rowTypeName tq)
      | ResultKindOne \<Rightarrow>
          (case removeVoidColumns (q_Outputs tq) of
             [] \<Rightarrow> ''pgconn.CommandTag''
           | [out] \<Rightarrow> co_QualType out
           | _ \<Rightarrow> rowTypeName tq))"

definition EmitResultTypeInit :: "string \<Rightarrow> TemplatedQuery \<Rightarrow> emit_error + string" where
  "EmitResultTypeInit name tq =
     (let result = EmitResultType tq in
      case q_ResultKind tq of
        ResultKindOne \<Rightarrow>
          Inr (if prefix ''[]'' result then name @ '' := '' @ result @ ''{}''
               else ''var '' @ name @ '' '' @ result)
      | ResultKindMany \<Rightarrow>
          Inr (if prefix ''[]'' result then name @ '' := '' @ result @ ''{}''
               else ''var '' @ name @ '' '' @ TrimPrefix result ''*'')
      | ResultKindExec \<Rightarrow> Inl InitOfExec)"

definition EmitResultElem :: "TemplatedQuery \<Rightarrow> string" where
  "EmitResultElem tq = TrimPrefix (TrimPrefix (EmitResultType tq) ''[]'') ''*''"

definition EmitResultExpr :: "string \<Rightarrow> TemplatedQuery \<Rightarrow> emit_error + string" where
  "EmitResultExpr name tq =
     (case q_ResultKind tq of
        ResultKindOne \<Rightarrow> Inr name
      | ResultKindMany \<Rightarrow>
          (let result = EmitResultType tq in
           Inr (if prefix ''[]*'' result \<or> prefix ''*'' result then ''&'' @ name else name))
      | ResultKindExec \<Rightarrow> Inl ExprOfExec)"

subsection \<open>Row structs\<close>

definition getLongestOutput :: "TemplatedColumn list \<Rightarrow> nat \<times> nat" where
  "getLongestOutput outs = (longest (map co_UpperName outs) + 1, longest (map co_QualType outs) + 1)"

definition chTag :: "(int \<Rightarrow> bool) \<Rightarrow> string \<Rightarrow> string" where
  "chTag pr pgName = ''ch:'' @ Quote pr pgName"

definition writeRowStructFields :: "(int \<Rightarrow> bool) \<Rightarrow> TemplatedColumn list \<Rightarrow> string \<Rightarrow> string" where
  "writeRowStructFields pr cols dialect =
     (case getLongestOutput cols of (maxNameLen, maxTypeLen) \<Rightarrow>
      let chTags = (dialect = DialectClickHouse);
          maxTagLen = (if chTags then longest (map (\<lambda>c. chTag pr (co_PgName c)) cols) + 1 else 0) in
      concat (map (\<lambda>out. tab @ co_UpperName out @ blanks_to maxNameLen (co_UpperName out) @
        co_QualType out @ blanks_to maxTypeLen (co_QualType out) @ tick @
        (if chTags then chTag pr (co_PgName out) @ blanks_to maxTagLen (chTag pr (co_PgName out)) else []) @
        ''json:'' @ Quote pr (co_PgName out) @ tick @ nl) cols))"

definition EmitRowStruct :: "(int \<Rightarrow> bool) \<Rightarrow> TemplatedQuery \<Rightarrow> string" where
  "EmitRowStruct pr tq =
     (if q_ResultKind tq = ResultKindExec then []
      else if q_OutputType tq \<noteq> [] then []
      else let outs = removeVoidColumns (q_Outputs tq) in
        if length outs \<le> 1 then []
        else nl @ nl @ ''type '' @ q_Name tq @ ''Row struct {'' @ nl @
          writeRowStructFields pr outs DialectPostgres @ ''}'')"

subsection \<open>ClickHouse queries\<close>

definition EmitChUsesRowStruct :: "TemplatedQuery \<Rightarrow> bool" where
  "EmitChUsesRowStruct tq \<longleftrightarrow>
     q_ResultKind tq \<noteq> ResultKindExec \<and>
     (q_OutputType tq \<noteq> [] \<or> length (removeVoidColumns (q_Outputs tq)) > 1)"

definition EmitChResultElem :: "TemplatedQuery \<Rightarrow> emit_error + string" where
  "EmitChResultElem tq =
     (if EmitChUsesRowStruct tq then Inr (rowTypeName tq)
      else case removeVoidColumns (q_Outputs tq) of
        [out] \<Rightarrow> Inr (co_QualType out)
      | _ \<Rightarrow> Inl (NoResultColumns (q_Name tq)))"

definition EmitChResultType :: "TemplatedQuery \<Rightarrow> emit_error + string" where
  "EmitChResultType tq =
     map_res (\<lambda>el. if q_ResultKind tq = ResultKindMany then ''[]'' @ el else el) (EmitChResultElem tq)"

definition EmitChResultSignature :: "TemplatedQuery \<Rightarrow> emit_error + string" where
  "EmitChResultSignature tq =
     (if q_ResultKind tq = ResultKindExec then Inr ''error''
      else map_res (\<lambda>result. ''('' @ result @ '', error)'') (EmitChResultType tq))"

definition isIdentifier :: "TemplatedParam \<Rightarrow> bool" where
  "isIdentifier input \<longleftrightarrow> (case ip_type (pa_RawName input) of ChT t \<Rightarrow> IsIdentifier t | PgT t \<Rightarrow> False)"

definition named_arg :: "(int \<Rightarrow> bool) \<Rightarrow> TemplatedParam \<Rightarrow> string \<Rightarrow> string" where
  "named_arg pr input val =
     '','' @ nl @ tab @ tab @ ''clickhouse.Named('' @ Quote pr (ip_name (pa_RawName input)) @ '', '' @ val @ '')''"

definition close_args :: "string \<Rightarrow> string" where
  "close_args sb = (if sb \<noteq> [] then sb @ '','' @ nl @ tab else sb)"

definition EmitChParamNames :: "(int \<Rightarrow> bool) \<Rightarrow> TemplatedQuery \<Rightarrow> string" where
  "EmitChParamNames pr tq =
     close_args (concat (map (\<lambda>input. named_arg pr input
         (if isInlineParams tq then pa_LowerName input else ''params.'' @ pa_UpperName input))
       (filter (\<lambda>input. \<not> isIdentifier input) (q_Inputs tq))))"

definition EmitChRowStruct :: "(int \<Rightarrow> bool) \<Rightarrow> TemplatedQuery \<Rightarrow> string" where
  "EmitChRowStruct pr tq =
     (if \<not> EmitChUsesRowStruct tq \<or> q_OutputType tq \<noteq> [] then []
      else nl @ nl @ ''type '' @ q_Name tq @ ''Row struct {'' @ nl @
        writeRowStructFields pr (removeVoidColumns (q_Outputs tq)) DialectClickHouse @ ''}'')"

definition EmitChPreparedSQL :: "(int \<Rightarrow> bool) \<Rightarrow> TemplatedQuery \<Rightarrow> emit_error + string" where
  "EmitChPreparedSQL pr tq =
     (case RewriteParams (q_PreparedSQL tq) of
        Inl e \<Rightarrow> Inl (BadQueryText e)
      | Inr sql \<Rightarrow> Inr (if CHR 0x60 \<in> set sql then Quote pr sql else tick @ sql @ tick))"

definition EmitChVariantParamNames :: "(int \<Rightarrow> bool) \<Rightarrow> TemplatedQuery \<Rightarrow> string" where
  "EmitChVariantParamNames pr tq =
     close_args (concat (map (\<lambda>input. named_arg pr input (''params.'' @ pa_UpperName input))
       (filter (\<lambda>input. \<not> isIdentifier input) (q_Inputs tq))))"

definition chIdentifierInputs :: "TemplatedQuery \<Rightarrow> TemplatedParam list" where
  "chIdentifierInputs tq = filter isIdentifier (q_Inputs tq)"

definition EmitChHasIdentifiers :: "TemplatedQuery \<Rightarrow> bool" where
  "EmitChHasIdentifiers tq \<longleftrightarrow> chIdentifierInputs tq \<noteq> []"

definition EmitChSQLRef :: "TemplatedQuery \<Rightarrow> string" where
  "EmitChSQLRef tq = (if EmitChHasIdentifiers tq then ''sql'' else q_SQLVarName tq)"

definition emitChZeroResult :: "TemplatedQuery \<Rightarrow> string" where
  "emitChZeroResult tq =
     (case q_ResultKind tq of
        ResultKindExec \<Rightarrow> [] | ResultKindOne \<Rightarrow> ''item, '' | ResultKindMany \<Rightarrow> ''nil, '')"

definition chIdentifierPrelude :: "(int \<Rightarrow> bool) \<Rightarrow> bool \<Rightarrow> TemplatedQuery \<Rightarrow> string" where
  "chIdentifierPrelude pr fromStruct tq =
     (let idents = chIdentifierInputs tq in
      if idents = [] then []
      else nl @ tab @ ''sql, err := substituteIdentifiers('' @ q_SQLVarName tq @ '', map[string]string{'' @
        strings_Join '', '' (map (\<lambda>input. Quote pr (ip_name (pa_RawName input)) @ '': '' @
          (if fromStruct then ''params.'' @ pa_UpperName input else pa_LowerName input)) idents) @
        ''})'' @ nl @ tab @ ''if err != nil {'' @ nl @ tab @ tab @ ''return '' @ emitChZeroResult tq @
        ''fmt.Errorf('' @ Quote pr (''query '' @ q_Name tq @ '': %w'') @ '', err)'' @ nl @ tab @ ''}'')"

definition EmitChIdentifierPrelude :: "(int \<Rightarrow> bool) \<Rightarrow> TemplatedQuery \<Rightarrow> string" where
  "EmitChIdentifierPrelude pr tq = chIdentifierPrelude pr (\<not> isInlineParams tq) tq"

definition EmitChVariantIdentifierPrelude :: "(int \<Rightarrow> bool) \<Rightarrow> TemplatedQuery \<Rightarrow> string" where
  "EmitChVariantIdentifierPrelude pr tq = chIdentifierPrelude pr True tq"

subsection \<open>Dispatchers of paginated queries\<close>

text \<open>\<^verbatim>\<open>representative\<close> takes the first variant of a group, which has at least one.\<close>

definition pg_EmitResultType :: "PaginateGroup \<Rightarrow> emit_error + string" where
  "pg_EmitResultType g =
     (let rep = hd (pg_Variants g) in
      if q_Dialect rep = DialectClickHouse then EmitChResultType rep else Inr (EmitResultType rep))"

definition EmitSortKeyConsts :: "(int \<Rightarrow> bool) \<Rightarrow> PaginateGroup \<Rightarrow> string" where
  "EmitSortKeyConsts pr g =
     (if SortKeyConsts g = [] then []
      else let nameWidth = longest (map ConstName (SortKeyConsts g)) in
        nl @ nl @ ''const ('' @ nl @
        concat (map (\<lambda>c. tab @ ConstName c @ blanks_to nameWidth (ConstName c) @ '' = '' @
          Quote pr (sk_Value c) @ nl) (SortKeyConsts g)) @ '')'')"

definition group_fields :: "(int \<Rightarrow> bool) \<Rightarrow> PaginateGroup \<Rightarrow> (string \<times> string \<times> string) list" where
  "group_fields pr g =
     map (\<lambda>i. (pa_UpperName i, pa_QualType i, Quote pr (ip_name (pa_RawName i)))) (UnifiedInputs g) @
     [(''SortKey'', ''string'', dquote @ ''sort_key'' @ dquote),
      (''Descending'', ''bool'', dquote @ ''descending'' @ dquote)]"

definition pg_EmitParamStruct :: "(int \<Rightarrow> bool) \<Rightarrow> PaginateGroup \<Rightarrow> string" where
  "pg_EmitParamStruct pr g =
     (let flds = group_fields pr g;
          nameWidth = longest (map fst flds); typeWidth = longest (map (fst \<circ> snd) flds) in
      nl @ nl @ ''type '' @ ParamsTypeName g @ '' struct {'' @ nl @
      concat (map (\<lambda>(name, typ, tag). tab @ name @ blanks_to (nameWidth + 1) name @
        typ @ blanks_to (typeWidth + 1) typ @ tick @ ''json:'' @ tag @ tick @ nl) flds) @ ''}'')"

definition const_by_value :: "SortKeyConst list \<Rightarrow> string \<Rightarrow> string" where
  "const_by_value cs val =
     (case fold (\<lambda>c m. m(sk_Value c \<mapsto> ConstName c)) cs Map.empty val of None \<Rightarrow> [] | Some n \<Rightarrow> n)"

definition dispatch_case :: "unicode \<Rightarrow> SortKeyConst list \<Rightarrow> TemplatedQuery \<Rightarrow> string" where
  "dispatch_case U cs v =
     (let k = q_VariantKey v in
      tab @ ''case params.SortKey == '' @
      (if vk_default k then dquote @ dquote
       else const_by_value cs (vk_sort k) @ '' && '' @ (if vk_descending k then [] else ''!'') @ ''params.Descending'') @
      '':'' @ nl @ tab @ tab @ ''return q.'' @ VariantMethodName U v @ ''(ctx, params)'' @ nl)"

definition EmitDispatcher :: "unicode \<Rightarrow> PaginateGroup \<Rightarrow> emit_error + string" where
  "EmitDispatcher U g =
     map_res (\<lambda>resultType.
       nl @ nl @ ''// '' @ pg_Name g @ '' dispatches to the keyset-pagination variant matching'' @ nl @
       ''// params.SortKey and params.Descending.'' @ nl @
       ''func (q *DBQuerier) '' @ pg_Name g @ ''(ctx context.Context, params '' @ ParamsTypeName g @
       '') ('' @ resultType @ '', error) {'' @ nl @ tab @ ''switch {'' @ nl @
       concat (map (dispatch_case U (SortKeyConsts g)) (pg_Variants g)) @
       tab @ ''default:'' @ nl @ tab @ tab @ ''return nil, fmt.Errorf('' @ dquote @ pg_Name g @
       '': unknown sort key %q'' @ dquote @ '', params.SortKey)'' @ nl @ tab @ ''}'' @ nl @ ''}'')
     (pg_EmitResultType g)"

definition EmitInterfaceMethod :: "PaginateGroup \<Rightarrow> emit_error + string" where
  "EmitInterfaceMethod g =
     map_res (\<lambda>resultType. pg_Name g @ ''(ctx context.Context, params '' @ ParamsTypeName g @ '') ('' @
       resultType @ '', error)'') (pg_EmitResultType g)"

subsection \<open>Declarations and files\<close>

datatype Declarer =
    CompositeTypeDeclarer gotype
  | EnumTypeDeclarer gotype
  | ChIdentifierDeclarer
  | TypeRegistrationDeclarer "string list"
  | SharedRowDeclarer string "TemplatedColumn list" string
  | ConstantDeclarer string string

record TemplatedFile =
  tf_Dialect :: string
  tf_PkgPath :: string
  tf_GoPkg :: string
  tf_SourcePath :: string
  tf_Queries :: "TemplatedQuery list"
  tf_Imports :: "ImportPkg list"
  tf_RawImports :: "string list"
  tf_Variants :: "TemplatedQuery list"
  tf_PaginateGroups :: "PaginateGroup list"
  tf_IsLeader :: bool
  tf_Declarers :: "Declarer list"

definition allQueries :: "TemplatedFile \<Rightarrow> TemplatedQuery list" where
  "allQueries f = tf_Queries f @ tf_Variants f"

definition needsPgconnImport :: "TemplatedFile \<Rightarrow> bool" where
  "needsPgconnImport tf =
     (if tf_Dialect tf = DialectClickHouse then False
      else if tf_IsLeader tf then True
      else list_ex (\<lambda>q. q_ResultKind q = ResultKindExec) (tf_Queries tf))"

definition needsClickHouseImport :: "TemplatedFile \<Rightarrow> bool" where
  "needsClickHouseImport tf \<longleftrightarrow>
     list_ex (\<lambda>q. list_ex (\<lambda>input. \<not> isIdentifier input) (q_Inputs q)) (allQueries tf)"

record chConnMethods =
  m_Select :: bool
  m_Query :: bool
  m_QueryRow :: bool
  m_Exec :: bool

definition needsDriverPkg :: "chConnMethods \<Rightarrow> bool" where
  "needsDriverPkg m \<longleftrightarrow> m_Query m \<or> m_QueryRow m"

definition conn_method :: "TemplatedQuery \<Rightarrow> chConnMethods \<Rightarrow> chConnMethods" where
  "conn_method q m =
     (if q_ResultKind q = ResultKindExec then m\<lparr>m_Exec := True\<rparr>
      else if q_ResultKind q = ResultKindOne then m\<lparr>m_QueryRow := True\<rparr>
      else if EmitChUsesRowStruct q then m\<lparr>m_Select := True\<rparr>
      else m\<lparr>m_Query := True\<rparr>)"

definition chConnMethodsOf :: "TemplatedFile list \<Rightarrow> chConnMethods" where
  "chConnMethodsOf files =
     fold (\<lambda>file m. fold conn_method (allQueries file) m) files
       \<lparr>m_Select = False, m_Query = False, m_QueryRow = False, m_Exec = False\<rparr>"

definition EmitChGenericConn :: "TemplatedFile list \<Rightarrow> string" where
  "EmitChGenericConn files =
     (let m = chConnMethodsOf files in
      ''// genericConn is a connection to ClickHouse, like clickhouse.Conn or a'' @ nl @
      ''// decorator that wraps one.'' @ nl @ ''type genericConn interface {'' @ nl @
      (if m_Select m then
         tab @ ''// Select runs the query and scans every row into dest, a pointer to a'' @ nl @
         tab @ ''// slice of structs.'' @ nl @
         tab @ ''Select(ctx context.Context, dest any, query string, args ...any) error'' @ nl else []) @
      (if m_Query m then
         tab @ ''Query(ctx context.Context, query string, args ...any) (driver.Rows, error)'' @ nl else []) @
      (if m_QueryRow m then
         tab @ ''QueryRow(ctx context.Context, query string, args ...any) driver.Row'' @ nl else []) @
      (if m_Exec m then
         tab @ ''Exec(ctx context.Context, query string, args ...any) error'' @ nl else []) @ ''}'')"

end
