(* ===== verification/Declarers.thy ===== *)
theory Declarers
  imports Templated "HOL-Library.AList"
begin

text \<open>
  Declarations that the leader file makes, \<^verbatim>\<open>internal/codegen/golang/declarer*.go\<close>: keys, sets of
  declarers, the texts, and the names to register. The text of the helper functions of
  \<^verbatim>\<open>declarer_identifier.go\<close> is the parameter \<open>helper\<close> of \<open>Declare\<close>; the theory \<open>ChIdentifiers\<close> models
  what the functions do. \<open>None\<close> stands for a panic.
\<close>

subsection \<open>Sets of declarers\<close>

fun type_name :: "gotype \<Rightarrow> string" where
  "type_name (CompositeType sql cols name fnames types) = name"
| "type_name (EnumType sql name labels vals) = name"
| "type_name t = []"

fun DedupeKey :: "Declarer \<Rightarrow> string" where
  "DedupeKey (CompositeTypeDeclarer t) = ''composite::'' @ type_name t"
| "DedupeKey (EnumTypeDeclarer t) = ''enum_type::'' @ type_name t"
| "DedupeKey ChIdentifierDeclarer = ''func::02_substitute_identifiers''"
| "DedupeKey (TypeRegistrationDeclarer names) = ''type_registration''"
| "DedupeKey (SharedRowDeclarer name cols dialect) = ''row_struct::'' @ name"
| "DedupeKey (ConstantDeclarer key str) = key"

type_synonym DeclarerSet = "(string \<times> Declarer) list"

definition AddAll :: "Declarer list \<Rightarrow> DeclarerSet \<Rightarrow> DeclarerSet" where
  "AddAll decls d = fold (\<lambda>decl. AList.update (DedupeKey decl) decl) decls d"

definition NewDeclarerSet :: "Declarer list \<Rightarrow> DeclarerSet" where
  "NewDeclarerSet decls = AddAll decls []"

definition ListAll :: "DeclarerSet \<Rightarrow> Declarer list" where
  "ListAll d = map snd (sort_key fst d)"

definition find_step :: "gotype \<Rightarrow> DeclarerSet \<Rightarrow> bool \<times> DeclarerSet" where
  "find_step typ decls =
     (case typ of
        CompositeType sql cols name fnames types \<Rightarrow> (True, AddAll [CompositeTypeDeclarer typ] decls)
      | EnumType sql name labels vals \<Rightarrow> (True, AddAll [EnumTypeDeclarer typ] decls)
      | ArrayType sql t \<Rightarrow> (\<not> IsPgxSupportedArray t, decls)
      | _ \<Rightarrow> (True, decls))"

definition FindDeclarers :: "gotype \<Rightarrow> DeclarerSet" where
  "FindDeclarers typ = Walk typ find_step (NewDeclarerSet [])"

subsection \<open>Registered types\<close>

definition NewTypeRegistrationDeclarer :: "string list \<Rightarrow> Declarer" where
  "NewTypeRegistrationDeclarer names = TypeRegistrationDeclarer (sort names)"

definition collect_step :: "gotype \<Rightarrow> string set \<Rightarrow> bool \<times> string set" where
  "collect_step typ names =
     (let name = (case typ of
          CompositeType sql cols name fnames types \<Rightarrow> sql
        | EnumType sql name labels vals \<Rightarrow> sql
        | ArrayType sql t \<Rightarrow> sql
        | _ \<Rightarrow> []) in
      (True, if name \<noteq> [] then insert name names else names))"

definition collectPgTypeNames :: "gotype \<Rightarrow> string set \<Rightarrow> string set" where
  "collectPgTypeNames typ names = Walk typ collect_step names"

subsection \<open>Texts\<close>

definition longestNameType :: "string list \<Rightarrow> string list \<Rightarrow> nat \<times> nat" where
  "longestNameType names qualTypes = (longest names + 1, longest qualTypes + 1)"

fun qualify_all :: "gotype list \<Rightarrow> string \<Rightarrow> string list option" where
  "qualify_all [] pkgPath = Some []"
| "qualify_all (t # ts) pkgPath =
     Option.bind (QualifyType t pkgPath Map.empty) (\<lambda>q. map_option (\<lambda>qs. q # qs) (qualify_all ts pkgPath))"

fun struct_fields :: "(int \<Rightarrow> bool) \<Rightarrow> nat \<Rightarrow> nat \<Rightarrow> string list \<Rightarrow> string list \<Rightarrow> string list \<Rightarrow> string option" where
  "struct_fields pr nameLen typeLen [] quals cols = Some []"
| "struct_fields pr nameLen typeLen (name # names) (qual # quals) (col # cols) =
     map_option (\<lambda>more. tab @ name @ blanks_to nameLen name @ qual @ blanks_to typeLen qual @
         tick @ ''json:'' @ Quote pr col @ tick @ nl @ more)
       (struct_fields pr nameLen typeLen names quals cols)"
| "struct_fields pr nameLen typeLen names quals cols = None"

definition declare_composite ::
    "(int \<Rightarrow> bool) \<Rightarrow> string \<Rightarrow> string list \<Rightarrow> string \<Rightarrow> string list \<Rightarrow> gotype list \<Rightarrow> string \<Rightarrow> string option" where
  "declare_composite pr sqlName cols name fnames types pkgPath =
     Option.bind (qualify_all types pkgPath) (\<lambda>quals.
       case longestNameType fnames quals of (nameLen, typeLen) \<Rightarrow>
       map_option (\<lambda>flds.
         (if sqlName \<noteq> [] then ''// '' @ name @ '' represents the Postgres composite type '' @ Quote pr sqlName @
            ''.'' @ nl else []) @
         ''type '' @ name @ '' struct'' @ (if fnames = [] then ''{'' else '' {'' @ nl) @ flds @ ''}'')
       (struct_fields pr nameLen typeLen fnames quals cols))"

fun enum_consts :: "(int \<Rightarrow> bool) \<Rightarrow> string \<Rightarrow> nat \<Rightarrow> string list \<Rightarrow> string list \<Rightarrow> string option" where
  "enum_consts pr name nameLen [] vals = Some []"
| "enum_consts pr name nameLen (label # labels) (val # vals) =
     map_option (\<lambda>more. tab @ label @ blanks_to (nameLen + 1) label @ name @ '' = '' @ Quote pr val @ nl @ more)
       (enum_consts pr name nameLen labels vals)"
| "enum_consts pr name nameLen labels [] = None"

definition declare_enum ::
    "unicode \<Rightarrow> (int \<Rightarrow> bool) \<Rightarrow> string \<Rightarrow> string \<Rightarrow> string list \<Rightarrow> string list \<Rightarrow> string option" where
  "declare_enum U pr sqlName name labels vals =
     Option.bind (enum_consts pr name (longest labels) labels vals) (\<lambda>consts.
       case strings_ToLower U name of
         [] \<Rightarrow> None
       | dispatcher # _ \<Rightarrow> Some (
           (if sqlName \<noteq> [] then ''// '' @ name @ '' represents the Postgres enum '' @ Quote pr sqlName @ ''.'' @ nl
            else []) @
           ''type '' @ name @ '' string'' @ nl @ nl @ ''const ('' @ nl @ consts @ '')'' @ nl @ nl @
           ''func ('' @ [dispatcher] @ '' '' @ name @ '') String() string { return string('' @ [dispatcher] @ '') }''))"

definition declare_registration :: "(int \<Rightarrow> bool) \<Rightarrow> string list \<Rightarrow> string" where
  "declare_registration pr names =
     ''// RegisterTypes registers custom Postgres types (composites and enums) with'' @ nl @
     ''// the pgx connection's TypeMap so that they can be scanned and encoded'' @ nl @
     ''// correctly. Call this once per connection after connecting.'' @ nl @
     ''//'' @ nl @ ''// For pgxpool.Pool, use config.AfterConnect:'' @ nl @ ''//'' @ nl @
     ''//'' @ tab @ ''config.AfterConnect = func(ctx context.Context, conn *pgx.Conn) error {'' @ nl @
     ''//'' @ tab @ tab @ ''return RegisterTypes(ctx, conn)'' @ nl @ ''//'' @ tab @ ''}'' @ nl @
     ''func RegisterTypes(ctx context.Context, conn *pgx.Conn) error {'' @ nl @
     tab @ ''_, err := conn.LoadTypes(ctx, []string{'' @ nl @
     concat (map (\<lambda>name. tab @ tab @ Quote pr name @ '','' @ nl) names) @
     tab @ ''})'' @ nl @ tab @ ''return err'' @ nl @ ''}''"

fun Declare :: "unicode \<Rightarrow> (int \<Rightarrow> bool) \<Rightarrow> string \<Rightarrow> string \<Rightarrow> Declarer \<Rightarrow> string option" where
  "Declare U pr helper pkgPath (CompositeTypeDeclarer (CompositeType sql cols name fnames types)) =
     declare_composite pr sql cols name fnames types pkgPath"
| "Declare U pr helper pkgPath (EnumTypeDeclarer (EnumType sql name labels vals)) = declare_enum U pr sql name labels vals"
| "Declare U pr helper pkgPath ChIdentifierDeclarer = Some helper"
| "Declare U pr helper pkgPath (TypeRegistrationDeclarer names) = Some (declare_registration pr names)"
| "Declare U pr helper pkgPath (SharedRowDeclarer name cols dialect) =
     Some (''type '' @ name @ '' struct {'' @ nl @ writeRowStructFields pr cols dialect @ ''}'')"
| "Declare U pr helper pkgPath (ConstantDeclarer key str) = Some str"
| "Declare U pr helper pkgPath _ = None"

definition NameArrayInitFunc :: "gotype \<Rightarrow> string" where
  "NameArrayInitFunc typ =
     (case typ of
        ArrayType sql t \<Rightarrow>
          (case (case t of ImportType pkg u \<Rightarrow> u | _ \<Rightarrow> t) of
             PointerType u \<Rightarrow> ''new'' @ BaseName u @ ''PtrArrayInit''
           | u \<Rightarrow> ''new'' @ BaseName u @ ''ArrayInit'')
      | _ \<Rightarrow> [])"

end
