(* ===== verification/Templater.thy ===== *)
theory Templater
  imports Declarers
begin

text \<open>
  \<^verbatim>\<open>internal/codegen/golang/templater.go\<close>: from typed queries to the data of the Go files. The resolver of
  types and \<^verbatim>\<open>gomod.GuessPackage\<close>, which reads \<^verbatim>\<open>go.mod\<close> from disk, are fields of the templater; the
  latter gives \<open>None\<close> for an error.
\<close>

record QueryFile =
  qf_SourcePath :: string
  qf_Queries :: "sqltype TypedQuery list"

record 'e Templater =
  tm_caser :: Caser
  tm_resolver :: "sqltype \<Rightarrow> bool \<Rightarrow> string \<Rightarrow> 'e + gotype"
  tm_guess :: "string \<Rightarrow> string option"
  tm_pkg :: string
  tm_inline :: int
  tm_dialect :: string

datatype row_error =
    TwoConsts string
  | ConstIsStruct string
  | NoOutputColumns string string
  | ColumnCount string string
  | MissingColumn string string string
  | ColumnTypes string string string

datatype 'e tm_error =
    ParamType string string 'e
  | ColumnType string string 'e
  | Invalid row_error
  | TmPanic

definition lift_row :: "row_error + 'a \<Rightarrow> 'e tm_error + 'a" where
  "lift_row r = (case r of Inl e \<Rightarrow> Inl (Invalid e) | Inr x \<Rightarrow> Inr x)"

definition no_panic :: "'a option \<Rightarrow> 'e tm_error + 'a" where
  "no_panic x = (case x of None \<Rightarrow> Inl TmPanic | Some a \<Rightarrow> Inr a)"

subsection \<open>Names\<close>

text \<open>\<^verbatim>\<open>fmt.Sprintf("%2d", idx)\<close> pads with blanks.\<close>

definition idx_suffix :: "nat \<Rightarrow> nat \<Rightarrow> string" where
  "idx_suffix idx numOptions =
     (let s = itoa (int idx) in if numOptions > 9 then replicate (2 - length s) CHR '' '' @ s else s)"

definition chooseUpperName :: "unicode \<Rightarrow> Caser \<Rightarrow> string \<Rightarrow> string \<Rightarrow> nat \<Rightarrow> nat \<Rightarrow> string" where
  "chooseUpperName U caser pgName fallback idx numOptions =
     (let name = ToUpperGoIdent U caser pgName in
      if name \<noteq> [] then name else fallback @ idx_suffix idx numOptions)"

definition chooseLowerName :: "unicode \<Rightarrow> Caser \<Rightarrow> string \<Rightarrow> string \<Rightarrow> nat \<Rightarrow> nat \<Rightarrow> string" where
  "chooseLowerName U caser pgName fallback idx numOptions =
     (let name = ToLowerGoIdent U caser pgName in
      if name \<noteq> [] then name else fallback @ idx_suffix idx numOptions)"

text \<open>The lines of a doc comment; the first one is not indented.\<close>

definition doc_text :: "string list \<Rightarrow> string" where
  "doc_text lines = concat (map (\<lambda>(i, d).
     (if i > 0 then tab else []) @ (if d = [] then ''//'' else ''// '' @ d) @ nl) (List.enumerate 0 lines))"

subsection \<open>The first pass over a file\<close>

record pass =
  ps_imports :: ImportSet
  ps_declarers :: DeclarerSet
  ps_names :: "string set"

definition note_type :: "gotype \<Rightarrow> pass \<Rightarrow> pass" where
  "note_type goType st = st\<lparr>ps_imports := AddType goType (ps_imports st),
     ps_declarers := AddAll (ListAll (FindDeclarers goType)) (ps_declarers st),
     ps_names := collectPgTypeNames goType (ps_names st)\<rparr>"

fun resolve_inputs :: "'e Templater \<Rightarrow> string \<Rightarrow> string \<Rightarrow> sqltype InputParam list \<Rightarrow> pass
    \<Rightarrow> 'e tm_error + gotype list \<times> pass" where
  "resolve_inputs tm pkgPath qname [] st = Inr ([], st)"
| "resolve_inputs tm pkgPath qname (input # inputs) st =
     (case tm_resolver tm (ip_type input) False pkgPath of
        Inl e \<Rightarrow> Inl (ParamType qname (ip_name input) e)
      | Inr goType \<Rightarrow> map_res (\<lambda>(ts, st1). (goType # ts, st1))
          (resolve_inputs tm pkgPath qname inputs (note_type goType st)))"

fun resolve_outputs :: "'e Templater \<Rightarrow> string \<Rightarrow> string \<Rightarrow> sqltype OutputColumn list \<Rightarrow> pass
    \<Rightarrow> 'e tm_error + gotype list \<times> pass" where
  "resolve_outputs tm pkgPath qname [] st = Inr ([], st)"
| "resolve_outputs tm pkgPath qname (out # outs) st =
     (case tm_resolver tm (oc_type out) (oc_nullable out) pkgPath of
        Inl e \<Rightarrow> Inl (ColumnType qname (oc_name out) e)
      | Inr goType \<Rightarrow> map_res (\<lambda>(ts, st1). (goType # ts, st1))
          (resolve_outputs tm pkgPath qname outs (note_type goType st)))"

record queryData =
  qd_query :: "sqltype TypedQuery"
  qd_doc :: string
  qd_inputs :: "gotype list"
  qd_outputs :: "gotype list"

fun first_pass :: "'e Templater \<Rightarrow> string \<Rightarrow> sqltype TypedQuery list \<Rightarrow> pass
    \<Rightarrow> 'e tm_error + queryData list \<times> pass" where
  "first_pass tm pkgPath [] st = Inr ([], st)"
| "first_pass tm pkgPath (query # queries) st =
     res_bind (resolve_inputs tm pkgPath (tq_name query) (tq_inputs query) st) (\<lambda>(ins, st1).
     res_bind (resolve_outputs tm pkgPath (tq_name query) (tq_outputs query) st1) (\<lambda>(outs, st2).
     map_res (\<lambda>(qds, st3).
         (\<lparr>qd_query = query, qd_doc = doc_text (tq_doc query), qd_inputs = ins, qd_outputs = outs\<rparr> # qds, st3))
       (first_pass tm pkgPath queries st2)))"

subsection \<open>The second pass\<close>

definition templated_param :: "unicode \<Rightarrow> 'e Templater \<Rightarrow> string \<Rightarrow> (string \<rightharpoonup> string) \<Rightarrow> nat
    \<Rightarrow> nat \<times> sqltype InputParam \<times> gotype \<Rightarrow> TemplatedParam option" where
  "templated_param U tm pkgPath aliases n = (\<lambda>(i, input, goType).
     map_option (\<lambda>qual.
       \<lparr>pa_UpperName = chooseUpperName U (tm_caser tm) (ip_name input) ''UnnamedParam'' i n,
        pa_LowerName = chooseLowerName U (tm_caser tm) (ip_name input) ''unnamedParam'' i n,
        pa_QualType = qual, pa_Type = goType, pa_RawName = input\<rparr>)
     (QualifyType goType pkgPath aliases))"

definition templated_column :: "unicode \<Rightarrow> 'e Templater \<Rightarrow> string \<Rightarrow> (string \<rightharpoonup> string) \<Rightarrow> nat
    \<Rightarrow> nat \<times> sqltype OutputColumn \<times> gotype \<Rightarrow> TemplatedColumn option" where
  "templated_column U tm pkgPath aliases n = (\<lambda>(i, out, goType).
     map_option (\<lambda>qual.
       \<lparr>co_PgName = oc_name out,
        co_UpperName = chooseUpperName U (tm_caser tm) (oc_name out) ''UnnamedColumn'' i n,
        co_LowerName = chooseLowerName U (tm_caser tm) (oc_name out) ''UnnamedColumn'' i n,
        co_Type = goType, co_QualType = qual\<rparr>)
     (QualifyType goType pkgPath aliases))"

fun all_some :: "'a option list \<Rightarrow> 'a list option" where
  "all_some [] = Some []"
| "all_some (x # xs) = Option.bind x (\<lambda>a. map_option (\<lambda>as. a # as) (all_some xs))"

text \<open>\<^verbatim>\<open>strings.TrimSuffix(strings.TrimRight(sql, " \t\n"), ";")\<close>\<close>

definition drop_terminator :: "string \<Rightarrow> string" where
  "drop_terminator sql =
     (let s = rev (dropWhile (\<lambda>c. c = CHR '' '' \<or> c = CHR 0x09 \<or> c = CHR 0x0A) (rev sql)) in
      if suffix '';'' s then butlast s else s)"

definition templated_query :: "unicode \<Rightarrow> 'e Templater \<Rightarrow> string \<Rightarrow> (string \<rightharpoonup> string) \<Rightarrow> queryData
    \<Rightarrow> TemplatedQuery option" where
  "templated_query U tm pkgPath aliases qd =
     (let query = qd_query qd in
      Option.bind (all_some (map (templated_param U tm pkgPath aliases (length (tq_inputs query)))
          (List.enumerate 0 (zip (tq_inputs query) (qd_inputs qd))))) (\<lambda>inputs.
      map_option (\<lambda>outputs.
        let tq = \<lparr>q_Dialect = tm_dialect tm, q_Name = ToUpperGoIdent U (tm_caser tm) (tq_name query),
              q_SQLVarName = ToLowerGoIdent U (tm_caser tm) (tq_name query) @ ''SQL'',
              q_ResultKind = tq_kind query, q_Doc = qd_doc qd, q_PreparedSQL = tq_sql query,
              q_Inputs = inputs, q_Outputs = outputs, q_InlineParamCount = tm_inline tm,
              q_OutputType = tq_output query, q_SQLConst = tq_const query,
              q_VariantGroup = tq_group query, q_VariantKey = tq_variant query\<rparr>;
            tq1 = (if IsVariant tq then tq\<lparr>q_SQLVarName := VariantMethodName U tq @ ''SQL''\<rparr> else tq)
        in if tq_const query \<noteq> []
           then tq1\<lparr>q_SQLVarName := tq_const query, q_PreparedSQL := drop_terminator (q_PreparedSQL tq1)\<rparr> else tq1)
      (all_some (map (templated_column U tm pkgPath aliases (length (tq_outputs query)))
          (List.enumerate 0 (zip (tq_outputs query) (qd_outputs qd)))))))"

subsection \<open>Dispatchers\<close>

definition buildPaginateGroup :: "unicode \<Rightarrow> string \<Rightarrow> TemplatedQuery list \<Rightarrow> PaginateGroup" where
  "buildPaginateGroup U name variants =
     \<lparr>pg_Name = name, ParamsTypeName = name @ ''Params'',
      UnifiedInputs = first_by (\<lambda>i. ip_name (pa_RawName i)) {} (concat (map q_Inputs variants)),
      SortKeyConsts = map (\<lambda>v. \<lparr>ConstName = name @ ''Sort'' @ snakeToCamel U (vk_sort (q_VariantKey v)),
          sk_Value = vk_sort (q_VariantKey v)\<rparr>)
        (first_by (\<lambda>v. vk_sort (q_VariantKey v)) {} (filter (\<lambda>v. \<not> vk_default (q_VariantKey v)) variants)),
      pg_Variants = variants\<rparr>"

subsection \<open>A file\<close>

definition base_imports :: "string \<Rightarrow> ImportSet" where
  "base_imports dialect =
     (let s = AddPackage ''fmt'' (AddPackage ''context'' NewImportSet) in
      if dialect = DialectClickHouse
      then AddPackage ''github.com/ClickHouse/clickhouse-go/v2/lib/driver''
             (AddPackage ''github.com/ClickHouse/clickhouse-go/v2'' s)
      else AddPackage ''github.com/jackc/pgx/v5'' (AddPackage ''github.com/jackc/pgx/v5/pgconn'' s))"

definition templateFile :: "unicode \<Rightarrow> 'e Templater \<Rightarrow> QueryFile \<Rightarrow> bool
    \<Rightarrow> 'e tm_error + TemplatedFile \<times> DeclarerSet \<times> string set" where
  "templateFile U tm file isLeader =
     (let pkgPath = (case tm_guess tm (qf_SourcePath file) of None \<Rightarrow> [] | Some pkg \<Rightarrow> pkg) in
      res_bind (first_pass tm pkgPath (qf_Queries file)
          \<lparr>ps_imports = base_imports (tm_dialect tm), ps_declarers = NewDeclarerSet [], ps_names = {}\<rparr>) (\<lambda>(qds, st).
      res_bind (no_panic (AliasMap (ps_imports st))) (\<lambda>aliases.
      res_bind (no_panic (all_some (map (templated_query U tm pkgPath aliases) qds))) (\<lambda>queries.
      res_bind (no_panic (SortedImports (ps_imports st))) (\<lambda>sorted.
        let variants = filter IsVariant queries;
            declarers = (if list_ex EmitChHasIdentifiers queries then AddAll [ChIdentifierDeclarer] (ps_declarers st)
                         else ps_declarers st)
        in Inr (\<lparr>tf_Dialect = tm_dialect tm, tf_PkgPath = pkgPath, tf_GoPkg = tm_pkg tm,
             tf_SourcePath = qf_SourcePath file, tf_Queries = filter (\<lambda>q. \<not> IsVariant q) queries,
             tf_Imports = sorted, tf_RawImports = SortedPackages (ps_imports st), tf_Variants = variants,
             tf_PaginateGroups = map (\<lambda>name. buildPaginateGroup U name (filter (\<lambda>q. q_VariantGroup q = name) variants))
               (firsts (map q_VariantGroup variants)),
             tf_IsLeader = isLeader, tf_Declarers = []\<rparr>, declarers, ps_names st))))))"

subsection \<open>Shared row structs\<close>

record queryRef =
  rf_name :: string
  rf_outputs :: "TemplatedColumn list"

definition is_pointer :: "gotype \<Rightarrow> bool" where
  "is_pointer t = (case t of PointerType u \<Rightarrow> True | _ \<Rightarrow> False)"

definition unwrapPointer :: "gotype \<Rightarrow> gotype" where
  "unwrapPointer t = (case t of PointerType u \<Rightarrow> u | _ \<Rightarrow> t)"

definition output_refs :: "TemplatedFile list \<Rightarrow> (string \<times> queryRef) list" where
  "output_refs files =
     map (\<lambda>q. (q_OutputType q, \<lparr>rf_name = q_Name q, rf_outputs = removeVoidColumns (q_Outputs q)\<rparr>))
       (filter (\<lambda>q. q_OutputType q \<noteq> []) (concat (map allQueries files)))"

text \<open>\<^verbatim>\<open>colByName\<close>: a column and whether some query has it as a pointer.\<close>

type_synonym merge_cols = "string \<rightharpoonup> TemplatedColumn \<times> bool"

fun first_cols :: "TemplatedColumn list \<Rightarrow> merge_cols \<Rightarrow> merge_cols" where
  "first_cols [] m = m"
| "first_cols (col # cols) m = first_cols cols (m(co_PgName col \<mapsto> (col, is_pointer (co_Type col))))"

fun merge_ref :: "string \<Rightarrow> queryRef \<Rightarrow> TemplatedColumn list \<Rightarrow> merge_cols \<Rightarrow> row_error + merge_cols" where
  "merge_ref outputType ref [] m = Inr m"
| "merge_ref outputType ref (col # cols) m =
     (case m (co_PgName col) of
        None \<Rightarrow> Inl (MissingColumn outputType (rf_name ref) (co_PgName col))
      | Some (old, nullable) \<Rightarrow>
          if BaseName (unwrapPointer (co_Type old)) \<noteq> BaseName (unwrapPointer (co_Type col))
          then Inl (ColumnTypes outputType (rf_name ref) (co_PgName col))
          else merge_ref outputType ref cols
            (if is_pointer (co_Type col) then m(co_PgName col \<mapsto> (old, True)) else m))"

fun merge_refs :: "string \<Rightarrow> nat \<Rightarrow> queryRef list \<Rightarrow> merge_cols \<Rightarrow> row_error + merge_cols" where
  "merge_refs outputType n [] m = Inr m"
| "merge_refs outputType n (ref # refs) m =
     (if length (rf_outputs ref) \<noteq> n then Inl (ColumnCount outputType (rf_name ref))
      else res_bind (merge_ref outputType ref (rf_outputs ref) m) (merge_refs outputType n refs))"

definition widen :: "TemplatedColumn \<times> bool \<Rightarrow> TemplatedColumn" where
  "widen mc =
     (case mc of (col, nullable) \<Rightarrow>
        if nullable \<and> \<not> is_pointer (co_Type col)
        then col\<lparr>co_Type := PointerType (co_Type col), co_QualType := ''*'' @ co_QualType col\<rparr> else col)"

text \<open>An output type has at least one query.\<close>

definition merged_columns :: "string \<Rightarrow> queryRef list \<Rightarrow> row_error + TemplatedColumn list" where
  "merged_columns outputType refs =
     (case refs of
        [] \<Rightarrow> Inr []
      | first # others \<Rightarrow>
          if rf_outputs first = [] then Inl (NoOutputColumns outputType (rf_name first))
          else map_res (\<lambda>m. map (\<lambda>c. widen (the (m (co_PgName c)))) (rf_outputs first))
            (merge_refs outputType (length (rf_outputs first)) others (first_cols (rf_outputs first) Map.empty)))"

definition buildSharedRowDeclarers :: "string \<Rightarrow> TemplatedFile list \<Rightarrow> row_error + Declarer list" where
  "buildSharedRowDeclarers dialect files =
     (let refs = output_refs files in
      seq_res (map (\<lambda>outputType.
        map_res (\<lambda>merged. SharedRowDeclarer outputType merged dialect)
          (merged_columns outputType (map snd (filter (\<lambda>r. fst r = outputType) refs))))
        (sorted_list_of_set (set (map fst refs)))))"

subsection \<open>Imports\<close>

definition import_pos :: "ImportPkg list \<Rightarrow> string \<Rightarrow> nat" where
  "import_pos imps pkg =
     (case find (\<lambda>i. PkgPath (imps ! i) > pkg) [0..<length imps] of None \<Rightarrow> length imps | Some i \<Rightarrow> i)"

definition addImport :: "ImportPkg list \<Rightarrow> string \<Rightarrow> ImportPkg list" where
  "addImport imps pkg =
     (if list_ex (\<lambda>i. PkgPath i = pkg) imps then imps
      else let at = import_pos imps pkg in take at imps @ [\<lparr>PkgPath = pkg, Alias = []\<rparr>] @ drop at imps)"

fun removeImport :: "ImportPkg list \<Rightarrow> string \<Rightarrow> ImportPkg list" where
  "removeImport [] pkg = []"
| "removeImport (i # imps) pkg = (if PkgPath i = pkg then imps else i # removeImport imps pkg)"

subsection \<open>Names of SQL constants\<close>

definition reserve :: "string \<Rightarrow> string set \<Rightarrow> string set" where
  "reserve name declared = (if name = [] then declared else insert name declared)"

definition reserve_query :: "TemplatedQuery \<Rightarrow> string set \<Rightarrow> string set" where
  "reserve_query q declared =
     (let d = reserve (q_Name q @ ''Params'') (reserve (rowTypeName q) declared) in
      if IsVariant q then reserve (VariantParamsType q) d else d)"

fun check_consts :: "string set \<Rightarrow> string set \<Rightarrow> TemplatedQuery list \<Rightarrow> row_error + unit" where
  "check_consts declared byName [] = Inr ()"
| "check_consts declared byName (q # qs) =
     (if q_SQLConst q = [] then check_consts declared byName qs
      else if q_SQLConst q \<in> byName then Inl (TwoConsts (q_SQLConst q))
      else if q_SQLConst q \<in> declared then Inl (ConstIsStruct (q_SQLConst q))
      else check_consts declared (insert (q_SQLConst q) byName) qs)"

definition validateSQLConstNames :: "TemplatedFile list \<Rightarrow> row_error + unit" where
  "validateSQLConstNames files =
     (let qs = concat (map allQueries files) in check_consts (fold reserve_query qs {}) {} qs)"

definition hasChIdentifiers :: "TemplatedFile list \<Rightarrow> bool" where
  "hasChIdentifiers files = list_ex (\<lambda>f. list_ex EmitChHasIdentifiers (allQueries f)) files"

subsection \<open>All files\<close>

text \<open>The first file with the least path below \<^verbatim>\<open>string(unicode.MaxRune)\<close> leads.\<close>

fun leader_loop :: "string list \<Rightarrow> nat \<Rightarrow> nat option \<Rightarrow> string \<Rightarrow> nat option" where
  "leader_loop [] i firstIndex firstName = firstIndex"
| "leader_loop (p # ps) i firstIndex firstName =
     (if p < firstName then leader_loop ps (Suc i) (Some i) p else leader_loop ps (Suc i) firstIndex firstName)"

definition leader_index :: "string list \<Rightarrow> nat option" where
  "leader_index ps = leader_loop ps 0 None (EncodeRune 0x10FFFF)"

definition template_files :: "unicode \<Rightarrow> 'e Templater \<Rightarrow> QueryFile list
    \<Rightarrow> 'e tm_error + (TemplatedFile \<times> DeclarerSet \<times> string set) list" where
  "template_files U tm files =
     seq_res (map (\<lambda>(i, f). templateFile U tm f (leader_index (map qf_SourcePath files) = Some i))
       (List.enumerate 0 files))"

definition drop_imports :: "chConnMethods \<Rightarrow> TemplatedFile \<Rightarrow> TemplatedFile" where
  "drop_imports chMethods file =
     (if tf_Dialect file = DialectClickHouse then
        let imps1 = (if needsClickHouseImport file then tf_Imports file
                     else removeImport (tf_Imports file) ''github.com/ClickHouse/clickhouse-go/v2'');
            imps2 = (if \<not> tf_IsLeader file \<or> \<not> needsDriverPkg chMethods
                     then removeImport imps1 ''github.com/ClickHouse/clickhouse-go/v2/lib/driver'' else imps1)
        in file\<lparr>tf_Imports := imps2\<rparr>
      else if needsPgconnImport file then file
      else file\<lparr>tf_Imports := removeImport (tf_Imports file) ''github.com/jackc/pgx/v5/pgconn''\<rparr>)"

definition drop_self :: "(string \<Rightarrow> string option) \<Rightarrow> TemplatedFile \<Rightarrow> TemplatedFile" where
  "drop_self guess file =
     (case guess (tf_SourcePath file) of
        None \<Rightarrow> file
      | Some selfPkg \<Rightarrow> if selfPkg = [] then file else file\<lparr>tf_Imports := removeImport (tf_Imports file) selfPkg\<rparr>)"

definition TemplateAll :: "unicode \<Rightarrow> 'e Templater \<Rightarrow> QueryFile list \<Rightarrow> 'e tm_error + TemplatedFile list" where
  "TemplateAll U tm files =
     res_bind (template_files U tm files) (\<lambda>results.
       let goFiles = map fst results;
           declarers1 = fold (\<lambda>(f, decls, names). AddAll (ListAll decls)) results (NewDeclarerSet []);
           pgTypeNames = \<Union> (set (map (\<lambda>(f, decls, names). names) results));
           declarers2 = (if pgTypeNames \<noteq> {} \<and> tm_dialect tm \<noteq> DialectClickHouse
             then AddAll [NewTypeRegistrationDeclarer (sorted_list_of_set pgTypeNames)] declarers1 else declarers1)
       in res_bind (lift_row (validateSQLConstNames goFiles)) (\<lambda>_.
          res_bind (lift_row (buildSharedRowDeclarers (tm_dialect tm) goFiles)) (\<lambda>shared.
          res_bind (no_panic (leader_index (map qf_SourcePath files))) (\<lambda>leader.
            let goFiles1 = goFiles[leader := (goFiles ! leader)\<lparr>tf_Declarers := ListAll (AddAll shared declarers2)\<rparr>];
                goFiles2 = (if hasChIdentifiers goFiles1
                  then map (\<lambda>f. if tf_IsLeader f then f\<lparr>tf_Imports := addImport (tf_Imports f) ''strings''\<rparr> else f) goFiles1
                  else goFiles1)
            in Inr (map (\<lambda>f. drop_self (tm_guess tm) (drop_imports (chConnMethodsOf goFiles2) f)) goFiles2)))))"

end
