(* ===== verification/ChResolve.thy ===== *)
theory ChResolve
  imports SqlTypes GoTypes
begin

text \<open>
  From ClickHouse types to Go types: \<^verbatim>\<open>internal/codegen/golang/ch_known_types.go\<close> and
  \<^verbatim>\<open>ch_type_resolver.go\<close>.
\<close>

subsection \<open>Known types\<close>

definition chString :: string where
  "chString = ''string''"

definition chDecimal :: string where
  "chDecimal = ''github.com/shopspring/decimal.Decimal''"

definition chTime :: string where
  "chTime = ''time.Time''"

definition chUUID :: string where
  "chUUID = ''github.com/google/uuid.UUID''"

definition chNetipAddr :: string where
  "chNetipAddr = ''net/netip.Addr''"

definition chBigInt :: string where
  "chBigInt = ''*math/big.Int''"

text \<open>The spelling of the Go type of each type without parameters.\<close>

definition chScalarTypes :: "(string \<times> string) list" where
  "chScalarTypes =
     [(''String'', chString), (''Bool'', ''bool''), (''Identifier'', chString),
      (''Int8'', ''int8''), (''Int16'', ''int16''), (''Int32'', ''int32''), (''Int64'', ''int64''),
      (''UInt8'', ''uint8''), (''UInt16'', ''uint16''), (''UInt32'', ''uint32''), (''UInt64'', ''uint64''),
      (''Float32'', ''float32''), (''Float64'', ''float64''),
      (''Int128'', chBigInt), (''Int256'', chBigInt), (''UInt128'', chBigInt), (''UInt256'', chBigInt),
      (''Date'', chTime), (''Date32'', chTime), (''DateTime'', chTime), (''DateTime64'', chTime),
      (''UUID'', chUUID), (''IPv4'', chNetipAddr), (''IPv6'', chNetipAddr)]"

fun findChKnownType :: "chtype \<Rightarrow> gotype option" where
  "findChKnownType (FixedString n) = MustParseKnownType chString"
| "findChKnownType (Decimal p s) = MustParseKnownType chDecimal"
| "findChKnownType (DateTime tz) = MustParseKnownType chTime"
| "findChKnownType (DateTime64 p tz) = MustParseKnownType chTime"
| "findChKnownType (Scalar name) = Option.bind (map_of chScalarTypes name) MustParseKnownType"
| "findChKnownType t = None"

subsection \<open>The resolver\<close>

datatype resolve_error =
    NotClickHouse string
  | BadOverride gotype_error
  | NoTuple string
  | NoUnsupported string
  | NoGoType string
  | ArrayElem string resolve_error
  | MapKey string resolve_error
  | MapVal string resolve_error

definition lift_override :: "gotype_error + gotype \<Rightarrow> resolve_error + gotype" where
  "lift_override r = (case r of Inl e \<Rightarrow> Inl (BadOverride e) | Inr t \<Rightarrow> Inr t)"

text \<open>An override is looked up by the spelling of the type, at every level.\<close>

fun ch_resolve :: "(string \<rightharpoonup> string) \<Rightarrow> chtype \<Rightarrow> resolve_error + gotype" where
  "ch_resolve overrides t =
     (case overrides (type_string t) of
        Some goType \<Rightarrow> lift_override (ParseOpaqueType goType (sql_arg (ChT t)))
      | None \<Rightarrow>
          (case t of
             LowCardinality u \<Rightarrow> ch_resolve overrides u
           | Nullable u \<Rightarrow> map_res PointerType (ch_resolve overrides u)
           | Array u \<Rightarrow>
               (case ch_resolve overrides u of
                  Inl e \<Rightarrow> Inl (ArrayElem (type_string t) e)
                | Inr g \<Rightarrow> Inr (ArrayType (type_string t) g))
           | Map k v \<Rightarrow>
               (case ch_resolve overrides k of
                  Inl e \<Rightarrow> Inl (MapKey (type_string t) e)
                | Inr gk \<Rightarrow>
                    (case ch_resolve overrides v of
                       Inl e \<Rightarrow> Inl (MapVal (type_string t) e)
                     | Inr gv \<Rightarrow> Inr (MapType (type_string t) gk gv)))
           | Enum bits vals \<Rightarrow>
               (case MustParseKnownType chString of None \<Rightarrow> Inl (BadOverride IndexPanic) | Some g \<Rightarrow> Inr g)
           | Tuple names ts \<Rightarrow> Inl (NoTuple (type_string t))
           | Unsupported raw \<Rightarrow> Inl (NoUnsupported raw)
           | _ \<Rightarrow> (case findChKnownType t of Some g \<Rightarrow> Inr g | None \<Rightarrow> Inl (NoGoType (type_string t)))))"

declare ch_resolve.simps [simp del]

definition ch_Resolve :: "(string \<rightharpoonup> string) \<Rightarrow> sqltype \<Rightarrow> bool \<Rightarrow> string \<Rightarrow> resolve_error + gotype" where
  "ch_Resolve overrides t nullable pkgPath =
     (case t of PgT p \<Rightarrow> Inl (NotClickHouse (pg_String p)) | ChT c \<Rightarrow> ch_resolve overrides c)"

end
