(* ===== verification/TemplaterProps.thy ===== *)
theory TemplaterProps
  imports Templater ChResolve
begin

text \<open>
  Properties of the generated data: the value of the SQL constants, the merged columns of shared row
  structs, the uniqueness of constant names, and cases where the generated file would not compile.
\<close>

subsection \<open>The SQL constants\<close>

text \<open>C37: the Go literal of a query has the prepared text as its value, but for carriage returns, which Go
  drops from raw literals; a text with a back quote is quoted instead and keeps them.\<close>

theorem EmitPreparedSQL_value:
  assumes "pr_ok pr"
  shows "go_literal (EmitPreparedSQL pr tq) =
    Some (if CHR 0x60 \<in> set (q_PreparedSQL tq) then q_PreparedSQL tq
      else filter (\<lambda>c. c \<noteq> CHR 0x0D) (q_PreparedSQL tq))"
  using go_literal_Quote [OF assms, of "q_PreparedSQL tq"]
  by (simp add: EmitPreparedSQL_def tick_def) (simp add: go_literal_def)

definition ascii_print :: "int \<Rightarrow> bool" where
  "ascii_print r \<longleftrightarrow> 32 \<le> r \<and> r < 127"

definition some_query :: TemplatedQuery where
  "some_query = \<lparr>q_Dialect = DialectPostgres, q_Name = ''Find'', q_SQLVarName = ''findSQL'', q_ResultKind = ResultKindOne,
     q_Doc = [], q_PreparedSQL = ''SELECT 1'' @ [CHR 0x0D, CHR 0x0A] @ ''FROM t;'', q_Inputs = [], q_Outputs = [],
     q_InlineParamCount = 2, q_OutputType = [], q_SQLConst = [], q_VariantGroup = [], q_VariantKey = no_variant\<rparr>"

theorem EmitPreparedSQL_value_witness:
  "go_literal (EmitPreparedSQL ascii_print some_query) = Some (''SELECT 1'' @ [CHR 0x0A] @ ''FROM t;'')"
proof -
  have "pr_ok ascii_print" by code_simp
  from EmitPreparedSQL_value [OF this, of some_query] show ?thesis by (simp add: some_query_def)
qed

subsection \<open>Shared row structs\<close>

text \<open>What merging promises of the columns of a shared struct: those of the first query in its order,
  with the type of each query's column of that name up to a pointer, and a pointer exactly where some
  query has one.\<close>

definition row_for :: "TemplatedColumn list \<Rightarrow> queryRef list \<Rightarrow> bool" where
  "row_for cols refs \<longleftrightarrow>
     list_all (\<lambda>ref. length (rf_outputs ref) = length cols \<and>
       list_all (\<lambda>c. list_ex (\<lambda>m. co_PgName m = co_PgName c \<and>
         BaseName (unwrapPointer (co_Type m)) = BaseName (unwrapPointer (co_Type c))) cols) (rf_outputs ref)) refs \<and>
     list_all (\<lambda>m. is_pointer (co_Type m) \<longleftrightarrow>
       list_ex (\<lambda>ref. list_ex (\<lambda>c. co_PgName c = co_PgName m \<and> is_pointer (co_Type c)) (rf_outputs ref)) refs) cols"

text \<open>The table while merging: for each column of the first query, its column and whether a pointer was
  seen in the columns \<open>seen\<close>.\<close>

definition table_ok :: "TemplatedColumn list \<Rightarrow> TemplatedColumn list \<Rightarrow> merge_cols \<Rightarrow> bool" where
  "table_ok first seen m \<longleftrightarrow>
     (\<forall>c \<in> set first. m (co_PgName c) = Some (c, \<exists>d \<in> set seen. co_PgName d = co_PgName c \<and> is_pointer (co_Type d))) \<and>
     dom m = co_PgName ` set first"

lemma first_cols_other: "k \<notin> co_PgName ` set cols \<Longrightarrow> first_cols cols m k = m k"
  by (induction cols arbitrary: m) auto

lemma first_cols_own:
  "distinct (map co_PgName cols) \<Longrightarrow> c \<in> set cols \<Longrightarrow> first_cols cols m (co_PgName c) = Some (c, is_pointer (co_Type c))"
proof (induction cols arbitrary: m)
  case (Cons d cols)
  show ?case
  proof (cases "c = d")
    case True
    with Cons.prems show ?thesis by (simp add: first_cols_other)
  next
    case False
    with Cons show ?thesis by simp
  qed
qed simp

lemma first_cols_dom: "dom (first_cols cols m) = co_PgName ` set cols \<union> dom m"
  by (induction cols arbitrary: m) auto

lemma same_name: "distinct (map co_PgName cols) \<Longrightarrow> c \<in> set cols \<Longrightarrow> d \<in> set cols \<Longrightarrow> co_PgName c = co_PgName d \<Longrightarrow> c = d"
  by (auto simp: distinct_map dest: inj_onD)

lemma first_cols_ok:
  assumes "distinct (map co_PgName cols)"
  shows "table_ok cols cols (first_cols cols Map.empty)"
  unfolding table_ok_def
proof
  show "\<forall>c \<in> set cols. first_cols cols Map.empty (co_PgName c) =
      Some (c, \<exists>d \<in> set cols. co_PgName d = co_PgName c \<and> is_pointer (co_Type d))"
    using first_cols_own [OF assms] same_name [OF assms] by fastforce
qed (simp add: first_cols_dom)

definition base :: "TemplatedColumn \<Rightarrow> string" where
  "base c = BaseName (unwrapPointer (co_Type c))"

lemma merge_ref_ok:
  assumes "table_ok first seen m" "merge_ref ot ref cols m = Inr m'" "distinct (map co_PgName first)"
  shows "table_ok first (seen @ cols) m' \<and>
    (\<forall>c \<in> set cols. \<exists>d \<in> set first. co_PgName d = co_PgName c \<and> base d = base c)"
  using assms(1,2)
proof (induction ot ref cols m arbitrary: seen rule: merge_ref.induct)
  case (2 ot ref col cols m)
  then obtain old nullable where old: "m (co_PgName col) = Some (old, nullable)" by (cases "m (co_PgName col)") auto
  then have dn: "co_PgName col \<in> co_PgName ` set first" using 2(2) by (auto simp: table_ok_def)
  then obtain d where d: "d \<in> set first" "co_PgName d = co_PgName col" by (metis imageE)
  then have od: "old = d" "nullable = (\<exists>x \<in> set seen. co_PgName x = co_PgName col \<and> is_pointer (co_Type x))"
  proof -
    have "m (co_PgName d) = Some (d, \<exists>x \<in> set seen. co_PgName x = co_PgName d \<and> is_pointer (co_Type x))"
      using 2(2) d(1) by (auto simp: table_ok_def)
    then show "old = d" "nullable = (\<exists>x \<in> set seen. co_PgName x = co_PgName col \<and> is_pointer (co_Type x))"
      using old d(2) by simp_all
  qed
  have bases: "base d = base col" using 2(3) old od by (auto simp: base_def split: if_splits)
  let ?m = "if is_pointer (co_Type col) then m(co_PgName col \<mapsto> (old, True)) else m"
  have rest: "merge_ref ot ref cols ?m = Inr m'" using 2(3) old by (auto split: if_splits)
  have "table_ok first (seen @ [col]) ?m"
    using 2(2) d od dn same_name [OF assms(3)] by (auto simp: table_ok_def)
  from "2.IH" [OF old refl _ this rest] bases od d show ?case by (auto simp: base_def)
qed simp

lemma merge_refs_ok:
  assumes "table_ok first seen m" "merge_refs ot n refs m = Inr m'" "distinct (map co_PgName first)"
  shows "table_ok first (seen @ concat (map rf_outputs refs)) m' \<and>
    (\<forall>ref \<in> set refs. length (rf_outputs ref) = n \<and>
       (\<forall>c \<in> set (rf_outputs ref). \<exists>d \<in> set first. co_PgName d = co_PgName c \<and> base d = base c))"
  using assms(1,2)
proof (induction ot n refs m arbitrary: seen rule: merge_refs.induct)
  case (2 ot n ref refs m)
  then obtain m1 where m1: "merge_ref ot ref (rf_outputs ref) m = Inr m1" "merge_refs ot n refs m1 = Inr m'"
    "length (rf_outputs ref) = n"
    by (auto split: if_splits)
  note one = merge_ref_ok [OF 2(2) m1(1) assms(3)]
  have "\<not> length (rf_outputs ref) \<noteq> n" using m1(3) by simp
  from "2.IH" [OF this m1(1), of "seen @ rf_outputs ref"] one m1 show ?case by auto
qed simp

lemma widen_facts:
  "co_PgName (widen (c, b)) = co_PgName c" "base (widen (c, b)) = base c"
  "is_pointer (co_Type (widen (c, b))) \<longleftrightarrow> is_pointer (co_Type c) \<or> b"
  by (auto simp: widen_def base_def unwrapPointer_def is_pointer_def split: gotype.splits)


definition column :: "string \<Rightarrow> gotype \<Rightarrow> string \<Rightarrow> TemplatedColumn" where
  "column name typ qual = \<lparr>co_PgName = name, co_UpperName = name, co_LowerName = name, co_Type = typ, co_QualType = qual\<rparr>"

definition two_refs :: "queryRef list" where
  "two_refs =
     [\<lparr>rf_name = ''A'', rf_outputs = [column ''id'' (OpaqueType ''int'') ''int'', column ''name'' (OpaqueType ''string'') ''string'']\<rparr>,
      \<lparr>rf_name = ''B'', rf_outputs = [column ''name'' (PointerType (OpaqueType ''string'')) ''*string'',
         column ''id'' (OpaqueType ''int'') ''int'']\<rparr>]"


subsection \<open>Names of SQL constants\<close>

definition struct_names :: "TemplatedQuery \<Rightarrow> string set" where
  "struct_names q = {rowTypeName q, q_Name q @ ''Params''} \<union> (if IsVariant q then {VariantParamsType q} else {})"

lemma fold_reserve: "fold reserve_query qs declared - {[]} = (declared \<union> \<Union> (struct_names ` set qs)) - {[]}"
proof (induction qs arbitrary: declared)
  case (Cons q qs)
  have "reserve_query q declared - {[]} = (declared \<union> struct_names q) - {[]}"
    by (auto simp: reserve_query_def reserve_def struct_names_def Let_def)
  with Cons [of "reserve_query q declared"] show ?case by auto
qed simp

abbreviation (input) const_names :: "TemplatedQuery list \<Rightarrow> string list" where
  "const_names qs \<equiv> filter (\<lambda>n. n \<noteq> []) (map q_SQLConst qs)"

lemma check_consts_iff:
  "check_consts declared byName qs = Inr () \<longleftrightarrow>
     distinct (const_names qs) \<and> set (const_names qs) \<inter> (declared \<union> byName) = {}"
  by (induction declared byName qs rule: check_consts.induct) auto

text \<open>The names of exported SQL constants are accepted exactly when they differ from each other and
  from the row and parameter structs of every query of the package.\<close>

lemma validateSQLConstNames_iff:
  "validateSQLConstNames files = Inr () \<longleftrightarrow>
     (let qs = concat (map allQueries files) in
      distinct (const_names qs) \<and> set (const_names qs) \<inter> \<Union> (struct_names ` set qs) = {})"
proof -
  let ?qs = "concat (map allQueries files)"
  have "set (const_names ?qs) \<inter> (fold reserve_query ?qs {} \<union> {}) = set (const_names ?qs) \<inter> (fold reserve_query ?qs {} - {[]})"
    by auto
  also have "\<dots> = set (const_names ?qs) \<inter> \<Union> (struct_names ` set ?qs)" unfolding fold_reserve by auto
  finally show ?thesis by (simp add: validateSQLConstNames_def check_consts_iff Let_def)
qed

subsection \<open>Files that do not compile\<close>

definition ch_templater :: "resolve_error Templater" where
  "ch_templater = \<lparr>tm_caser = NewCaser, tm_resolver = ch_Resolve Map.empty, tm_guess = (\<lambda>_. None), tm_pkg = ''out'',
     tm_inline = 2, tm_dialect = DialectClickHouse\<rparr>"

definition typed :: "string \<Rightarrow> string \<Rightarrow> (string \<times> chtype) list \<Rightarrow> sqltype TypedQuery" where
  "typed name output cols = \<lparr>tq_name = name, tq_kind = ResultKindMany, tq_doc = [], tq_sql = ''SELECT 1;'', tq_inputs = [],
     tq_outputs = map (\<lambda>(n, t). \<lparr>oc_name = n, oc_type = ChT t, oc_nullable = False\<rparr>) cols,
     tq_proto = [], tq_output = output, tq_const = [], tq_group = [], tq_variant = no_variant\<rparr>"

definition two_files :: "QueryFile list" where
  "two_files =
     [\<lparr>qf_SourcePath = ''/q/a.sql'', qf_Queries = [typed ''Count'' [] [(''n'', Scalar ''UInt64'')]]\<rparr>,
      \<lparr>qf_SourcePath = ''/q/b.sql'',
        qf_Queries = [typed ''Days'' ''DayRow'' [(''day'', Scalar ''Date''), (''n'', Scalar ''UInt64'')]]\<rparr>]"

text \<open>The types of a query with their spellings.\<close>

definition spelled :: "TemplatedQuery \<Rightarrow> (gotype \<times> string) list" where
  "spelled q = map (\<lambda>p. (pa_Type p, pa_QualType p)) (q_Inputs q) @ map (\<lambda>c. (co_Type c, co_QualType c)) (q_Outputs q)"

text \<open>
  The second file spells \<^verbatim>\<open>time.Time\<close> and imports \<^verbatim>\<open>time\<close>. But a struct that queries share is declared in the
  leader file, and the packages of its column types are imported by the file of the query: the leader
  declares a field of type \<^verbatim>\<open>time.Time\<close> without importing \<^verbatim>\<open>time\<close>.
\<close>

lemma two_files_templated:
  "case TemplateAll latin1 ch_templater two_files of
     Inl e \<Rightarrow> False
   | Inr files \<Rightarrow>
       map (\<lambda>f. list_ex (\<lambda>d. case d of SharedRowDeclarer n cols di \<Rightarrow> list_ex (\<lambda>c. co_QualType c = ''time.Time'') cols
          | _ \<Rightarrow> False) (tf_Declarers f)) files = [True, False] \<and>
       map (\<lambda>f. list_ex (\<lambda>i. PkgPath i = ''time'') (tf_Imports f)) files = [False, True] \<and>
       map (\<lambda>f. map spelled (tf_Queries f)) files =
         [[[(OpaqueType ''uint64'', ''uint64'')]],
          [[(ImportType ''time'' (OpaqueType ''Time''), ''time.Time''), (OpaqueType ''uint64'', ''uint64'')]]]"
  by code_simp

end
