(* ===== verification/TemplaterImports.thy ===== *)
theory TemplaterImports
  imports TemplaterProps GoTypeProps
begin

text \<open>
  The imports of the generated files: every type that a templated query spells comes from a package
  that its file imports, under the name it is spelled with.
\<close>

subsection \<open>Packages of types\<close>

definition pkgs :: "gotype \<Rightarrow> string set" where
  "pkgs t = {p. \<exists>u. ImportType p u \<in> set (subtypes t)}"

lemma set_imports_AddType: "set_imports (AddType t s) = set_imports s \<union> pkgs t"
  by (simp add: AddType_fold fold_add_import pkgs_def)

lemma QualifyType_agree:
  "(\<And>p. p \<in> pkgs t \<Longrightarrow> p \<noteq> [] \<Longrightarrow> p \<noteq> other \<Longrightarrow> a p = b p) \<Longrightarrow> QualifyType t other a = QualifyType t other b"
proof (induction t)
  case (MapType sql k v)
  then have "QualifyType k other a = QualifyType k other b" "QualifyType v other a = QualifyType v other b"
    by (auto simp: pkgs_def)
  then show ?case by simp
next
  case (ImportType pkg t)
  have "a pkg = b pkg" if "pkg \<noteq> []" "pkg \<noteq> other" using ImportType.prems [of pkg] that by (auto simp: pkgs_def)
  then show ?case by (simp add: Let_def)
qed (auto simp: pkgs_def)

subsection \<open>The first pass\<close>

lemma note_type_imports: "set_imports (ps_imports (note_type t st)) = set_imports (ps_imports st) \<union> pkgs t"
  by (simp add: note_type_def set_imports_AddType)

lemma resolve_inputs_imports:
  "resolve_inputs tm pkgPath qname inputs st = Inr (ts, st1) \<Longrightarrow>
     length ts = length inputs \<and> set_imports (ps_imports st1) = set_imports (ps_imports st) \<union> (\<Union>t \<in> set ts. pkgs t)"
proof (induction inputs arbitrary: st ts)
  case (Cons input inputs)
  then show ?case by (fastforce simp: note_type_imports map_res_Inr split: sum.splits)
qed simp

lemma resolve_outputs_imports:
  "resolve_outputs tm pkgPath qname outs st = Inr (ts, st1) \<Longrightarrow>
     length ts = length outs \<and> set_imports (ps_imports st1) = set_imports (ps_imports st) \<union> (\<Union>t \<in> set ts. pkgs t)"
proof (induction outs arbitrary: st ts)
  case (Cons out outs)
  then show ?case by (fastforce simp: note_type_imports map_res_Inr split: sum.splits)
qed simp

definition qd_types :: "queryData \<Rightarrow> gotype list" where
  "qd_types qd = qd_inputs qd @ qd_outputs qd"

lemma first_pass_imports:
  "first_pass tm pkgPath queries st = Inr (qds, st1) \<Longrightarrow>
     list_all (\<lambda>qd. length (qd_inputs qd) = length (tq_inputs (qd_query qd)) \<and>
       length (qd_outputs qd) = length (tq_outputs (qd_query qd))) qds \<and>
     set_imports (ps_imports st1) = set_imports (ps_imports st) \<union> (\<Union>qd \<in> set qds. \<Union>t \<in> set (qd_types qd). pkgs t)"
proof (induction queries arbitrary: st qds)
  case (Cons query queries)
  then obtain ins st2 outs st3 qds3 where
    ins: "resolve_inputs tm pkgPath (tq_name query) (tq_inputs query) st = Inr (ins, st2)" and
    outs: "resolve_outputs tm pkgPath (tq_name query) (tq_outputs query) st2 = Inr (outs, st3)" and
    rec: "first_pass tm pkgPath queries st3 = Inr (qds3, st1)" and
    qds: "qds = \<lparr>qd_query = query, qd_doc = doc_text (tq_doc query), qd_inputs = ins, qd_outputs = outs\<rparr> # qds3"
    by (auto simp: res_bind_Inr map_res_Inr)
  from resolve_inputs_imports [OF ins] resolve_outputs_imports [OF outs] Cons.IH [OF rec]
  show ?case by (auto simp: qds qd_types_def)
qed simp

subsection \<open>The second pass\<close>

lemma no_panic_Inr: "no_panic x = Inr a \<longleftrightarrow> x = Some a"
  by (cases x) (simp_all add: no_panic_def)

lemma all_some_iff: "all_some xs = Some ys \<longleftrightarrow> xs = map Some ys"
  by (induction xs arbitrary: ys) (auto simp: bind_eq_Some_conv Cons_eq_map_conv)

lemma map_Some_at:
  assumes "map f xs = map Some ys" "y \<in> set ys"
  obtains x where "x \<in> set xs" "f x = Some y"
proof -
  have "Some y \<in> set (map f xs)" using assms by simp
  then show thesis using that by auto
qed

lemma enumerate_zip_snd: "(i, a, b) \<in> set (List.enumerate n (zip xs ys)) \<Longrightarrow> b \<in> set ys"
  by (auto simp: in_set_enumerate_eq set_zip)

lemma templated_query_spelled:
  assumes "templated_query U tm pkgPath aliases qd = Some tq" "(t, s) \<in> set (spelled tq)"
  shows "t \<in> set (qd_types qd)" "QualifyType t pkgPath aliases = Some s"
proof -
  obtain inputs outputs where
    ins: "map (templated_param U tm pkgPath aliases (length (tq_inputs (qd_query qd))))
        (List.enumerate 0 (zip (tq_inputs (qd_query qd)) (qd_inputs qd))) = map Some inputs" and
    outs: "map (templated_column U tm pkgPath aliases (length (tq_outputs (qd_query qd))))
        (List.enumerate 0 (zip (tq_outputs (qd_query qd)) (qd_outputs qd))) = map Some outputs" and
    fields: "q_Inputs tq = inputs" "q_Outputs tq = outputs"
    using assms(1) by (auto simp: templated_query_def Let_def bind_eq_Some_conv all_some_iff split: if_splits)
  from assms(2) consider p where "p \<in> set inputs" "t = pa_Type p" "s = pa_QualType p"
    | c where "c \<in> set outputs" "t = co_Type c" "s = co_QualType c"
    by (auto simp: spelled_def fields)
  then have "t \<in> set (qd_types qd) \<and> QualifyType t pkgPath aliases = Some s"
  proof cases
    case 1
    with map_Some_at [OF ins] obtain i a b where
      "(i, a, b) \<in> set (List.enumerate 0 (zip (tq_inputs (qd_query qd)) (qd_inputs qd)))"
      "templated_param U tm pkgPath aliases (length (tq_inputs (qd_query qd))) (i, a, b) = Some p"
      by (metis prod_cases3)
    with 1 show ?thesis by (auto simp: templated_param_def qd_types_def dest: enumerate_zip_snd)
  next
    case 2
    with map_Some_at [OF outs] obtain i a b where
      "(i, a, b) \<in> set (List.enumerate 0 (zip (tq_outputs (qd_query qd)) (qd_outputs qd)))"
      "templated_column U tm pkgPath aliases (length (tq_outputs (qd_query qd))) (i, a, b) = Some c"
      by (metis prod_cases3)
    with 2 show ?thesis by (auto simp: templated_column_def qd_types_def dest: enumerate_zip_snd)
  qed
  then show "t \<in> set (qd_types qd)" "QualifyType t pkgPath aliases = Some s" by auto
qed

subsection \<open>A file\<close>

definition file_aliases :: "ImportPkg list \<Rightarrow> string \<rightharpoonup> string" where
  "file_aliases imps = map_of (map (\<lambda>i. (PkgPath i, Alias i)) (filter (\<lambda>i. Alias i \<noteq> []) imps))"

definition paths :: "ImportPkg list \<Rightarrow> string set" where
  "paths imps = PkgPath ` set imps"

lemma AliasMap_imports: "AliasMap s = map_option file_aliases (SortedImports s)"
  by (simp add: AliasMap_def file_aliases_def [abs_def])

lemma finite_base: "finite (set_imports (base_imports d))"
  by (simp add: base_imports_def Let_def AddPackage_def NewImportSet_def)

lemma finite_pkgs: "finite (pkgs t)"
proof -
  have "pkgs t \<subseteq> Import ` set (subtypes t)" by (force simp: pkgs_def)
  then show ?thesis by (rule finite_subset) simp
qed

lemma SortedImports_paths:
  assumes "SortedImports s = Some imps" "finite (set_imports s)"
  shows "paths imps = set_imports s - {[]}"
proof -
  obtain ps where ps: "short_names (SortedPackages s) = Some ps"
    and imps: "imps = map (\<lambda>p. \<lparr>PkgPath = fst p, Alias = import_alias (by_short ps (\<lambda>_. [])) p\<rparr>) ps"
    using assms(1) by (auto simp: SortedImports_def Let_def)
  have "paths imps = set (map fst ps)" by (force simp: paths_def imps)
  also have "\<dots> = set (SortedPackages s)" using short_names_pairs [OF ps] by simp
  finally show ?thesis using assms(2) by (simp add: SortedPackages_def)
qed

lemma templateFile_spelled:
  assumes "templateFile U tm file isLeader = Inr (f, decls, names)"
    and "q \<in> set (allQueries f)" "(t, s) \<in> set (spelled q)"
  shows "QualifyType t (tf_PkgPath f) (file_aliases (tf_Imports f)) = Some s" "pkgs t \<subseteq> insert [] (paths (tf_Imports f))"
proof -
  define pkgPath where "pkgPath = (case tm_guess tm (qf_SourcePath file) of None \<Rightarrow> [] | Some pkg \<Rightarrow> pkg)"
  obtain qds st aliases queries sorted where
    pass: "first_pass tm pkgPath (qf_Queries file)
      \<lparr>ps_imports = base_imports (tm_dialect tm), ps_declarers = NewDeclarerSet [], ps_names = {}\<rparr> = Inr (qds, st)" and
    aliases: "AliasMap (ps_imports st) = Some aliases" and
    queries: "map (templated_query U tm pkgPath aliases) qds = map Some queries" and
    sorted: "SortedImports (ps_imports st) = Some sorted" and
    f: "tf_PkgPath f = pkgPath" "tf_Imports f = sorted" "set (allQueries f) \<subseteq> set queries"
    using assms(1)
    by (auto simp: templateFile_def Let_def no_panic_Inr all_some_iff allQueries_def pkgPath_def [symmetric])
  obtain qd where qd: "qd \<in> set qds" "templated_query U tm pkgPath aliases qd = Some q"
    using map_Some_at [OF queries] f(3) assms(2) by blast
  have al: "aliases = file_aliases sorted" using aliases sorted by (simp add: AliasMap_imports)
  show "QualifyType t (tf_PkgPath f) (file_aliases (tf_Imports f)) = Some s"
    using templated_query_spelled(2) [OF qd(2) assms(3)] by (simp add: f al)
  have imps: "set_imports (ps_imports st) = set_imports (base_imports (tm_dialect tm)) \<union>
      (\<Union>qd \<in> set qds. \<Union>t \<in> set (qd_types qd). pkgs t)"
    using first_pass_imports [OF pass] by simp
  then have "finite (set_imports (ps_imports st))" by (simp add: finite_base finite_pkgs)
  from SortedImports_paths [OF sorted this] have "paths (tf_Imports f) = set_imports (ps_imports st) - {[]}"
    by (simp add: f)
  moreover have "pkgs t \<subseteq> set_imports (ps_imports st)"
    using templated_query_spelled(1) [OF qd(2) assms(3)] qd(1) by (auto simp: imps)
  ultimately show "pkgs t \<subseteq> insert [] (paths (tf_Imports f))" by blast
qed

subsection \<open>All files\<close>

text \<open>What the steps after templating do to a file: queries stay, and imports only lose some packages.\<close>

definition keeps_file :: "string set \<Rightarrow> TemplatedFile \<Rightarrow> TemplatedFile \<Rightarrow> bool" where
  "keeps_file gone f g \<longleftrightarrow>
     allQueries g = allQueries f \<and> tf_PkgPath g = tf_PkgPath f \<and> tf_SourcePath g = tf_SourcePath f \<and>
     tf_Dialect g = tf_Dialect f \<and> tf_IsLeader g = tf_IsLeader f \<and>
     paths (tf_Imports f) - gone \<subseteq> paths (tf_Imports g) \<and>
     (\<forall>p. p \<notin> gone \<longrightarrow> file_aliases (tf_Imports g) p = file_aliases (tf_Imports f) p)"

lemma keeps_refl: "keeps_file gone f f"
  by (simp add: keeps_file_def)

lemma keeps_trans: "keeps_file a f g \<Longrightarrow> keeps_file b g h \<Longrightarrow> keeps_file (a \<union> b) f h"
  by (auto simp: keeps_file_def)

lemma keeps_mono: "keeps_file a f g \<Longrightarrow> a \<subseteq> b \<Longrightarrow> keeps_file b f g"
  by (auto simp: keeps_file_def)

lemma file_aliases_Cons:
  "file_aliases (i # imps) = (if Alias i \<noteq> [] then (file_aliases imps)(PkgPath i \<mapsto> Alias i) else file_aliases imps)"
  by (simp add: file_aliases_def)

lemma removeImport_keeps: "keeps_file {pkg} f (f\<lparr>tf_Imports := removeImport (tf_Imports f) pkg\<rparr>)"
proof -
  have "paths imps - {pkg} \<subseteq> paths (removeImport imps pkg)" for imps
    by (induction imps) (auto simp: paths_def)
  moreover have "p \<noteq> pkg \<Longrightarrow> file_aliases (removeImport imps pkg) p = file_aliases imps p" for p imps
    by (induction imps) (auto simp: file_aliases_Cons)
  ultimately show ?thesis by (simp add: keeps_file_def allQueries_def)
qed

lemma addImport_keeps: "keeps_file {} f (f\<lparr>tf_Imports := addImport (tf_Imports f) pkg\<rparr>)"
proof -
  have "paths (take k imps @ drop k imps) \<subseteq> paths (take k imps @ [i] @ drop k imps)" for k imps i
    unfolding paths_def set_append by auto
  moreover have "file_aliases (take k imps @ [\<lparr>PkgPath = pkg, Alias = []\<rparr>] @ drop k imps) =
      file_aliases (take k imps @ drop k imps)" for k imps
    unfolding file_aliases_def filter_append map_append by simp
  ultimately show ?thesis by (simp add: keeps_file_def allQueries_def addImport_def Let_def)
qed

definition dropped_pkgs :: "string set" where
  "dropped_pkgs = {''github.com/ClickHouse/clickhouse-go/v2'', ''github.com/ClickHouse/clickhouse-go/v2/lib/driver'',
     ''github.com/jackc/pgx/v5/pgconn''}"

lemma drop_imports_keeps: "keeps_file dropped_pkgs f (drop_imports m f)"
proof -
  have rm: "keeps_file dropped_pkgs g (g\<lparr>tf_Imports := removeImport (tf_Imports g) pkg\<rparr>)" if "pkg \<in> dropped_pkgs" for g pkg
    by (rule keeps_mono [OF removeImport_keeps]) (use that in simp)
  have "keeps_file (dropped_pkgs \<union> dropped_pkgs) f
      (f\<lparr>tf_Imports := removeImport (removeImport (tf_Imports f) p) p'\<rparr>)" if "p \<in> dropped_pkgs" "p' \<in> dropped_pkgs" for p p'
    using keeps_trans [OF rm [OF that(1), of f] rm [OF that(2)]] by simp
  then show ?thesis using rm keeps_refl [of dropped_pkgs f]
    by (auto simp: drop_imports_def Let_def dropped_pkgs_def)
qed

lemma drop_self_keeps: "keeps_file (case guess (tf_SourcePath f) of None \<Rightarrow> {} | Some p \<Rightarrow> {p}) f (drop_self guess f)"
  by (auto simp: drop_self_def keeps_refl removeImport_keeps split: option.splits)

lemma declarers_keeps: "keeps_file {} f (f\<lparr>tf_Declarers := d\<rparr>)"
  by (simp add: keeps_file_def allQueries_def)

lemma templateFile_path:
  assumes "templateFile U tm file isLeader = Inr (f, decls, names)"
  shows "tf_SourcePath f = qf_SourcePath file"
    and "tf_PkgPath f = (case tm_guess tm (qf_SourcePath file) of None \<Rightarrow> [] | Some pkg \<Rightarrow> pkg)"
    and "tf_IsLeader f = isLeader"
  using assms by (auto simp: templateFile_def Let_def)

text \<open>The files of the result, one for each query file.\<close>

lemma TemplateAll_nth:
  assumes "TemplateAll U tm files = Inr out"
  shows "length out = length files"
    and "i < length files \<Longrightarrow> \<exists>f decls names.
      templateFile U tm (files ! i) (leader_index (map qf_SourcePath files) = Some i) = Inr (f, decls, names) \<and>
      keeps_file (insert (tf_PkgPath f) dropped_pkgs) f (out ! i)"
proof -
  obtain results leader d where
    res: "template_files U tm files = Inr results" and
    out0: "out = (let goFiles1 = (map fst results)[leader := (map fst results ! leader)\<lparr>tf_Declarers := d\<rparr>];
                goFiles2 = (if hasChIdentifiers goFiles1
                  then map (\<lambda>f. if tf_IsLeader f then f\<lparr>tf_Imports := addImport (tf_Imports f) ''strings''\<rparr> else f) goFiles1
                  else goFiles1)
            in map (\<lambda>f. drop_self (tm_guess tm) (drop_imports (chConnMethodsOf goFiles2) f)) goFiles2)"
    using assms unfolding TemplateAll_def Let_def [of "map fst _"] Let_def [of "fold _ _ _"] Let_def [of "\<Union> _"]
      Let_def [of "if _ \<and> _ then _ else _"]
    by (auto simp only: res_bind_Inr no_panic_Inr Let_def sum.inject)
  define go where "go = (map fst results)[leader := (map fst results ! leader)\<lparr>tf_Declarers := d\<rparr>]"
  define add where "add f = (if tf_IsLeader f then f\<lparr>tf_Imports := addImport (tf_Imports f) ''strings''\<rparr> else f)" for f :: TemplatedFile
  define up where "up = (if hasChIdentifiers go then add else (\<lambda>f. f))"
  define m where "m = chConnMethodsOf (map up go)"
  have out: "out = map (\<lambda>f. drop_self (tm_guess tm) (drop_imports m (up f))) go"
    by (simp add: out0 Let_def go_def [symmetric] add_def [abs_def, symmetric] up_def m_def comp_def)
  have results: "length results = length files"
    and each: "i < length files \<Longrightarrow>
      templateFile U tm (files ! i) (leader_index (map qf_SourcePath files) = Some i) = Inr (results ! i)" for i
    using res unfolding template_files_def seq_res_Inr
    by (auto dest: arg_cong [of _ _ length]) (metis (no_types, lifting) add_0 case_prod_conv length_enumerate length_map nth_enumerate_eq nth_map)
  show "length out = length files" by (simp add: out results go_def)
  assume i: "i < length files"
  obtain f decls names where f: "results ! i = (f, decls, names)" by (metis prod_cases3)
  have "keeps_file {} f (up g)" if "keeps_file {} f g" for g
    using keeps_trans [OF that addImport_keeps] that by (auto simp: up_def add_def)
  moreover have "keeps_file {} f (go ! i)"
    using i results f by (cases "leader = i") (auto simp: go_def declarers_keeps keeps_refl)
  ultimately have up_i: "keeps_file {} f (up (go ! i))" by blast
  show "\<exists>f decls names.
      templateFile U tm (files ! i) (leader_index (map qf_SourcePath files) = Some i) = Inr (f, decls, names) \<and>
      keeps_file (insert (tf_PkgPath f) dropped_pkgs) f (out ! i)"
  proof (intro exI conjI)
    show tf: "templateFile U tm (files ! i) (leader_index (map qf_SourcePath files) = Some i) = Inr (f, decls, names)"
      using each [OF i] f by simp
    define g where "g = drop_imports m (up (go ! i))"
    have g: "keeps_file dropped_pkgs f g" using keeps_trans [OF up_i drop_imports_keeps [of _ m]] by (simp add: g_def)
    then have "tf_SourcePath g = qf_SourcePath (files ! i)" using templateFile_path(1) [OF tf] by (simp add: keeps_file_def)
    then have self: "(case tm_guess tm (tf_SourcePath g) of None \<Rightarrow> {} | Some p \<Rightarrow> {p}) \<subseteq> {tf_PkgPath f}"
      using templateFile_path(2) [OF tf] by (simp split: option.splits)
    have "out ! i = drop_self (tm_guess tm) g" using i results by (simp add: out g_def go_def)
    then show "keeps_file (insert (tf_PkgPath f) dropped_pkgs) f (out ! i)"
      using keeps_mono [OF keeps_trans [OF g drop_self_keeps [of "tm_guess tm" g]],
          of "insert (tf_PkgPath f) dropped_pkgs"] self by auto
  qed
qed



end
