(* ===== verification/PgKnown.thy ===== *)
theory PgKnown
  imports SqlTypes GoTypes
begin

text \<open>
  The tables of known Postgres types: \<^verbatim>\<open>internal/pg/known_types.go\<close>, from an OID to its Postgres type, and
  \<^verbatim>\<open>internal/codegen/golang/gotype/known_types.go\<close>, from an OID to its Go types. The OIDs that pgx names,
  such as \<^verbatim>\<open>pgtype.BoolOID\<close>, are the parameter \<open>oidof\<close>, from the name of the constant to its value; those of
  \<^verbatim>\<open>internal/pg/pgoid\<close> are written out.

  A Go variable of a known type points to one object for the whole program, and the resolver writes the
  name of the array type it was asked for into it. A table entry is therefore the name of a variable,
  and \<open>array_names\<close>, the store, has the names that are written in the objects.
\<close>

subsection \<open>OIDs\<close>

definition PgNodeTreeOID :: oid where
  "PgNodeTreeOID = 194"

definition OIDArrayOID :: oid where
  "OIDArrayOID = 1028"

definition MacaddrArrayOID :: oid where
  "MacaddrArrayOID = 1040"

type_synonym pgx_oids = "string \<Rightarrow> oid"

subsection \<open>Postgres types\<close>

definition defaultKnownTypes :: "pgx_oids \<Rightarrow> (oid \<times> pgtype) list" where
  "defaultKnownTypes oidof =
     [(oidof ''BoolOID'', PgBase (oidof ''BoolOID'') ''bool''), (oidof ''ByteaOID'', PgBase (oidof ''ByteaOID'') ''bytea''),
      (oidof ''QCharOID'', PgBase (oidof ''QCharOID'') ''char''), (oidof ''NameOID'', PgBase (oidof ''NameOID'') ''name''),
      (oidof ''Int8OID'', PgBase (oidof ''Int8OID'') ''int8''), (oidof ''Int2OID'', PgBase (oidof ''Int2OID'') ''int2''),
      (oidof ''Int4OID'', PgBase (oidof ''Int4OID'') ''int4''), (oidof ''TextOID'', PgBase (oidof ''TextOID'') ''text''),
      (oidof ''OIDOID'', PgBase (oidof ''OIDOID'') ''oid''), (oidof ''TIDOID'', PgBase (oidof ''TIDOID'') ''tid''),
      (oidof ''XIDOID'', PgBase (oidof ''XIDOID'') ''xid''), (oidof ''CIDOID'', PgBase (oidof ''CIDOID'') ''cid''),
      (oidof ''JSONOID'', PgBase (oidof ''JSONOID'') ''json''),
      (PgNodeTreeOID, PgBase PgNodeTreeOID ''pg_node_tree''),
      (oidof ''PointOID'', PgBase (oidof ''PointOID'') ''point''), (oidof ''LsegOID'', PgBase (oidof ''LsegOID'') ''lseg''),
      (oidof ''PathOID'', PgBase (oidof ''PathOID'') ''path''), (oidof ''BoxOID'', PgBase (oidof ''BoxOID'') ''box''),
      (oidof ''PolygonOID'', PgBase (oidof ''PolygonOID'') ''polygon''),
      (oidof ''LineOID'', PgBase (oidof ''LineOID'') ''line''), (oidof ''CIDROID'', PgBase (oidof ''CIDROID'') ''cidr''),
      (oidof ''CIDRArrayOID'', PgArray (oidof ''CIDRArrayOID'') ''_cidr'' None),
      (oidof ''Float4OID'', PgBase (oidof ''Float4OID'') ''float4''),
      (oidof ''Float8OID'', PgBase (oidof ''Float8OID'') ''float8''),
      (oidof ''UnknownOID'', PgBase (oidof ''UnknownOID'') ''unknown''),
      (oidof ''CircleOID'', PgBase (oidof ''CircleOID'') ''circle''),
      (oidof ''MacaddrOID'', PgBase (oidof ''MacaddrOID'') ''macaddr''),
      (oidof ''InetOID'', PgBase (oidof ''InetOID'') ''inet''),
      (oidof ''BoolArrayOID'', PgArray (oidof ''BoolArrayOID'') ''_bool'' None),
      (oidof ''ByteaArrayOID'', PgArray (oidof ''ByteaArrayOID'') ''_bytea'' None),
      (oidof ''Int2ArrayOID'', PgArray (oidof ''Int2ArrayOID'') ''_int2'' None),
      (oidof ''Int4ArrayOID'', PgArray (oidof ''Int4ArrayOID'') ''_int4'' None),
      (oidof ''TextArrayOID'', PgArray (oidof ''TextArrayOID'') ''_text'' None),
      (oidof ''BPCharArrayOID'', PgArray (oidof ''BPCharArrayOID'') ''_bpchar'' None),
      (oidof ''VarcharArrayOID'', PgArray (oidof ''VarcharArrayOID'') ''_varchar'' None),
      (oidof ''Int8ArrayOID'', PgArray (oidof ''Int8ArrayOID'') ''_int8'' None),
      (oidof ''Float4ArrayOID'', PgArray (oidof ''Float4ArrayOID'') ''_float4'' None),
      (oidof ''Float8ArrayOID'', PgArray (oidof ''Float8ArrayOID'') ''_float8'' None),
      (OIDArrayOID, PgArray OIDArrayOID ''_oid'' None),
      (oidof ''ACLItemOID'', PgBase (oidof ''ACLItemOID'') ''aclitem''),
      (oidof ''ACLItemArrayOID'', PgArray (oidof ''ACLItemArrayOID'') ''_aclitem'' None),
      (oidof ''InetArrayOID'', PgArray (oidof ''InetArrayOID'') ''_inet'' None),
      (MacaddrArrayOID, PgArray MacaddrArrayOID ''_macaddr'' None),
      (oidof ''BPCharOID'', PgBase (oidof ''BPCharOID'') ''bpchar''),
      (oidof ''VarcharOID'', PgBase (oidof ''VarcharOID'') ''varchar''),
      (oidof ''DateOID'', PgBase (oidof ''DateOID'') ''date''), (oidof ''TimeOID'', PgBase (oidof ''TimeOID'') ''time''),
      (oidof ''TimestampOID'', PgBase (oidof ''TimestampOID'') ''timestamp''),
      (oidof ''TimestampArrayOID'', PgArray (oidof ''TimestampArrayOID'') ''_timestamp'' None),
      (oidof ''DateArrayOID'', PgArray (oidof ''DateArrayOID'') ''_date'' None),
      (oidof ''TimestamptzOID'', PgBase (oidof ''TimestamptzOID'') ''timestamptz''),
      (oidof ''TimestamptzArrayOID'', PgArray (oidof ''TimestamptzArrayOID'') ''_timestamptz'' None),
      (oidof ''IntervalOID'', PgBase (oidof ''IntervalOID'') ''interval''),
      (oidof ''NumericArrayOID'', PgArray (oidof ''NumericArrayOID'') ''_numeric'' None),
      (oidof ''BitOID'', PgBase (oidof ''BitOID'') ''bit''), (oidof ''VarbitOID'', PgBase (oidof ''VarbitOID'') ''varbit''),
      (oidof ''NumericOID'', PgBase (oidof ''NumericOID'') ''numeric''),
      (oidof ''RecordOID'', PgBase (oidof ''RecordOID'') ''record''), (VoidOID, PgVoid),
      (oidof ''UUIDOID'', PgBase (oidof ''UUIDOID'') ''uuid''),
      (oidof ''UUIDArrayOID'', PgArray (oidof ''UUIDArrayOID'') ''_uuid'' None),
      (oidof ''JSONBOID'', PgBase (oidof ''JSONBOID'') ''jsonb''),
      (oidof ''JSONBArrayOID'', PgArray (oidof ''JSONBArrayOID'') ''_jsonb'' None),
      (oidof ''Int4rangeOID'', PgBase (oidof ''Int4rangeOID'') ''int4range''),
      (oidof ''NumrangeOID'', PgBase (oidof ''NumrangeOID'') ''numrange''),
      (oidof ''TsrangeOID'', PgBase (oidof ''TsrangeOID'') ''tsrange''),
      (oidof ''TstzrangeOID'', PgBase (oidof ''TstzrangeOID'') ''tstzrange''),
      (oidof ''DaterangeOID'', PgBase (oidof ''DaterangeOID'') ''daterange''),
      (oidof ''Int8rangeOID'', PgBase (oidof ''Int8rangeOID'') ''int8range'')]"

subsection \<open>Go types\<close>

text \<open>A variable, the Go type it is parsed from, and the array type it is made for.\<close>

definition known_vars :: "(string \<times> string \<times> string option) list" where
  "known_vars =
     [(''Bool'', ''bool'', None), (''Boolp'', ''*bool'', None), (''BoolSlice'', ''[]bool'', Some ''_bool''),
      (''Int'', ''int'', None), (''Intp'', ''*int'', None), (''IntSlice'', ''[]int'', Some ''_int8''),
      (''IntpSlice'', ''[]*int'', Some ''_int8''), (''Int16'', ''int16'', None),
      (''Int16p'', ''*int16'', None), (''Int16Slice'', ''[]int16'', Some ''_int2''),
      (''Int16pSlice'', ''[]*int16'', Some ''_int2''), (''Int32'', ''int32'', None),
      (''Int32p'', ''*int32'', None), (''Int32Slice'', ''[]int32'', Some ''_int4''),
      (''Int32pSlice'', ''[]*int32'', Some ''_int4''), (''Int64'', ''int64'', None),
      (''Int64p'', ''*int64'', None), (''Int64Slice'', ''[]int64'', Some ''_int8''),
      (''Int64pSlice'', ''[]*int64'', Some ''_int8''), (''Uint'', ''uint'', None),
      (''UintSlice'', ''[]uint'', Some ''_int8''), (''Uint16'', ''uint16'', None),
      (''Uint16Slice'', ''[]uint16'', Some ''_int2''), (''Uint32'', ''uint32'', None),
      (''Uint32Slice'', ''[]uint32'', Some ''_int4''), (''Uint64'', ''uint64'', None),
      (''Uint64Slice'', ''[]uint64'', Some ''_int8''), (''String'', ''string'', None),
      (''Stringp'', ''*string'', None), (''StringSlice'', ''[]string'', Some ''_text''),
      (''StringpSlice'', ''[]*string'', Some ''_text''), (''Float32'', ''float32'', None),
      (''Float32p'', ''*float32'', None), (''Float32Slice'', ''[]float32'', Some ''_float4''),
      (''Float32pSlice'', ''[]*float32'', Some ''_float4''), (''Float64'', ''float64'', None),
      (''Float64p'', ''*float64'', None), (''Float64Slice'', ''[]float64'', Some ''_float8''),
      (''Float64pSlice'', ''[]*float64'', Some ''_float8''), (''ByteSlice'', ''[]byte'', None),
      (''PgBool'', ''github.com/jackc/pgx/v5/pgtype.Bool'', None),
      (''PgInt8'', ''github.com/jackc/pgx/v5/pgtype.Int8'', None),
      (''PgInt2'', ''github.com/jackc/pgx/v5/pgtype.Int2'', None),
      (''PgInt4'', ''github.com/jackc/pgx/v5/pgtype.Int4'', None),
      (''PgText'', ''github.com/jackc/pgx/v5/pgtype.Text'', None),
      (''PgJSON'', ''github.com/jackc/pgx/v5/pgtype.JSONBCodec'', None),
      (''PgPoint'', ''github.com/jackc/pgx/v5/pgtype.Point'', None),
      (''PgLseg'', ''github.com/jackc/pgx/v5/pgtype.Lseg'', None),
      (''PgPath'', ''github.com/jackc/pgx/v5/pgtype.Path'', None),
      (''PgBox'', ''github.com/jackc/pgx/v5/pgtype.Box'', None),
      (''PgPolygon'', ''github.com/jackc/pgx/v5/pgtype.Polygon'', None),
      (''PgLine'', ''github.com/jackc/pgx/v5/pgtype.Line'', None),
      (''PgCIDR'', ''github.com/jackc/pgx/v5/pgtype.Bits'', None),
      (''PgFloat4'', ''github.com/jackc/pgx/v5/pgtype.Float4'', None),
      (''PgFloat8'', ''github.com/jackc/pgx/v5/pgtype.Float8'', None),
      (''PgCircle'', ''github.com/jackc/pgx/v5/pgtype.Circle'', None),
      (''PgInet'', ''net/netip.Prefix'', None), (''PgMacaddr'', ''net.HardwareAddr'', None),
      (''PgDate'', ''github.com/jackc/pgx/v5/pgtype.Date'', None),
      (''PgDateSlice'', ''[]github.com/jackc/pgx/v5/pgtype.Date'', Some ''_date''),
      (''PgTime'', ''github.com/jackc/pgx/v5/pgtype.Time'', None),
      (''PgTimestamp'', ''github.com/jackc/pgx/v5/pgtype.Timestamp'', None),
      (''PgTimestamptz'', ''github.com/jackc/pgx/v5/pgtype.Timestamptz'', None),
      (''PgInterval'', ''github.com/jackc/pgx/v5/pgtype.Interval'', None),
      (''PgBit'', ''github.com/jackc/pgx/v5/pgtype.Bits'', None),
      (''PgVarbit'', ''github.com/jackc/pgx/v5/pgtype.Bits'', None),
      (''PgNumeric'', ''github.com/jackc/pgx/v5/pgtype.Numeric'', None),
      (''PgUUID'', ''github.com/jackc/pgx/v5/pgtype.UUID'', None),
      (''PgJSONB'', ''github.com/jackc/pgx/v5/pgtype.JSONB'', None),
      (''PgInt4range'', ''github.com/jackc/pgx/v5/pgtype.Range[github.com/jackc/pgx/v5/pgtype.Int4]'', None),
      (''PgNumrange'', ''github.com/jackc/pgx/v5/pgtype.Range[github.com/jackc/pgx/v5/pgtype.Numeric]'', None),
      (''PgTsrange'', ''github.com/jackc/pgx/v5/pgtype.Range[github.com/jackc/pgx/v5/pgtype.Timestamp]'', None),
      (''PgTstzrange'', ''github.com/jackc/pgx/v5/pgtype.Range[github.com/jackc/pgx/v5/pgtype.Timestamptz]'', None),
      (''PgDaterange'', ''github.com/jackc/pgx/v5/pgtype.Range[github.com/jackc/pgx/v5/pgtype.Date]'', None),
      (''PgInt8range'', ''github.com/jackc/pgx/v5/pgtype.Range[github.com/jackc/pgx/v5/pgtype.Int8]'', None)]"

text \<open>The object of a variable when the program starts. The variable \<^verbatim>\<open>PgVoid\<close> is not parsed.\<close>

definition known_object :: "string \<Rightarrow> gotype option" where
  "known_object x =
     (if x = ''PgVoid'' then Some VoidType
      else Option.bind (map_of known_vars x) (\<lambda>(qualType, arr).
        case arr of None \<Rightarrow> MustParseKnownType qualType | Some sqlName \<Rightarrow> MustParseKnownArrayType qualType sqlName))"

record knownGoType =
  kg_native :: "string option"
  kg_nullable :: "string option"
  kg_nonNullable :: "string option"

definition known_go :: "string option \<Rightarrow> string option \<Rightarrow> string option \<Rightarrow> knownGoType" where
  "known_go a b c = \<lparr>kg_native = a, kg_nullable = b, kg_nonNullable = c\<rparr>"

definition knownTypesByOID :: "pgx_oids \<Rightarrow> (oid \<times> knownGoType) list" where
  "knownTypesByOID oidof =
     [(oidof ''BoolOID'', known_go (Some ''PgBool'') (Some ''Boolp'') (Some ''Bool'')),
      (oidof ''QCharOID'', known_go (Some ''Int32'') (Some ''Int32p'') (Some ''Int32'')),
      (oidof ''NameOID'', known_go (Some ''String'') (Some ''Stringp'') (Some ''String'')),
      (oidof ''Int8OID'', known_go (Some ''PgInt8'') (Some ''Intp'') (Some ''Int'')),
      (oidof ''Int2OID'', known_go (Some ''PgInt2'') (Some ''Int16p'') (Some ''Int16'')),
      (oidof ''Int4OID'', known_go (Some ''PgInt4'') (Some ''Int32p'') (Some ''Int32'')),
      (oidof ''TextOID'', known_go (Some ''PgText'') (Some ''Stringp'') (Some ''String'')),
      (oidof ''ByteaOID'', known_go (Some ''ByteSlice'') (Some ''ByteSlice'') (Some ''ByteSlice'')),
      (oidof ''OIDOID'', known_go (Some ''Uint32'') None None),
      (oidof ''TIDOID'', known_go (Some ''Uint32'') None None),
      (oidof ''XIDOID'', known_go (Some ''Uint32'') None None),
      (oidof ''CIDOID'', known_go (Some ''Uint32'') None None),
      (oidof ''JSONOID'', known_go (Some ''ByteSlice'') (Some ''ByteSlice'') (Some ''ByteSlice'')),
      (oidof ''PointOID'', known_go (Some ''PgPoint'') None None),
      (oidof ''LsegOID'', known_go (Some ''PgLseg'') None None),
      (oidof ''PathOID'', known_go (Some ''PgPath'') None None),
      (oidof ''BoxOID'', known_go (Some ''PgBox'') None None),
      (oidof ''PolygonOID'', known_go (Some ''PgPolygon'') None None),
      (oidof ''LineOID'', known_go (Some ''PgLine'') None None),
      (oidof ''CIDROID'', known_go (Some ''String'') None None),
      (oidof ''CIDRArrayOID'', known_go (Some ''StringSlice'') None None),
      (oidof ''Float4OID'', known_go (Some ''PgFloat4'') (Some ''Float32p'') (Some ''Float32'')),
      (oidof ''Float8OID'', known_go (Some ''PgFloat8'') (Some ''Float64p'') (Some ''Float64'')),
      (OIDArrayOID, known_go (Some ''Uint32Slice'') None None),
      (oidof ''UnknownOID'', known_go (Some ''String'') None None),
      (oidof ''CircleOID'', known_go (Some ''PgCircle'') None None),
      (oidof ''MacaddrOID'', known_go (Some ''PgMacaddr'') None None),
      (oidof ''InetOID'', known_go (Some ''PgInet'') None None),
      (oidof ''BoolArrayOID'', known_go (Some ''BoolSlice'') None None),
      (oidof ''ByteaArrayOID'', known_go (Some ''StringSlice'') None None),
      (oidof ''Int2ArrayOID'', known_go (Some ''Int16Slice'') (Some ''Int16pSlice'') (Some ''Int16Slice'')),
      (oidof ''Int4ArrayOID'', known_go (Some ''Int32Slice'') (Some ''Int32pSlice'') (Some ''Int32Slice'')),
      (oidof ''TextArrayOID'', known_go (Some ''StringSlice'') (Some ''StringSlice'') None),
      (oidof ''BPCharArrayOID'', known_go (Some ''StringSlice'') None None),
      (oidof ''VarcharArrayOID'', known_go (Some ''StringSlice'') None None),
      (oidof ''Int8ArrayOID'', known_go (Some ''IntSlice'') (Some ''IntpSlice'') (Some ''IntSlice'')),
      (oidof ''Float4ArrayOID'', known_go (Some ''Float32Slice'') (Some ''Float32pSlice'') (Some ''Float32Slice'')),
      (oidof ''Float8ArrayOID'', known_go (Some ''Float64Slice'') (Some ''Float64pSlice'') (Some ''Float64Slice'')),
      (oidof ''ACLItemOID'', known_go (Some ''String'') None None),
      (oidof ''ACLItemArrayOID'', known_go (Some ''StringSlice'') None None),
      (oidof ''InetArrayOID'', known_go (Some ''StringSlice'') None None),
      (MacaddrArrayOID, known_go (Some ''StringSlice'') None None),
      (oidof ''BPCharOID'', known_go (Some ''String'') (Some ''Stringp'') (Some ''String'')),
      (oidof ''VarcharOID'', known_go (Some ''String'') (Some ''Stringp'') (Some ''String'')),
      (oidof ''DateOID'', known_go (Some ''PgDate'') None None),
      (oidof ''TimeOID'', known_go (Some ''PgTime'') None None),
      (oidof ''TimestampOID'', known_go (Some ''PgTimestamp'') None None),
      (oidof ''TimestampArrayOID'', known_go (Some ''StringSlice'') None None),
      (oidof ''DateArrayOID'', known_go (Some ''PgDateSlice'') (Some ''PgDateSlice'') (Some ''PgDateSlice'')),
      (oidof ''TimestamptzOID'', known_go (Some ''PgTimestamptz'') None None),
      (oidof ''TimestamptzArrayOID'', known_go (Some ''StringSlice'') None None),
      (oidof ''IntervalOID'', known_go (Some ''PgInterval'') None None),
      (oidof ''NumericArrayOID'', known_go (Some ''StringSlice'') None None),
      (oidof ''BitOID'', known_go (Some ''PgBit'') None None),
      (oidof ''VarbitOID'', known_go (Some ''PgVarbit'') None None),
      (VoidOID, known_go (Some ''PgVoid'') None None),
      (oidof ''NumericOID'', known_go (Some ''PgNumeric'') None None),
      (oidof ''RecordOID'', known_go None None None), (oidof ''UUIDOID'', known_go (Some ''PgUUID'') None None),
      (oidof ''UUIDArrayOID'', known_go (Some ''StringSlice'') None None),
      (oidof ''JSONBOID'', known_go (Some ''ByteSlice'') (Some ''ByteSlice'') (Some ''ByteSlice'')),
      (oidof ''JSONBArrayOID'', known_go (Some ''StringSlice'') None None),
      (oidof ''Int4rangeOID'', known_go (Some ''PgInt4range'') None None),
      (oidof ''NumrangeOID'', known_go (Some ''PgNumrange'') None None),
      (oidof ''TsrangeOID'', known_go (Some ''PgTsrange'') None None),
      (oidof ''TstzrangeOID'', known_go (Some ''PgTstzrange'') None None),
      (oidof ''DaterangeOID'', known_go (Some ''PgDaterange'') None None),
      (oidof ''Int8rangeOID'', known_go (Some ''PgInt8range'') None None)]"

text \<open>\<open>None\<close> is that there is no entry; the inner \<open>None\<close> is an entry without a type.\<close>

definition FindKnownTypePgx :: "pgx_oids \<Rightarrow> oid \<Rightarrow> string option option" where
  "FindKnownTypePgx oidof i = map_option kg_native (map_of (knownTypesByOID oidof) i)"

definition FindKnownTypeNullable :: "pgx_oids \<Rightarrow> oid \<Rightarrow> string option option" where
  "FindKnownTypeNullable oidof i =
     map_option (\<lambda>typ. if kg_nullable typ \<noteq> None then kg_nullable typ else kg_native typ) (map_of (knownTypesByOID oidof) i)"

definition FindKnownTypeNonNullable :: "pgx_oids \<Rightarrow> oid \<Rightarrow> string option option" where
  "FindKnownTypeNonNullable oidof i =
     map_option (\<lambda>typ. if kg_nonNullable typ \<noteq> None then kg_nonNullable typ
       else if kg_nullable typ \<noteq> None then kg_nullable typ else kg_native typ) (map_of (knownTypesByOID oidof) i)"

end
