(* ===== verification/PgResolve.thy ===== *)
theory PgResolve
  imports PgKnown
begin

text \<open>
  From Postgres types to Go types, \<^verbatim>\<open>internal/codegen/golang/type_resolver.go\<close>. A known array type is an
  object that all calls share: the resolver writes the name of the array into it and returns the
  pointer. The store \<open>array_names\<close> has the names written so far, and a result is a tree whose leaves may be
  such pointers, read with the store at hand. No variable of the known types holds a composite or an
  enum type, so those two branches of the switch are never taken.
\<close>

subsection \<open>Overrides\<close>

definition listElemAliases :: "string \<Rightarrow> string list" where
  "listElemAliases name =
     (if name = ''bigint'' \<or> name = ''int8'' then [''bigint'', ''int8'']
      else if name = ''bigserial'' \<or> name = ''serial8'' then [''bigserial'', ''serial8'']
      else if name = ''bool'' \<or> name = ''boolean'' then [''bool'', ''boolean'']
      else if name = ''float8'' \<or> name = ''double precision'' then [''float8'', ''double precision'']
      else if name = ''int'' \<or> name = ''integer'' \<or> name = ''int4'' then [''int'', ''integer'', ''int4'']
      else if name = ''real'' \<or> name = ''float4'' then [''real'', ''float4'']
      else if name = ''smallint'' \<or> name = ''int2'' then [''smallint'', ''int2'']
      else if name = ''smallserial'' \<or> name = ''serial2'' then [''smallserial'', ''serial2'']
      else if name = ''serial'' \<or> name = ''serial4'' then [''serial'', ''serial4'']
      else [name])"

definition listAliases :: "string \<Rightarrow> string list" where
  "listAliases name =
     (if prefix ''_'' name then map (\<lambda>alias. ''_'' @ alias) (listElemAliases (drop 1 name))
      else listElemAliases name)"

text \<open>The overrides in the order in which the loop over the Go map visits them.\<close>

fun add_aliases :: "(string \<times> string) list \<Rightarrow> (string \<rightharpoonup> string) \<Rightarrow> string \<rightharpoonup> string" where
  "add_aliases [] overs = overs"
| "add_aliases ((k, v) # kvs) overs = add_aliases kvs (fold (\<lambda>alias m. m(alias \<mapsto> v)) (listAliases k) overs)"

definition NewPgTypeResolver :: "(string \<times> string) list \<Rightarrow> string \<rightharpoonup> string" where
  "NewPgTypeResolver overrides = add_aliases overrides Map.empty"

subsection \<open>Results\<close>

type_synonym array_names = "string \<rightharpoonup> string"

text \<open>\<open>RKnown x t\<close> is the pointer in the variable \<open>x\<close>, whose object was made as \<open>t\<close>.\<close>

datatype rtype =
    RKnown string gotype
  | RTree gotype
  | RArray string rtype
  | RStruct string string "string list" string "string list" "rtype list"

definition with_name :: "string option \<Rightarrow> gotype \<Rightarrow> gotype" where
  "with_name n t = (case (t, n) of (ArrayType m e, Some sqlName) \<Rightarrow> ArrayType sqlName e | _ \<Rightarrow> t)"

fun deref :: "array_names \<Rightarrow> rtype \<Rightarrow> gotype" where
  "deref st (RKnown x t) = with_name (st x) t"
| "deref st (RTree t) = t"
| "deref st (RArray name r) = NewArrayType name (deref st r)"
| "deref st (RStruct pkgPath sql cols name fnames rs) =
     (let ct = CompositeType sql cols name fnames (map (deref st) rs) in
      if pkgPath \<noteq> [] then ImportType pkgPath ct else ct)"

datatype pg_error =
    NotPostgres string
  | CustomType gotype_error
  | NotPgArray string
  | UnhandledKnown
  | NoPgType string oid
  | PgElem string pg_error
  | PgField string string pg_error
  | PgPanic

subsection \<open>The resolver\<close>

definition known_type :: "pgtype \<Rightarrow> string option \<Rightarrow> array_names \<Rightarrow> pg_error + rtype \<times> array_names" where
  "known_type pgt typ st =
     (case typ of
        None \<Rightarrow> Inl UnhandledKnown
      | Some x \<Rightarrow>
          (case known_object x of
             None \<Rightarrow> Inl PgPanic
           | Some t \<Rightarrow>
               (case t of
                  ArrayType n e \<Rightarrow>
                    (case pgt of
                       PgArray i name el \<Rightarrow> Inr (RKnown x t, st(x \<mapsto> name))
                     | _ \<Rightarrow> if IsByteSlice (BaseName t) then Inr (RKnown x t, st)
                            else Inl (NotPgArray (pg_String pgt)))
                | VoidType \<Rightarrow> Inr (RTree VoidType, st)
                | _ \<Rightarrow> Inr (RKnown x t, st))))"

definition find_known :: "pgx_oids \<Rightarrow> bool \<Rightarrow> oid \<Rightarrow> string option option" where
  "find_known oidof nullable i =
     (if nullable then FindKnownTypeNullable oidof i else FindKnownTypeNonNullable oidof i)"

definition composite_name :: "unicode \<Rightarrow> Caser \<Rightarrow> string \<Rightarrow> string" where
  "composite_name U cs pgName =
     (let name = ToUpperGoIdent U cs pgName in
      if name = [] then ChooseFallbackName U pgName ''UnnamedStruct'' else name)"

definition field_name :: "unicode \<Rightarrow> Caser \<Rightarrow> nat \<Rightarrow> string \<Rightarrow> string" where
  "field_name U cs i colName =
     (let ident = ToUpperGoIdent U cs colName in
      if ident = [] then ChooseFallbackName U colName (''UnnamedField'' @ itoa (int i)) else ident)"

text \<open>A composite type has as many column types as column names.\<close>

fun pg_resolve :: "pgx_oids \<Rightarrow> unicode \<Rightarrow> Caser \<Rightarrow> (string \<rightharpoonup> string) \<Rightarrow> string \<Rightarrow> pgtype \<Rightarrow> bool \<Rightarrow> array_names
    \<Rightarrow> pg_error + rtype \<times> array_names"
and resolve_columns :: "pgx_oids \<Rightarrow> unicode \<Rightarrow> Caser \<Rightarrow> (string \<rightharpoonup> string) \<Rightarrow> string \<Rightarrow> string \<Rightarrow> string list
    \<Rightarrow> pgtype list \<Rightarrow> array_names \<Rightarrow> pg_error + rtype list \<times> array_names" where
  "pg_resolve oidof U cs overrides pkgPath pgt nullable st =
     (case overrides (pg_String pgt) of
        Some goType \<Rightarrow>
          (case ParseOpaqueType goType (sql_arg (PgT pgt)) of
             Inl e \<Rightarrow> Inl (CustomType e) | Inr t \<Rightarrow> Inr (RTree t, st))
      | None \<Rightarrow>
          (case find_known oidof nullable (pg_OID pgt) of
             Some typ \<Rightarrow> known_type pgt typ st
           | None \<Rightarrow>
               (case pgt of
                  PgArray i name elem \<Rightarrow>
                    (case elem of
                       None \<Rightarrow> Inl PgPanic
                     | Some e \<Rightarrow>
                         (case pg_resolve oidof U cs overrides pkgPath e nullable st of
                            Inl err \<Rightarrow> Inl (PgElem name err)
                          | Inr (r, st1) \<Rightarrow> Inr (RArray name r, st1)))
                | PgEnum i name labels children \<Rightarrow>
                    (let enum = NewEnumType U cs pkgPath name labels in
                     Inr (RTree (if nullable then PointerType enum else enum), st))
                | PgComposite i name cols types \<Rightarrow>
                    (case resolve_columns oidof U cs overrides pkgPath name cols types st of
                       Inl err \<Rightarrow> Inl err
                     | Inr (rs, st1) \<Rightarrow>
                         Inr (RStruct pkgPath name cols (composite_name U cs name)
                           (map (\<lambda>(k, col). field_name U cs k col) (List.enumerate 0 cols)) rs, st1))
                | _ \<Rightarrow> Inl (NoPgType (pg_String pgt) (pg_OID pgt)))))"
| "resolve_columns oidof U cs overrides pkgPath tname (col # cols) (t # ts) st =
     (case pg_resolve oidof U cs overrides pkgPath t True st of
        Inl err \<Rightarrow> Inl (PgField tname col err)
      | Inr (r, st1) \<Rightarrow>
          (case resolve_columns oidof U cs overrides pkgPath tname cols ts st1 of
             Inl err \<Rightarrow> Inl err
           | Inr (rs, st2) \<Rightarrow> Inr (r # rs, st2)))"
| "resolve_columns oidof U cs overrides pkgPath tname (col # cols) [] st = Inl PgPanic"
| "resolve_columns oidof U cs overrides pkgPath tname [] ts st = Inr ([], st)"

declare pg_resolve.simps [simp del]

text \<open>One call, with the result read when it returns; after an error no further call is made.\<close>

definition resolve_call :: "pgx_oids \<Rightarrow> unicode \<Rightarrow> Caser \<Rightarrow> (string \<rightharpoonup> string) \<Rightarrow> string \<Rightarrow> sqltype \<Rightarrow> bool \<Rightarrow> array_names
    \<Rightarrow> (pg_error + gotype) \<times> array_names" where
  "resolve_call oidof U cs overrides pkgPath t nullable st =
     (case t of
        ChT c \<Rightarrow> (Inl (NotPostgres (type_string c)), st)
      | PgT pgt \<Rightarrow>
          (case pg_resolve oidof U cs overrides pkgPath pgt nullable st of
             Inl e \<Rightarrow> (Inl e, st) | Inr (r, st1) \<Rightarrow> (Inr (deref st1 r), st1)))"

definition pg_Resolve :: "pgx_oids \<Rightarrow> unicode \<Rightarrow> Caser \<Rightarrow> (string \<rightharpoonup> string) \<Rightarrow> sqltype \<Rightarrow> bool \<Rightarrow> string
    \<Rightarrow> pg_error + gotype" where
  "pg_Resolve oidof U cs overrides t nullable pkgPath =
     fst (resolve_call oidof U cs overrides pkgPath t nullable Map.empty)"

end
