(* ===== verification/PgResolveProps.thy ===== *)
theory PgResolveProps
  imports PgResolve GoTypeProps
begin

text \<open>
  Properties of the Postgres type resolver: the shared table of known types does not show in its
  results, and what a nullable column is turned into.
\<close>

subsection \<open>Known types\<close>

definition parse_var :: "string \<times> string option \<Rightarrow> gotype option" where
  "parse_var qa = (case qa of (qualType, None) \<Rightarrow> MustParseKnownType qualType
     | (qualType, Some sqlName) \<Rightarrow> MustParseKnownArrayType qualType sqlName)"

definition var_ok :: "string \<Rightarrow> gotype \<Rightarrow> bool" where
  "var_ok x t \<longleftrightarrow>
     (case t of
        ArrayType n e \<Rightarrow> IsByteSlice (BaseName t) = (x = ''ByteSlice'')
      | ImportType pkg u \<Rightarrow> (case u of OpaqueType n \<Rightarrow> True | _ \<Rightarrow> False) | OpaqueType n \<Rightarrow> True | PointerType u \<Rightarrow> True | _ \<Rightarrow> False)"

lemma known_vars_ok:
  "list_all (\<lambda>(x, qa). case parse_var qa of None \<Rightarrow> False | Some t \<Rightarrow> var_ok x t) known_vars"
  by code_simp

lemma known_object_ok:
  assumes "known_object x = Some t" "x \<noteq> ''PgVoid''"
  shows "var_ok x t"
proof -
  obtain qa where qa: "map_of known_vars x = Some qa" "parse_var qa = Some t"
    using assms by (auto simp: known_object_def parse_var_def bind_eq_Some_conv split: option.splits)
  then have "(x, qa) \<in> set known_vars" by (simp add: map_of_SomeD)
  with known_vars_ok qa(2) show ?thesis by (auto simp: list_all_iff)
qed

subsection \<open>The shared table\<close>

definition is_array :: "gotype \<Rightarrow> bool" where
  "is_array t = (case t of ArrayType n e \<Rightarrow> True | _ \<Rightarrow> False)"

text \<open>The shared arrays a result points to.\<close>

fun rvars :: "rtype \<Rightarrow> string set" where
  "rvars (RKnown x t) = (if is_array t then {x} else {})"
| "rvars (RTree t) = {}"
| "rvars (RArray name r) = rvars r"
| "rvars (RStruct pkgPath sql cols name fnames rs) = (\<Union>r \<in> set rs. rvars r)"

definition agree :: "string set \<Rightarrow> array_names \<Rightarrow> array_names \<Rightarrow> bool" where
  "agree X st st' \<longleftrightarrow> (\<forall>x \<in> X. st x = st' x)"

lemma agree_Un: "agree (X \<union> Y) st st' \<longleftrightarrow> agree X st st' \<and> agree Y st st'"
  by (auto simp: agree_def)

lemma deref_agree: "agree (rvars r) st st' \<Longrightarrow> deref st r = deref st' r"
proof (induction r)
  case (RStruct pkgPath sql cols name fnames rs)
  then have "map (deref st) rs = map (deref st') rs" by (auto simp: agree_def)
  then show ?case by (simp add: Let_def)
qed (auto simp: agree_def with_name_def is_array_def split: gotype.splits option.splits)

text \<open>The branches of the resolver.\<close>

lemma resolve_known:
  "overrides (pg_String pgt) = None \<Longrightarrow> find_known oidof nullable (pg_OID pgt) = Some k \<Longrightarrow>
     pg_resolve oidof U cs overrides pkgPath pgt nullable st = known_type pgt k st"
  by (simp add: pg_resolve.simps)

lemma resolve_array:
  "overrides name = None \<Longrightarrow> find_known oidof nullable i = None \<Longrightarrow>
     pg_resolve oidof U cs overrides pkgPath (PgArray i name (Some e)) nullable st =
       (case pg_resolve oidof U cs overrides pkgPath e nullable st of
          Inl err \<Rightarrow> Inl (PgElem name err) | Inr (r, st1) \<Rightarrow> Inr (RArray name r, st1))"
  by (subst pg_resolve.simps) simp

lemma resolve_nil:
  "overrides name = None \<Longrightarrow> find_known oidof nullable i = None \<Longrightarrow>
     pg_resolve oidof U cs overrides pkgPath (PgArray i name None) nullable st = Inl PgPanic"
  by (subst pg_resolve.simps) simp

lemma resolve_enum:
  "overrides name = None \<Longrightarrow> find_known oidof nullable i = None \<Longrightarrow>
     pg_resolve oidof U cs overrides pkgPath (PgEnum i name labels children) nullable st =
       (let enum = NewEnumType U cs pkgPath name labels in
        Inr (RTree (if nullable then PointerType enum else enum), st))"
  by (subst pg_resolve.simps) simp

definition no_go_type :: "pgtype \<Rightarrow> bool" where
  "no_go_type pgt = (case pgt of PgArray i n e \<Rightarrow> False | PgEnum i n l c \<Rightarrow> False | PgComposite i n c t \<Rightarrow> False | _ \<Rightarrow> True)"

lemma resolve_other:
  "overrides (pg_String pgt) = None \<Longrightarrow> find_known oidof nullable (pg_OID pgt) = None \<Longrightarrow> no_go_type pgt \<Longrightarrow>
     pg_resolve oidof U cs overrides pkgPath pgt nullable st = Inl (NoPgType (pg_String pgt) (pg_OID pgt))"
  by (subst pg_resolve.simps) (simp add: no_go_type_def split: pgtype.splits)

lemma resolve_composite:
  "overrides name = None \<Longrightarrow> find_known oidof nullable i = None \<Longrightarrow>
     pg_resolve oidof U cs overrides pkgPath (PgComposite i name cols types) nullable st =
       (case resolve_columns oidof U cs overrides pkgPath name cols types st of
          Inl err \<Rightarrow> Inl err
        | Inr (rs, st1) \<Rightarrow> Inr (RStruct pkgPath name cols (composite_name U cs name)
             (map (\<lambda>(k, col). field_name U cs k col) (List.enumerate 0 cols)) rs, st1))"
  by (subst pg_resolve.simps) simp

lemmas resolve_branches = resolve_known resolve_array resolve_nil resolve_enum resolve_composite resolve_other

text \<open>Two runs of a call that find the same names in \<open>X\<close> return the same tree and agree on it too.\<close>

definition same_run :: "('r \<Rightarrow> string set) \<Rightarrow> string set \<Rightarrow> pg_error + 'r \<times> array_names \<Rightarrow> pg_error + 'r \<times> array_names \<Rightarrow> bool" where
  "same_run vars X a b \<longleftrightarrow>
     (case (a, b) of
        (Inl e, Inl e') \<Rightarrow> e = e'
      | (Inr (r, st), Inr (r', st')) \<Rightarrow> r = r' \<and> agree (X \<union> vars r) st st'
      | _ \<Rightarrow> False)"

lemma same_run_deref: "same_run rvars X (Inr (r, st)) (Inr (r', st')) \<Longrightarrow> deref st r = deref st' r'"
  by (auto simp: same_run_def agree_Un intro: deref_agree)

lemma known_type_same_run:
  assumes "agree X st st'" "''ByteSlice'' \<in> X"
  shows "same_run rvars X (known_type pgt kt st) (known_type pgt kt st')"
proof (cases kt)
  case (Some x)
  show ?thesis
  proof (cases "known_object x")
    case obj: (Some t)
    have byte: "x = ''ByteSlice''" if "is_array t" "IsByteSlice (BaseName t)"
      using known_object_ok [OF obj] that obj
      by (cases "x = ''PgVoid''") (auto simp: var_ok_def is_array_def known_object_def split: gotype.splits)
    have "same_run rvars X (Inr (RKnown x t, st)) (Inr (RKnown x t, st'))"
      if "\<not> is_array t \<or> IsByteSlice (BaseName t)"
      using assms byte that by (auto simp: same_run_def agree_def)
    moreover have "same_run rvars X (Inr (RKnown x t, st(x \<mapsto> n))) (Inr (RKnown x t, st'(x \<mapsto> n)))" for n
      using assms by (auto simp: same_run_def agree_def)
    moreover have "same_run rvars X (Inr (RTree VoidType, st)) (Inr (RTree VoidType, st'))"
      using assms by (simp add: same_run_def)
    ultimately show ?thesis using Some obj
      by (auto simp: known_type_def is_array_def split: gotype.splits pgtype.splits) (simp_all add: same_run_def)
  qed (simp add: known_type_def Some same_run_def)
qed (simp add: known_type_def same_run_def)

lemma resolve_same_run:
  "agree X st st' \<Longrightarrow> ''ByteSlice'' \<in> X \<Longrightarrow>
     same_run rvars X (pg_resolve oidof U cs overrides pkgPath pgt nullable st)
       (pg_resolve oidof U cs overrides pkgPath pgt nullable st')"
  "agree X st st' \<Longrightarrow> ''ByteSlice'' \<in> X \<Longrightarrow>
     same_run (\<lambda>rs. \<Union>r \<in> set rs. rvars r) X (resolve_columns oidof U cs overrides pkgPath tname cols ts st)
       (resolve_columns oidof U cs overrides pkgPath tname cols ts st')"
proof (induction oidof U cs overrides pkgPath pgt nullable st and oidof U cs overrides pkgPath tname cols ts st
    arbitrary: X st' and X st' rule: pg_resolve_resolve_columns.induct)
  case (1 oidof U cs overrides pkgPath pgt nullable st)
  show ?case
  proof (cases "overrides (pg_String pgt)")
    case (Some g)
    then show ?thesis using 1(3)
      by (cases "ParseOpaqueType g (sql_arg (PgT pgt))") (simp_all add: pg_resolve.simps same_run_def)
  next
    case ov: None
    show ?thesis
    proof (cases "find_known oidof nullable (pg_OID pgt)")
      case (Some k)
      then show ?thesis using ov known_type_same_run [OF 1(3,4)] by (simp add: resolve_known)
    next
      case kn: None
      show ?thesis
      proof (cases pgt)
        case (PgArray i name el)
        show ?thesis
        proof (cases el)
          case (Some e)
          have "same_run rvars X (pg_resolve oidof U cs overrides pkgPath e nullable st)
              (pg_resolve oidof U cs overrides pkgPath e nullable st')"
            using 1(1) [OF ov kn PgArray Some 1(3,4)] .
          then show ?thesis using ov kn PgArray Some by (auto simp: resolve_array same_run_def split: sum.splits)
        qed (use ov kn PgArray in \<open>simp add: resolve_nil same_run_def\<close>)
      next
        case (PgComposite i name cols types)
        have "same_run (\<lambda>rs. \<Union>r \<in> set rs. rvars r) X (resolve_columns oidof U cs overrides pkgPath name cols types st)
            (resolve_columns oidof U cs overrides pkgPath name cols types st')"
          using 1(2) [OF ov kn PgComposite 1(3,4)] .
        then show ?thesis using ov kn PgComposite by (auto simp: resolve_composite same_run_def split: sum.splits)
      qed (use 1(3) ov kn in \<open>simp_all add: resolve_enum resolve_other no_go_type_def same_run_def Let_def\<close>)
    qed
  qed
next
  case (2 oidof U cs overrides pkgPath tname col cols t ts st)
  have head: "same_run rvars X (pg_resolve oidof U cs overrides pkgPath t True st)
      (pg_resolve oidof U cs overrides pkgPath t True st')"
    using 2(1) [OF 2(3,4)] .
  show ?case
  proof (cases "pg_resolve oidof U cs overrides pkgPath t True st")
    case (Inl e)
    with head show ?thesis by (auto simp: same_run_def split: sum.splits)
  next
    case (Inr p)
    then obtain r st1 where r: "pg_resolve oidof U cs overrides pkgPath t True st = Inr (r, st1)" by (cases p) auto
    with head obtain st1' where r': "pg_resolve oidof U cs overrides pkgPath t True st' = Inr (r, st1')"
      and ag: "agree (X \<union> rvars r) st1 st1'"
      by (auto simp: same_run_def split: sum.splits)
    have "same_run (\<lambda>rs. \<Union>r \<in> set rs. rvars r) (X \<union> rvars r)
        (resolve_columns oidof U cs overrides pkgPath tname cols ts st1)
        (resolve_columns oidof U cs overrides pkgPath tname cols ts st1')"
      using 2(2) [OF r refl ag] 2(4) by simp
    then show ?thesis using r r' by (auto simp: same_run_def agree_Un Un_assoc split: sum.splits)
  qed
qed (auto simp: same_run_def)

text \<open>
  No array type has the OID of a type whose Go type is \<^verbatim>\<open>[]byte\<close>; Postgres gives an array an OID of its own.
\<close>

definition own_oid :: "pgx_oids \<Rightarrow> oid \<Rightarrow> bool" where
  "own_oid oidof i \<longleftrightarrow>
     find_known oidof True i \<noteq> Some (Some ''ByteSlice'') \<and> find_known oidof False i \<noteq> Some (Some ''ByteSlice'')"

fun slice_free :: "pgx_oids \<Rightarrow> pgtype \<Rightarrow> bool" where
  "slice_free oidof (PgArray i name el) \<longleftrightarrow>
     own_oid oidof i \<and> (case el of None \<Rightarrow> True | Some e \<Rightarrow> slice_free oidof e)"
| "slice_free oidof (PgComposite i name cols types) \<longleftrightarrow> list_all (slice_free oidof) types"
| "slice_free oidof pgt \<longleftrightarrow> True"

definition keeps_slice :: "pg_error + 'r \<times> array_names \<Rightarrow> bool" where
  "keeps_slice a = (case a of Inl e \<Rightarrow> True | Inr (r, st) \<Rightarrow> st ''ByteSlice'' = None)"

lemma own_oid_find: "own_oid oidof i \<Longrightarrow> find_known oidof nullable i \<noteq> Some (Some ''ByteSlice'')"
  by (cases nullable) (auto simp: own_oid_def)

lemma known_type_keeps_slice:
  assumes "find_known oidof nullable (pg_OID pgt) = Some kt" "slice_free oidof pgt" "st ''ByteSlice'' = None"
  shows "keeps_slice (known_type pgt kt st)"
  using assms own_oid_find [of oidof "pg_OID pgt" nullable]
  by (auto simp: known_type_def keeps_slice_def split: option.splits gotype.splits pgtype.splits)

lemma resolve_keeps_slice:
  "slice_free oidof pgt \<Longrightarrow> st ''ByteSlice'' = None \<Longrightarrow>
     keeps_slice (pg_resolve oidof U cs overrides pkgPath pgt nullable st)"
  "list_all (slice_free oidof) ts \<Longrightarrow> st ''ByteSlice'' = None \<Longrightarrow>
     keeps_slice (resolve_columns oidof U cs overrides pkgPath tname cols ts st)"
proof (induction oidof U cs overrides pkgPath pgt nullable st and oidof U cs overrides pkgPath tname cols ts st
    rule: pg_resolve_resolve_columns.induct)
  case (1 oidof U cs overrides pkgPath pgt nullable st)
  show ?case
  proof (cases "overrides (pg_String pgt)")
    case (Some g)
    then show ?thesis using 1(4) by (simp add: pg_resolve.simps keeps_slice_def split: sum.splits)
  next
    case ov: None
    show ?thesis
    proof (cases "find_known oidof nullable (pg_OID pgt)")
      case (Some k)
      then show ?thesis using ov known_type_keeps_slice [OF Some 1(3), of st] 1(4) by (simp add: resolve_known)
    next
      case kn: None
      show ?thesis
      proof (cases pgt)
        case (PgArray i name el)
        then show ?thesis using ov kn 1(1) [OF ov kn PgArray] 1(3,4)
          by (cases el) (auto simp: resolve_branches keeps_slice_def split: sum.splits)
      next
        case (PgComposite i name cols types)
        then show ?thesis using ov kn 1(2) [OF ov kn PgComposite] 1(3,4)
          by (auto simp: resolve_branches keeps_slice_def split: sum.splits)
      qed (use 1(4) ov kn in \<open>simp_all add: resolve_enum resolve_other no_go_type_def keeps_slice_def Let_def\<close>)
    qed
  qed
next
  case (2 oidof U cs overrides pkgPath tname col cols t ts st)
  have "keeps_slice (pg_resolve oidof U cs overrides pkgPath t True st)" using 2 by simp
  then show ?case using 2(2) 2(3)
    by (auto simp: keeps_slice_def split: sum.splits)
qed (auto simp: keeps_slice_def)

text \<open>A run of the program: one call after the other on the same table.\<close>

fun resolve_session :: "pgx_oids \<Rightarrow> unicode \<Rightarrow> Caser \<Rightarrow> (string \<rightharpoonup> string) \<Rightarrow> (sqltype \<times> bool \<times> string) list \<Rightarrow> array_names
    \<Rightarrow> (pg_error + gotype) list" where
  "resolve_session oidof U cs overrides [] st = []"
| "resolve_session oidof U cs overrides ((t, nullable, pkgPath) # reqs) st =
     (case resolve_call oidof U cs overrides pkgPath t nullable st of
        (res, st1) \<Rightarrow> res # resolve_session oidof U cs overrides reqs st1)"

definition sql_slice_free :: "pgx_oids \<Rightarrow> sqltype \<Rightarrow> bool" where
  "sql_slice_free oidof t = (case t of PgT pgt \<Rightarrow> slice_free oidof pgt | ChT c \<Rightarrow> True)"

lemma resolve_call_pure:
  assumes "st ''ByteSlice'' = None"
  shows "fst (resolve_call oidof U cs overrides pkgPath t nullable st) = pg_Resolve oidof U cs overrides t nullable pkgPath"
proof (cases t)
  case (PgT pgt)
  have "same_run rvars {''ByteSlice''} (pg_resolve oidof U cs overrides pkgPath pgt nullable st)
      (pg_resolve oidof U cs overrides pkgPath pgt nullable Map.empty)"
    using assms resolve_same_run(1) [of "{''ByteSlice''}" st Map.empty] by (simp add: agree_def)
  then show ?thesis using PgT
    by (auto simp: pg_Resolve_def resolve_call_def dest: same_run_deref split: sum.splits)
    (auto simp: same_run_def)
qed (simp add: pg_Resolve_def resolve_call_def)

lemma resolve_call_keeps:
  assumes "sql_slice_free oidof t" "st ''ByteSlice'' = None"
  shows "snd (resolve_call oidof U cs overrides pkgPath t nullable st) ''ByteSlice'' = None"
proof (cases t)
  case (PgT pgt)
  then show ?thesis using assms resolve_keeps_slice(1) [of oidof pgt st U cs overrides pkgPath nullable]
    by (auto simp: resolve_call_def sql_slice_free_def keeps_slice_def split: sum.splits)
qed (use assms in \<open>simp add: resolve_call_def\<close>)

lemma resolve_session_pure:
  "list_all (\<lambda>(t, nullable, pkgPath). sql_slice_free oidof t) reqs \<Longrightarrow> st ''ByteSlice'' = None \<Longrightarrow>
     resolve_session oidof U cs overrides reqs st =
       map (\<lambda>(t, nullable, pkgPath). pg_Resolve oidof U cs overrides t nullable pkgPath) reqs"
proof (induction reqs arbitrary: st)
  case (Cons req reqs)
  obtain t nullable pkgPath where req: "req = (t, nullable, pkgPath)" by (cases req) auto
  obtain res st1 where call: "resolve_call oidof U cs overrides pkgPath t nullable st = (res, st1)" by fastforce
  have "res = pg_Resolve oidof U cs overrides t nullable pkgPath" "st1 ''ByteSlice'' = None"
    using resolve_call_pure [of st oidof U cs overrides pkgPath t nullable]
      resolve_call_keeps [of oidof t st U cs overrides pkgPath nullable] Cons.prems
    by (simp_all add: call req)
  with Cons call show ?case by (simp add: req)
qed simp

subsection \<open>The OIDs of the Postgres catalog\<close>

definition catalog_list :: "(string \<times> oid) list" where
  "catalog_list =
     [(''BoolOID'', 16), (''ByteaOID'', 17), (''QCharOID'', 18), (''NameOID'', 19), (''Int8OID'', 20),
      (''Int2OID'', 21), (''Int4OID'', 23), (''TextOID'', 25), (''OIDOID'', 26), (''TIDOID'', 27),
      (''XIDOID'', 28), (''CIDOID'', 29), (''JSONOID'', 114), (''PointOID'', 600), (''LsegOID'', 601),
      (''PathOID'', 602), (''BoxOID'', 603), (''PolygonOID'', 604), (''LineOID'', 628), (''CIDROID'', 650),
      (''CIDRArrayOID'', 651), (''Float4OID'', 700), (''Float8OID'', 701), (''UnknownOID'', 705),
      (''CircleOID'', 718), (''MacaddrOID'', 829), (''InetOID'', 869), (''BoolArrayOID'', 1000),
      (''ByteaArrayOID'', 1001), (''Int2ArrayOID'', 1005), (''Int4ArrayOID'', 1007),
      (''TextArrayOID'', 1009), (''BPCharArrayOID'', 1014), (''VarcharArrayOID'', 1015),
      (''Int8ArrayOID'', 1016), (''Float4ArrayOID'', 1021), (''Float8ArrayOID'', 1022),
      (''ACLItemOID'', 1033), (''ACLItemArrayOID'', 1034), (''InetArrayOID'', 1041), (''BPCharOID'', 1042),
      (''VarcharOID'', 1043), (''DateOID'', 1082), (''TimeOID'', 1083), (''TimestampOID'', 1114),
      (''TimestampArrayOID'', 1115), (''DateArrayOID'', 1182), (''TimestamptzOID'', 1184),
      (''TimestamptzArrayOID'', 1185), (''IntervalOID'', 1186), (''NumericArrayOID'', 1231),
      (''BitOID'', 1560), (''VarbitOID'', 1562), (''NumericOID'', 1700), (''RecordOID'', 2249),
      (''UUIDOID'', 2950), (''UUIDArrayOID'', 2951), (''JSONBOID'', 3802), (''JSONBArrayOID'', 3807),
      (''Int4rangeOID'', 3904), (''NumrangeOID'', 3906), (''TsrangeOID'', 3908), (''TstzrangeOID'', 3910),
      (''DaterangeOID'', 3912), (''Int8rangeOID'', 3926)]"

definition catalog_oids :: pgx_oids where
  "catalog_oids x = (case map_of catalog_list x of None \<Rightarrow> 0 | Some i \<Rightarrow> i)"

lemma catalog_values: "list_all (\<lambda>(x, i). catalog_oids x = i) catalog_list"
  by code_simp

lemmas catalog_value = catalog_values [unfolded catalog_list_def list.pred_inject prod.case]

lemma catalog_entries:
  "map_of (knownTypesByOID catalog_oids) 25 = Some (known_go (Some ''PgText'') (Some ''Stringp'') (Some ''String''))"
  "map_of (knownTypesByOID catalog_oids) 1009 = Some (known_go (Some ''StringSlice'') (Some ''StringSlice'') None)"
  "map_of (knownTypesByOID catalog_oids) 1015 = Some (known_go (Some ''StringSlice'') None None)"
  by (simp_all add: knownTypesByOID_def catalog_value VoidOID_def OIDArrayOID_def MacaddrArrayOID_def)

lemma catalog_objects:
  "known_object ''Stringp'' = Some (PointerType (OpaqueType ''string''))"
  "known_object ''StringSlice'' = Some (ArrayType ''_text'' (OpaqueType ''string''))"
  by code_simp+

lemma catalog_find:
  "find_known catalog_oids True 25 = Some (Some ''Stringp'')"
  "find_known catalog_oids nullable 1009 = Some (Some ''StringSlice'')"
  "find_known catalog_oids nullable 1015 = Some (Some ''StringSlice'')"
  by (simp_all add: find_known_def FindKnownTypeNullable_def FindKnownTypeNonNullable_def catalog_entries known_go_def)

subsection \<open>Nullable columns\<close>

text \<open>The variables that hold a predeclared type such as \<^verbatim>\<open>string\<close>.\<close>

definition bare_vars :: "string list" where
  "bare_vars = [''Bool'', ''Int'', ''Int16'', ''Int32'', ''Int64'', ''Uint'', ''Uint16'', ''Uint32'', ''Uint64'', ''String'',
     ''Float32'', ''Float64'']"

lemma known_vars_bare:
  "list_all (\<lambda>(x, qa). case parse_var qa of Some (OpaqueType n) \<Rightarrow> x \<in> set bare_vars | _ \<Rightarrow> True) known_vars"
  by code_simp

text \<open>The types that have no Go type which can hold NULL.\<close>

definition null_gaps :: "pgx_oids \<Rightarrow> oid set" where
  "null_gaps oidof = oidof ` {''OIDOID'', ''TIDOID'', ''XIDOID'', ''CIDOID'', ''CIDROID'', ''UnknownOID'', ''ACLItemOID''}"

definition null_entry :: "pgx_oids \<Rightarrow> oid \<times> knownGoType \<Rightarrow> bool" where
  "null_entry oidof ik \<longleftrightarrow>
     (case ik of (i, k) \<Rightarrow>
        i \<in> null_gaps oidof \<or> list_all (\<lambda>x. (if kg_nullable k \<noteq> None then kg_nullable k else kg_native k) \<noteq> Some x) bare_vars)"

lemma null_entries: "list_all (null_entry oidof) (knownTypesByOID oidof)"
  unfolding knownTypesByOID_def list.pred_inject
  by (intro conjI TrueI; simp add: null_entry_def known_go_def bare_vars_def null_gaps_def)

text \<open>
  A Go type that has a value for NULL: a pointer, a slice, or a type of a driver package. A predeclared
  type, a struct and a string type have none.
\<close>

fun holds_null :: "gotype \<Rightarrow> bool" where
  "holds_null (OpaqueType n) = False"
| "holds_null (CompositeType sql cols name fnames types) = False"
| "holds_null (EnumType sql name labels vals) = False"
| "holds_null (ImportType pkg (OpaqueType n)) = True"
| "holds_null (ImportType pkg t) = False"
| "holds_null t = True"

lemma known_nullable:
  assumes "FindKnownTypeNullable oidof i = Some (Some x)" "known_object x = Some t"
  shows "i \<in> null_gaps oidof \<or> holds_null t"
proof -
  obtain k where k: "(i, k) \<in> set (knownTypesByOID oidof)"
    and x: "(if kg_nullable k \<noteq> None then kg_nullable k else kg_native k) = Some x"
    using assms(1) by (auto simp: FindKnownTypeNullable_def dest: map_of_SomeD)
  have "i \<in> null_gaps oidof \<or> x \<notin> set bare_vars"
    using null_entries [of oidof] k x by (force simp: list_all_iff null_entry_def)
  moreover have "holds_null t" if bare: "x \<notin> set bare_vars"
  proof (cases "x = ''PgVoid''")
    case True
    then show ?thesis using assms(2) by (simp add: known_object_def)
  next
    case False
    then obtain qa where qa: "map_of known_vars x = Some qa" "parse_var qa = Some t"
      using assms(2) by (auto simp: known_object_def parse_var_def bind_eq_Some_conv split: option.splits)
    then have "(x, qa) \<in> set known_vars" by (simp add: map_of_SomeD)
    with known_vars_bare qa(2) bare have "t \<noteq> OpaqueType n" for n by (force simp: list_all_iff)
    with known_object_ok [OF assms(2) False] show ?thesis
      by (auto simp: var_ok_def split: gotype.splits)
  qed
  ultimately show ?thesis by blast
qed

lemma deref_known: "holds_null t \<Longrightarrow> holds_null (with_name n t)"
  by (auto simp: with_name_def split: gotype.splits option.splits)

text \<open>C14: a nullable column gets a Go type that can hold NULL, unless it is a composite type, which becomes a
  struct, or one of seven types, such as oid and cidr, whose only Go type is \<^verbatim>\<open>uint32\<close> or \<^verbatim>\<open>string\<close>.
\<close>

theorem nullable_column_type:
  assumes "overrides (pg_String pgt) = None"
    and "pg_Resolve oidof U cs overrides (PgT pgt) True pkgPath = Inr g"
  shows "holds_null g \<or> pg_OID pgt \<in> null_gaps oidof \<or> pg_Kind pgt = KindCompositeType"
proof -
  obtain r st where r: "pg_resolve oidof U cs overrides pkgPath pgt True Map.empty = Inr (r, st)" "g = deref st r"
    using assms(2) by (auto simp: pg_Resolve_def resolve_call_def split: sum.splits)
  show ?thesis
  proof (cases "find_known oidof True (pg_OID pgt)")
    case (Some k)
    then have "known_type pgt k Map.empty = Inr (r, st)" using r assms(1) by (simp add: resolve_known)
    then obtain x t where x: "k = Some x" "known_object x = Some t" and "r = RKnown x t \<or> r = RTree VoidType"
      by (auto simp: known_type_def split: option.splits gotype.splits pgtype.splits if_splits)
    with known_nullable [of oidof "pg_OID pgt" x t] Some r(2) deref_known [of t] show ?thesis
      by (auto simp: find_known_def)
  next
    case None
    show ?thesis
    proof (cases pgt)
      case (PgArray i name el)
      then show ?thesis using r assms(1) None
        by (cases el) (auto simp: resolve_array resolve_nil NewArrayType_def split: sum.splits)
    qed (use r assms(1) None in \<open>auto simp: resolve_enum resolve_other no_go_type_def Let_def\<close>)
  qed
qed

theorem nullable_column_type_witness:
  "holds_null (PointerType (OpaqueType ''string'')) \<or> pg_OID (PgBase 25 ''text'') \<in> null_gaps catalog_oids \<or>
     pg_Kind (PgBase 25 ''text'') = KindCompositeType"
proof -
  have "pg_Resolve catalog_oids latin1 NewCaser Map.empty (PgT (PgBase 25 ''text'')) True ''db'' =
      Inr (PointerType (OpaqueType ''string''))"
    by (simp add: pg_Resolve_def resolve_call_def resolve_known catalog_find catalog_objects known_type_def with_name_def)
  then show ?thesis
    using nullable_column_type [of Map.empty "PgBase 25 ''text''" catalog_oids latin1 NewCaser "''db''"] by simp
qed

subsection \<open>One table for all calls\<close>


definition two_arrays :: "(sqltype \<times> bool \<times> string) list" where
  "two_arrays = [(PgT (PgArray 1009 ''_text'' None), False, ''db''), (PgT (PgArray 1015 ''_varchar'' None), False, ''db'')]"


end
