(* ===== verification/TypeResolver.thy ===== *)
theory TypeResolver
  imports TemplaterImports PgResolveProps ChResolve
begin

text \<open>
  The interface \<^verbatim>\<open>TypeResolver\<close> between the templater and the two dialects: what the templater relies on so
  that naming packages never panics, and that both resolvers promise it.
\<close>

subsection \<open>Packages with a short name\<close>

definition short_ok :: "string \<Rightarrow> bool" where
  "short_ok p \<longleftrightarrow> p \<noteq> [] \<and> ExtractShortPackage p \<noteq> None"

lemma Split_two: "c \<in> set p \<Longrightarrow> 2 \<le> length (Split p c)"
proof (induction p)
  case (Cons x p)
  have "1 \<le> length (Split p c)" by (cases "Split p c") (use Split_ne [of p c] in auto)
  with Cons show ?case by (cases "x = c") (auto split: list.splits)
qed simp

lemma Split_whole: "c \<notin> set p \<Longrightarrow> Split p c = [p]"
  by (induction p) auto

lemma IsImportPath_short:
  assumes "IsImportPath p"
  shows "short_ok p"
proof -
  have std: "list_all short_ok stdPackages" by code_simp
  consider "CHR ''/'' \<in> set p" | "CHR ''.'' \<in> set p" "CHR ''/'' \<notin> set p" | "p \<in> set stdPackages"
    using assms by (auto simp: IsImportPath_def list_ex_iff)
  then show ?thesis
  proof cases
    case 1
    then show ?thesis using Split_two [of "CHR ''/''" p] by (auto simp: short_ok_def ExtractShortPackage_def Let_def)
  next
    case 2
    have "\<not> is_digit CHR ''.''" by code_simp
    with 2 have "\<not> majorVersion p" by (cases p) (auto simp: majorVersion_def list_all_iff)
    with 2 show ?thesis by (auto simp: short_ok_def ExtractShortPackage_def Let_def Split_whole)
  qed (use std in \<open>auto simp: list_all_iff\<close>)
qed

lemma parse_named_pkgs: "parse_named q bs = Inr g \<Longrightarrow> p \<in> pkgs g \<Longrightarrow> short_ok p"
  by (auto simp: parse_named_def pkgs_def Let_def IsImportPath_short split: option.splits if_splits)

lemma pkgs_simps [simp]:
  "pkgs (ArrayType sql t) = pkgs t" "pkgs (PointerType t) = pkgs t" "pkgs (OpaqueType n) = {}" "pkgs VoidType = {}"
  "pkgs (EnumType sql name labels vals) = {}" "pkgs (ImportType pkg t) = insert pkg (pkgs t)"
  "pkgs (MapType sql k v) = pkgs k \<union> pkgs v"
  "pkgs (CompositeType sql cols name fnames types) = (\<Union>t \<in> set types. pkgs t)"
  by (auto simp: pkgs_def)

lemma ParseOpaqueType_pkgs: "ParseOpaqueType q a = Inr g \<Longrightarrow> p \<in> pkgs g \<Longrightarrow> short_ok p"
  by (auto simp: ParseOpaqueType_def parse_pointer_def parse_named_pkgs split: if_splits option.splits bool.splits prod.splits)

lemma MustParse_pkgs: "mustParseOpaqueType q a = Some g \<Longrightarrow> p \<in> pkgs g \<Longrightarrow> short_ok p"
  by (auto simp: mustParseOpaqueType_def ParseOpaqueType_pkgs split: sum.splits)

subsection \<open>Where the templater panics\<close>

definition guess_ok :: "'e Templater \<Rightarrow> bool" where
  "guess_ok tm \<longleftrightarrow> (\<forall>path pkg. tm_guess tm path = Some pkg \<longrightarrow> pkg = [] \<or> short_ok pkg)"

lemma QualifyType_total:
  "pkgs t \<subseteq> insert [] (Collect short_ok) \<Longrightarrow> \<exists>s. QualifyType t other aliases = Some s"
proof (induction t)
  case (ImportType pkg t)
  then have "pkg = [] \<or> short_ok pkg" by simp
  then show ?case by (auto simp: Let_def short_ok_def split: option.splits)
qed auto

lemma all_some_None: "all_some xs = None \<longleftrightarrow> None \<in> set xs"
  by (induction xs) (auto simp: bind_eq_None_conv)

lemma templated_query_total:
  assumes "\<And>t. t \<in> set (qd_types qd) \<Longrightarrow> pkgs t \<subseteq> insert [] (Collect short_ok)"
  shows "templated_query U tm pkgPath aliases qd \<noteq> None"
proof -
  have "\<exists>s. QualifyType t pkgPath aliases = Some s" if "t \<in> set (qd_inputs qd) \<or> t \<in> set (qd_outputs qd)" for t
    using QualifyType_total assms that by (auto simp: qd_types_def)
  then have "None \<notin> set (map (templated_param U tm pkgPath aliases n) (List.enumerate 0 (zip xs (qd_inputs qd))))"
    "None \<notin> set (map (templated_column U tm pkgPath aliases n) (List.enumerate 0 (zip ys (qd_outputs qd))))" for n xs ys
    by (fastforce simp: templated_param_def templated_column_def dest: enumerate_zip_snd)+
  then show ?thesis unfolding templated_query_def Let_def bind_eq_None_conv all_some_None option.map_disc_iff by blast
qed

lemma short_names_total: "list_all short_ok ps \<Longrightarrow> \<exists>rs. short_names ps = Some rs"
  by (induction ps) (auto simp: short_ok_def)

lemma SortedImports_total:
  assumes "set_imports s \<subseteq> insert [] (Collect short_ok)"
  shows "SortedImports s \<noteq> None"
proof -
  have "list_all short_ok (SortedPackages s)"
    using assms by (cases "finite (set_imports s - {[]})") (auto simp: SortedPackages_def list_all_iff)
  from short_names_total [OF this] show ?thesis by (auto simp: SortedImports_def)
qed

lemma base_imports_short: "set_imports (base_imports d) \<subseteq> insert [] (Collect short_ok)"
proof -
  have "list_all short_ok [''context'', ''fmt'', ''github.com/ClickHouse/clickhouse-go/v2'',
      ''github.com/ClickHouse/clickhouse-go/v2/lib/driver'', ''github.com/jackc/pgx/v5'', ''github.com/jackc/pgx/v5/pgconn'']"
    by code_simp
  then show ?thesis by (auto simp: base_imports_def Let_def AddPackage_def NewImportSet_def)
qed

lemma no_panic_Inl: "no_panic x = Inl e \<longleftrightarrow> x = None \<and> e = TmPanic"
  by (cases x) (auto simp: no_panic_def)

lemma lift_row_no_panic: "lift_row r \<noteq> Inl TmPanic"
  by (cases r) (simp_all add: lift_row_def)

lemma seq_res_Inl: "seq_res ms = Inl e \<Longrightarrow> Inl e \<in> set ms"
  by (induction ms) (auto simp: res_bind_Inl)

lemma resolve_inputs_no_panic: "resolve_inputs tm pkgPath qname inputs st \<noteq> Inl TmPanic"
  by (induction inputs arbitrary: st) (auto split: sum.splits)

lemma resolve_outputs_no_panic: "resolve_outputs tm pkgPath qname outs st \<noteq> Inl TmPanic"
  by (induction outs arbitrary: st) (auto split: sum.splits)

lemma first_pass_no_panic: "first_pass tm pkgPath queries st \<noteq> Inl TmPanic"
  by (induction queries arbitrary: st)
    (auto simp: res_bind_Inl resolve_inputs_no_panic resolve_outputs_no_panic)

subsection \<open>The contract\<close>

text \<open>A resolved type comes from the package of the file or from packages with a short name.\<close>

locale type_resolver =
  fixes resolve :: "sqltype \<Rightarrow> bool \<Rightarrow> string \<Rightarrow> 'e + gotype"
  assumes named: "resolve t nullable pkgPath = Inr g \<Longrightarrow> p \<in> pkgs g \<Longrightarrow> p = pkgPath \<or> short_ok p"
begin

lemma resolve_inputs_named:
  "resolve_inputs tm pkgPath qname inputs st = Inr (ts, st1) \<Longrightarrow> tm_resolver tm = resolve \<Longrightarrow> t \<in> set ts \<Longrightarrow> p \<in> pkgs t \<Longrightarrow>
     p = pkgPath \<or> short_ok p"
proof (induction inputs arbitrary: st ts)
  case (Cons input inputs)
  then obtain g ts1 where g: "resolve (ip_type input) (False) pkgPath = Inr g"
    and ts: "ts = g # ts1" "resolve_inputs tm pkgPath qname inputs (note_type g st) = Inr (ts1, st1)"
    by (auto split: sum.splits)
  then show ?case using Cons.IH [OF ts(2) Cons.prems(2)] Cons.prems(3,4) named [OF g] by auto
qed simp

lemma resolve_outputs_named:
  "resolve_outputs tm pkgPath qname outs st = Inr (ts, st1) \<Longrightarrow> tm_resolver tm = resolve \<Longrightarrow> t \<in> set ts \<Longrightarrow> p \<in> pkgs t \<Longrightarrow>
     p = pkgPath \<or> short_ok p"
proof (induction outs arbitrary: st ts)
  case (Cons out outs)
  then obtain g ts1 where g: "resolve (oc_type out) (oc_nullable out) pkgPath = Inr g"
    and ts: "ts = g # ts1" "resolve_outputs tm pkgPath qname outs (note_type g st) = Inr (ts1, st1)"
    by (auto split: sum.splits)
  then show ?case using Cons.IH [OF ts(2) Cons.prems(2)] Cons.prems(3,4) named [OF g] by auto
qed simp

lemma first_pass_named:
  "first_pass tm pkgPath queries st = Inr (qds, st1) \<Longrightarrow> tm_resolver tm = resolve \<Longrightarrow> qd \<in> set qds \<Longrightarrow> t \<in> set (qd_types qd) \<Longrightarrow>
     p \<in> pkgs t \<Longrightarrow> p = pkgPath \<or> short_ok p"
proof (induction queries arbitrary: st qds)
  case (Cons query queries)
  then obtain ins st2 outs st3 qds3 where
    ins: "resolve_inputs tm pkgPath (tq_name query) (tq_inputs query) st = Inr (ins, st2)" and
    outs: "resolve_outputs tm pkgPath (tq_name query) (tq_outputs query) st2 = Inr (outs, st3)" and
    rec: "first_pass tm pkgPath queries st3 = Inr (qds3, st1)" and
    qds: "qds = \<lparr>qd_query = query, qd_doc = doc_text (tq_doc query), qd_inputs = ins, qd_outputs = outs\<rparr> # qds3"
    by (auto simp: res_bind_Inr map_res_Inr)
  have "t \<in> set ins \<or> t \<in> set outs \<or> qd \<in> set qds3" using Cons.prems(3,4) by (auto simp: qds qd_types_def)
  then show ?case
    using resolve_inputs_named [OF ins Cons.prems(2) _ Cons.prems(5)] resolve_outputs_named [OF outs Cons.prems(2) _ Cons.prems(5)]
      Cons.IH [OF rec Cons.prems(2) _ Cons.prems(4,5)] by blast
qed simp

lemma templateFile_no_panic:
  assumes "tm_resolver tm = resolve" "guess_ok tm"
  shows "templateFile U tm file isLeader \<noteq> Inl TmPanic"
proof
  define pkgPath where "pkgPath = (case tm_guess tm (qf_SourcePath file) of None \<Rightarrow> [] | Some pkg \<Rightarrow> pkg)"
  have path: "pkgPath = [] \<or> short_ok pkgPath" using assms(2) by (auto simp: pkgPath_def guess_ok_def split: option.splits)
  assume "templateFile U tm file isLeader = Inl TmPanic"
  then obtain qds st where
    pass: "first_pass tm pkgPath (qf_Queries file)
      \<lparr>ps_imports = base_imports (tm_dialect tm), ps_declarers = NewDeclarerSet [], ps_names = {}\<rparr> = Inr (qds, st)"
    and panic: "SortedImports (ps_imports st) = None \<or>
      (\<exists>aliases. all_some (map (templated_query U tm pkgPath aliases) qds) = None)"
    using first_pass_no_panic [of tm pkgPath "qf_Queries file"]
    by (auto simp: templateFile_def Let_def res_bind_Inl no_panic_Inl AliasMap_imports pkgPath_def [symmetric])
  have types: "pkgs t \<subseteq> insert [] (Collect short_ok)" if "qd \<in> set qds" "t \<in> set (qd_types qd)" for qd t
    using first_pass_named [OF pass assms(1) that] path by auto
  have imps: "set_imports (ps_imports st) \<subseteq> insert [] (Collect short_ok)"
    using first_pass_imports [OF pass] types base_imports_short [of "tm_dialect tm"] by auto
  then have "SortedImports (ps_imports st) \<noteq> None" using SortedImports_total [of "ps_imports st"] by blast
  moreover have "templated_query U tm pkgPath aliases qd \<noteq> None" if "qd \<in> set qds" for qd aliases
    using templated_query_total [of qd] types [OF that] by blast
  ultimately show False using panic unfolding all_some_None set_map by (metis (no_types, lifting) imageE)
qed

lemma TemplateAll_no_panic:
  assumes "tm_resolver tm = resolve" "guess_ok tm" "leader_index (map qf_SourcePath files) \<noteq> None"
  shows "TemplateAll U tm files \<noteq> Inl TmPanic"
proof
  assume "TemplateAll U tm files = Inl TmPanic"
  then have "template_files U tm files = Inl TmPanic"
    using assms(3) unfolding TemplateAll_def Let_def
    by (simp only: res_bind_Inl no_panic_Inl lift_row_no_panic sum.distinct simp_thms ex_simps)
  then obtain x where "(case x of (i, f) \<Rightarrow> templateFile U tm f (leader_index (map qf_SourcePath files) = Some i)) = Inl TmPanic"
    unfolding template_files_def by (metis (no_types, lifting) seq_res_Inl ex_map_conv in_set_conv_nth nth_map length_map)
  then show False using templateFile_no_panic [OF assms(1,2)] by (cases x) simp
qed

end

subsection \<open>ClickHouse\<close>

lemma ch_resolve_pkgs: "ch_resolve overrides t = Inr g \<Longrightarrow> p \<in> pkgs g \<Longrightarrow> short_ok p"
proof (induction t arbitrary: g)
qed (auto simp: ch_resolve.simps MustParseKnownType_def lift_override_def ParseOpaqueType_pkgs MustParse_pkgs bind_eq_Some_conv
    split: option.splits sum.splits)

interpretation ch_res: type_resolver "ch_Resolve overrides" for overrides
  by unfold_locales (auto simp: ch_Resolve_def ch_resolve_pkgs split: sqltype.splits)

subsection \<open>Postgres\<close>

lemma known_object_pkgs: "known_object x = Some t \<Longrightarrow> p \<in> pkgs t \<Longrightarrow> short_ok p"
  by (auto simp: known_object_def bind_eq_Some_conv MustParseKnownType_def MustParseKnownArrayType_def MustParse_pkgs
      split: if_splits option.splits)

lemma pkgs_with_name: "pkgs (with_name n t) = pkgs t"
  by (auto simp: with_name_def split: gotype.splits option.splits)

lemma known_type_pkgs:
  "known_type pgt kt st = Inr (r, st1) \<Longrightarrow> p \<in> pkgs (deref st2 r) \<Longrightarrow> short_ok p"
  by (auto simp: known_type_def pkgs_with_name dest: known_object_pkgs
      split: option.splits gotype.splits pgtype.splits if_splits)

lemma NewEnumType_pkgs: "p \<in> pkgs (NewEnumType U cs pkgPath name labels) \<Longrightarrow> p = pkgPath"
  by (auto simp: NewEnumType_def Let_def split: if_splits)

lemma pg_resolve_pkgs:
  "pg_resolve oidof U cs overrides pkgPath pgt nullable st = Inr (r, st1) \<Longrightarrow> p \<in> pkgs (deref st2 r) \<Longrightarrow>
     p = pkgPath \<or> short_ok p"
  "resolve_columns oidof U cs overrides pkgPath tname cols ts st = Inr (rs, st1) \<Longrightarrow> r \<in> set rs \<Longrightarrow> p \<in> pkgs (deref st2 r) \<Longrightarrow>
     p = pkgPath \<or> short_ok p"
proof (induction oidof U cs overrides pkgPath pgt nullable st and oidof U cs overrides pkgPath tname cols ts st
    arbitrary: r st1 and r rs st1 rule: pg_resolve_resolve_columns.induct)
  case (1 oidof U cs overrides pkgPath pgt nullable st)
  show ?case
  proof (cases "overrides (pg_String pgt)")
    case (Some g)
    then show ?thesis using 1(3,4) by (auto simp: pg_resolve.simps ParseOpaqueType_pkgs split: sum.splits)
  next
    case ov: None
    show ?thesis
    proof (cases "find_known oidof nullable (pg_OID pgt)")
      case (Some k)
      then show ?thesis using ov 1(3,4) by (auto simp: resolve_known dest: known_type_pkgs)
    next
      case kn: None
      show ?thesis
      proof (cases pgt)
        case (PgArray i name el)
        show ?thesis
        proof (cases el)
          case (Some e)
          then show ?thesis using 1(1) [OF ov kn PgArray Some] 1(3,4) ov kn PgArray
            by (auto simp: resolve_array NewArrayType_def split: sum.splits)
        qed (use ov kn PgArray 1(3) in \<open>auto simp: resolve_nil\<close>)
      next
        case (PgComposite i name cols types)
        then show ?thesis using 1(2) [OF ov kn PgComposite] 1(3,4) ov kn
          by (auto simp: resolve_composite Let_def split: sum.splits if_splits)
      qed (use 1(3,4) ov kn in \<open>auto simp: resolve_enum resolve_other no_go_type_def Let_def NewEnumType_pkgs split: if_splits\<close>)
    qed
  qed
next
  case (2 oidof U cs overrides pkgPath tname col cols t ts st)
  then show ?case by (fastforce split: sum.splits)
qed auto

interpretation pg_res: type_resolver "pg_Resolve oidof U cs overrides" for oidof U cs overrides
  by unfold_locales (auto simp: pg_Resolve_def resolve_call_def dest: pg_resolve_pkgs(1) split: sqltype.splits sum.splits)

end
