(* ===== verification/Texts.thy ===== *)
theory Texts
  imports Utf8Enc
begin

text \<open>
  Removing the indentation of a text literal, \<^verbatim>\<open>internal/texts/dedent.go\<close>. A loop \<^verbatim>\<open>for i, r := range line\<close>
  decodes runes and counts bytes; the loop from the end of a line reads single bytes as runes.
\<close>

definition IsSpace :: "int \<Rightarrow> bool" where
  "IsSpace r \<longleftrightarrow> 9 \<le> r \<and> r \<le> 13 \<or> r = 0x20 \<or> r = 0x85 \<or> r = 0xA0 \<or> r = 0x1680 \<or> 0x2000 \<le> r \<and> r \<le> 0x200A \<or>
     r = 0x2028 \<or> r = 0x2029 \<or> r = 0x202F \<or> r = 0x205F \<or> r = 0x3000"

text \<open>The byte index of the first rune that is no space, or the length of the line.\<close>

function line_indent :: "string \<Rightarrow> nat" where
  "line_indent line =
     (if line = [] then 0
      else case DecodeRune line of (r, w) \<Rightarrow> if IsSpace r then w + line_indent (drop w line) else 0)"
  by pat_completeness auto
termination
  by (relation "measure length") (auto dest!: sym [of "(_, _)"] dest: DecodeRune_width)

declare line_indent.simps [simp del]

definition min_indent :: "int \<Rightarrow> string list \<Rightarrow> int" where
  "min_indent indent lines =
     fold (\<lambda>line ind. let lineIndent = line_indent line in
       if lineIndent \<noteq> length line \<and> int lineIndent < ind then int lineIndent else ind) lines indent"

definition has_text :: "string \<Rightarrow> bool" where
  "has_text line = list_ex (\<lambda>r. \<not> IsSpace r) (runes line)"

text \<open>The leading spaces, as a number of runes, and where the trailing bytes that are spaces start.\<close>

definition lead_spaces :: "string \<Rightarrow> nat" where
  "lead_spaces line = length (takeWhile IsSpace (runes line))"

definition text_end :: "string \<Rightarrow> nat" where
  "text_end line = length line - length (takeWhile (\<lambda>b. IsSpace (int (byte_val b))) (rev line))"

definition dedent_line :: "int \<Rightarrow> bool \<Rightarrow> string \<Rightarrow> string" where
  "dedent_line indent more_lines line =
     (let lo = lead_spaces line; hi = text_end line in
      if lo \<ge> hi then [CHR 0x0A]
      else let lo1 = (if int lo > indent then nat indent else lo) in
        drop lo1 (take hi line) @ (if more_lines then [CHR 0x0A] else []))"

definition MaxInt32 :: int where
  "MaxInt32 = 2147483647"

definition Dedent :: "string \<Rightarrow> string" where
  "Dedent txt =
     (let lines = Split txt CHR 0x0A; indent = min_indent MaxInt32 lines;
          start = (if has_text (hd lines) then 0 else 1);
          stop = (if has_text (last lines) then length lines else length lines - 1) in
      if stop < start then txt
      else concat (map (\<lambda>(i, line). dedent_line indent (i < stop - start - 1) line)
        (List.enumerate 0 (drop start (take stop lines)))))"

text \<open>The byte at the end of a two-byte rune may be that of a space: the text loses half of the letter.\<close>

lemma Dedent_cuts_rune:
  "runes [CHR ''l'', CHR 0xC3, CHR 0xA0] = [108, 0xE0] \<and>
   Dedent [CHR 0x09, CHR ''l'', CHR 0xC3, CHR 0xA0] = [CHR ''l'', CHR 0xC3]"
  by code_simp

end
