(* ===== verification/PgColumns.thy ===== *)
theory PgColumns
  imports Texts SqlTypes
begin

text \<open>
  Columns of Postgres tables, \<^verbatim>\<open>internal/pg/column.go\<close>, fetched from the catalog and kept in a cache that
  lives as long as the program. The connection is a parameter: the rows a catalog query gives.
\<close>

record Column =
  cl_Name :: string
  cl_TableOID :: oid
  cl_TableName :: string
  cl_Number :: "16 word"
  cl_Null :: bool

record ColumnKey =
  ck_TableOID :: oid
  ck_Number :: "16 word"

text \<open>The column a Go map gives for a key it does not have.\<close>

definition zero_column :: Column where
  "zero_column = \<lparr>cl_Name = [], cl_TableOID = 0, cl_TableName = [], cl_Number = 0, cl_Null = False\<rparr>"

datatype column_error =
    ColumnQuery string
  | UnfetchedColumn oid "16 word"

type_synonym column_cache = "ColumnKey \<rightharpoonup> Column"

text \<open>
  A row of the catalog query: table, table name, column name, column number and the not-null flag. The
  left case is an error of the query, of scanning a row or of the iteration.
\<close>

type_synonym column_rows = "string + (oid \<times> string \<times> string \<times> 16 word \<times> bool) list"

definition key_predicate :: "ColumnKey \<Rightarrow> string" where
  "key_predicate key =
     ''(cls.oid = '' @ itoa (uint (ck_TableOID key)) @ '' AND attr.attnum = '' @ itoa (uint (ck_Number key)) @ '')''"

definition column_select :: string where
  "column_select =
     (let tab = CHR 0x09; nl = CHR 0x0A in
      [nl, tab, tab] @ ''SELECT cls.oid         AS table_oid,'' @
      [nl] @ replicate 5 tab @ '' cls.relname     AS table_name,'' @
      [nl] @ replicate 5 tab @ '' attr.attname    AS col_name,'' @
      [nl] @ replicate 5 tab @ '' attr.attnum     AS col_num,'' @
      [nl] @ replicate 5 tab @ '' attr.attnotnull AS col_null'' @
      [nl, tab, tab] @ ''FROM pg_class cls'' @
      [nl] @ replicate 5 tab @ '' JOIN pg_attribute attr ON (attr.attrelid = cls.oid)'' @ [nl, tab])"

definition column_query :: "ColumnKey list \<Rightarrow> string" where
  "column_query keys =
     Dedent column_select @ [CHR 0x0A] @ ''WHERE '' @ strings_Join ([CHR 0x0A] @ ''    OR '') (map key_predicate keys)"

fun fetchCachedColumns :: "column_cache \<Rightarrow> ColumnKey list \<Rightarrow> column_error + Column list" where
  "fetchCachedColumns columnCache [] = Inr []"
| "fetchCachedColumns columnCache (key # keys) =
     (let ok = (columnCache key \<noteq> None);
          col = (case columnCache key of None \<Rightarrow> zero_column | Some c \<Rightarrow> c) in
      if \<not> ok \<and> cl_TableOID col > 0 then Inl (UnfetchedColumn (ck_TableOID key) (ck_Number key))
      else map_res (\<lambda>cols. col # cols) (fetchCachedColumns columnCache keys))"

definition add_column :: "oid \<times> string \<times> string \<times> 16 word \<times> bool \<Rightarrow> column_cache \<Rightarrow> column_cache" where
  "add_column row columnCache =
     (case row of (table, tableName, name, number, notNull) \<Rightarrow>
        columnCache(\<lparr>ck_TableOID = table, ck_Number = number\<rparr> \<mapsto>
          \<lparr>cl_Name = name, cl_TableOID = table, cl_TableName = tableName, cl_Number = number, cl_Null = \<not> notNull\<rparr>))"

definition uncached_keys :: "column_cache \<Rightarrow> ColumnKey list \<Rightarrow> ColumnKey list" where
  "uncached_keys columnCache keys = filter (\<lambda>key. columnCache key = None \<and> ck_TableOID key > 0) keys"

definition FetchColumns :: "(string \<Rightarrow> column_rows) \<Rightarrow> ColumnKey list \<Rightarrow> column_cache
    \<Rightarrow> (column_error + Column list) \<times> column_cache" where
  "FetchColumns conn keys columnCache =
     (if keys = [] then (Inr [], columnCache)
      else let uncachedKeys = uncached_keys columnCache keys in
        if uncachedKeys = [] then (fetchCachedColumns columnCache keys, columnCache)
        else case conn (column_query uncachedKeys) of
          Inl e \<Rightarrow> (Inl (ColumnQuery e), columnCache)
        | Inr rows \<Rightarrow>
            (let cache1 = fold add_column rows columnCache in (fetchCachedColumns cache1 keys, cache1)))"

text \<open>The check for a missing column looks at the table of the column, not of the key, and never fails.\<close>

lemma fetchCachedColumns_total:
  "fetchCachedColumns columnCache keys =
     Inr (map (\<lambda>key. case columnCache key of None \<Rightarrow> zero_column | Some c \<Rightarrow> c) keys)"
  by (induction keys) (auto simp: Let_def zero_column_def split: option.splits)

end
