(* ===== verification/PgInfer.thy ===== *)
theory PgInfer
  imports PgColumns ChInfer Utf8Enc
begin

text \<open>
  Type inference for Postgres, \<^verbatim>\<open>internal/pginfer\<close>: preparing the query, the types of its parameters and
  columns, and which columns may be NULL. The server is the parameter \<open>pg_conn\<close>: how it prepares a
  query, what it explains, the rows of a catalog query, and the types of OIDs, which
  \<^verbatim>\<open>pg.TypeFetcher\<close> looks up. Columns of tables are cached between queries.
\<close>

subsection \<open>The server\<close>

datatype json =
    JNull
  | JBool bool
  | JNum string
  | JStr string
  | JArr "json list"
  | JObj "(string \<times> json) list"

record FieldDescription =
  fd_Name :: string
  fd_TableOID :: oid
  fd_Attr :: "16 word"
  fd_TypeOID :: oid

record StatementDescription =
  sd_ParamOIDs :: "oid list"
  sd_Fields :: "FieldDescription list"

text \<open>An error of the server has a message and the parts that are set; any other error is a text.\<close>

record PgError =
  pe_Message :: string
  pe_Where :: string
  pe_Detail :: string
  pe_Hint :: string
  pe_DataTypeName :: string
  pe_TableName :: string

record pg_conn =
  pg_prepare :: "string \<Rightarrow> (PgError + string) + StatementDescription"
  pg_explain :: "string \<Rightarrow> string list \<Rightarrow> string + (string \<times> json) list list"
  pg_columns :: "string \<Rightarrow> column_rows"
  pg_types :: "oid list \<Rightarrow> string + (oid \<rightharpoonup> pgtype)"

datatype pg_infer_error =
    PrepareError string
  | PrepareOther string
  | ParamCount nat nat
  | FetchTypes string
  | NoParamType string oid
  | NoColumnType string oid
  | ExplainError string
  | NoExplain
  | NoPlan
  | NoNodeType
  | BadNodeType
  | BadOutput nat
  | FetchNullability column_error
  | NoPgColumns string ResultKind
  | OnlyVoid string ResultKind

subsection \<open>Plans\<close>

definition PlanResult :: string where
  "PlanResult = ''Result''"

definition PlanLimit :: string where
  "PlanLimit = ''Limit''"

definition PlanModifyTable :: string where
  "PlanModifyTable = ''ModifyTable''"

record Plan =
  pl_Type :: string
  pl_Relation :: string
  pl_Outputs :: "string list"

fun plan_outputs :: "nat \<Rightarrow> json list \<Rightarrow> pg_infer_error + string list" where
  "plan_outputs i [] = Inr []"
| "plan_outputs i (JStr out # outs) = map_res (\<lambda>strOuts. out # strOuts) (plan_outputs (i + 1) outs)"
| "plan_outputs i (out # outs) = Inl (BadOutput i)"

definition createParamArgs :: "SourceQuery \<Rightarrow> string list" where
  "createParamArgs query = map (\<lambda>_. ''NULL'') (sq_params query)"

definition parse_plan :: "(string \<times> json) list \<Rightarrow> pg_infer_error + Plan" where
  "parse_plan plan =
     (if plan = [] then Inl NoPlan
      else case map_of plan ''Node Type'' of
        None \<Rightarrow> Inl NoNodeType
      | Some (JStr strNode) \<Rightarrow>
          map_res (\<lambda>strOuts.
            \<lparr>pl_Type = strNode,
             pl_Relation = (case map_of plan ''Relation Name'' of Some (JStr relation) \<Rightarrow> relation | _ \<Rightarrow> []),
             pl_Outputs = strOuts\<rparr>)
          (plan_outputs 0 (case map_of plan ''Output'' of Some (JArr outs) \<Rightarrow> outs | _ \<Rightarrow> []))
      | Some node \<Rightarrow> Inl BadNodeType)"

definition explainQuery :: "pg_conn \<Rightarrow> SourceQuery \<Rightarrow> pg_infer_error + Plan" where
  "explainQuery conn query =
     (case pg_explain conn (''EXPLAIN (VERBOSE, FORMAT JSON) '' @ sq_prepared query) (createParamArgs query) of
        Inl e \<Rightarrow> Inl (ExplainError e)
      | Inr [] \<Rightarrow> Inl NoExplain
      | Inr (plan # plans) \<Rightarrow> parse_plan plan)"

subsection \<open>Nullability\<close>

definition isColNullable :: "unicode \<Rightarrow> SourceQuery \<Rightarrow> Plan \<Rightarrow> string \<Rightarrow> Column \<Rightarrow> bool" where
  "isColNullable U query plan out column =
     (if out = [] then False
      else if prefix [CHR 0x27] out then False
      else if IsDigit U (int (byte_val (hd out))) then False
      else if (pl_Type plan = PlanResult \<or> pl_Type plan = PlanLimit) \<and>
          \<not> strings_Contains (strings_ToLower U (sq_prepared query)) ''join'' \<and> \<not> cl_Null column then False
      else if pl_Type plan = PlanModifyTable \<and> pl_Relation plan = cl_TableName column \<and> \<not> cl_Null column then False
      else True)"

definition column_key :: "FieldDescription \<Rightarrow> ColumnKey" where
  "column_key desc =
     (if fd_TableOID desc > 0 then \<lparr>ck_TableOID = fd_TableOID desc, ck_Number = fd_Attr desc\<rparr>
      else \<lparr>ck_TableOID = 0, ck_Number = 0\<rparr>)"

text \<open>The loop over the columns: it stops where the plan has no more outputs.\<close>

fun nullable_loop :: "unicode \<Rightarrow> SourceQuery \<Rightarrow> Plan \<Rightarrow> string list \<Rightarrow> Column list \<Rightarrow> bool list" where
  "nullable_loop U query plan (out # outs) (col # cols) =
     isColNullable U query plan out col # nullable_loop U query plan outs cols"
| "nullable_loop U query plan [] cols = map (\<lambda>_. True) cols"
| "nullable_loop U query plan outs [] = []"

definition inferOutputNullability :: "unicode \<Rightarrow> pg_conn \<Rightarrow> SourceQuery \<Rightarrow> FieldDescription list \<Rightarrow> column_cache
    \<Rightarrow> (pg_infer_error + bool list) \<times> column_cache" where
  "inferOutputNullability U conn query descs cache =
     (if descs = [] then (Inr [], cache)
      else case explainQuery conn query of
        Inl e \<Rightarrow> (Inl e, cache)
      | Inr plan \<Rightarrow>
          (case FetchColumns (pg_columns conn) (map column_key descs) cache of
             (Inl e, cache1) \<Rightarrow> (Inl (FetchNullability e), cache1)
           | (Inr cols, cache1) \<Rightarrow> (Inr (nullable_loop U query plan (pl_Outputs plan) cols), cache1)))"

subsection \<open>Types\<close>

definition nl4 :: string where
  "nl4 = CHR 0x0A # ''    ''"

definition prepare_message :: "unicode \<Rightarrow> SourceQuery \<Rightarrow> PgError \<Rightarrow> string" where
  "prepare_message U query pgErr =
     ''fetch field descriptions: '' @ pe_Message pgErr @
     (if pe_Where pgErr \<noteq> [] then nl4 @ ''WHERE: '' @ pe_Where pgErr else []) @
     (if pe_Detail pgErr \<noteq> [] then nl4 @ ''DETAIL: '' @ pe_Detail pgErr else []) @
     (if pe_Hint pgErr \<noteq> [] then nl4 @ ''HINT: '' @ pe_Hint pgErr else []) @
     (if pe_DataTypeName pgErr \<noteq> [] then nl4 @ ''DataType: '' @ pe_DataTypeName pgErr else []) @
     (if pe_TableName pgErr \<noteq> [] then nl4 @ ''TableName: '' @ pe_TableName pgErr else []) @
     (let sql = strings_ToLower U (sq_prepared query) in
      if strings_Contains sql ''update'' \<or> strings_Contains sql ''insert'' then
        nl4 @ ''HINT: if the main statement is an UPDATE or INSERT ensure that you have'' @
        nl4 @ ''      a RETURNING clause (this query is marked '' @ ResultKind_text (sq_kind query) @ '').'' @
        nl4 @ ''      Use :exec if you don'' @ [CHR 0x27] @ ''t need the query output.''
      else [])"

fun input_params :: "(oid \<rightharpoonup> pgtype) \<Rightarrow> string list \<Rightarrow> oid list \<Rightarrow> pg_infer_error + pgtype InputParam list" where
  "input_params types (name # names) (i # oids) =
     (case types i of
        None \<Rightarrow> Inl (NoParamType name i)
      | Some t \<Rightarrow> map_res (\<lambda>ps. \<lparr>ip_name = name, ip_type = t\<rparr> # ps) (input_params types names oids))"
| "input_params types names oids = Inr []"

fun output_columns :: "(oid \<rightharpoonup> pgtype) \<Rightarrow> FieldDescription list \<Rightarrow> bool list
    \<Rightarrow> pg_infer_error + pgtype OutputColumn list" where
  "output_columns types (desc # descs) (n # ns) =
     (case types (fd_TypeOID desc) of
        None \<Rightarrow> Inl (NoColumnType (fd_Name desc) (fd_TypeOID desc))
      | Some t \<Rightarrow> map_res (\<lambda>cs. \<lparr>oc_name = fd_Name desc, oc_type = t, oc_nullable = n\<rparr> # cs)
          (output_columns types descs ns))"
| "output_columns types descs ns = Inr []"

definition fetch_types :: "pg_conn \<Rightarrow> oid list \<Rightarrow> pg_infer_error + (oid \<rightharpoonup> pgtype)" where
  "fetch_types conn oids = (case pg_types conn oids of Inl e \<Rightarrow> Inl (FetchTypes e) | Inr types \<Rightarrow> Inr types)"

definition describe_inputs :: "pg_conn \<Rightarrow> SourceQuery \<Rightarrow> StatementDescription
    \<Rightarrow> pg_infer_error + pgtype InputParam list" where
  "describe_inputs conn query stmtDesc =
     (if length (sd_ParamOIDs stmtDesc) \<noteq> length (sq_params query)
      then Inl (ParamCount (length (sq_params query)) (length (sd_ParamOIDs stmtDesc)))
      else if sd_ParamOIDs stmtDesc = [] then Inr []
      else res_bind (fetch_types conn (sd_ParamOIDs stmtDesc)) (\<lambda>types.
        input_params types (sq_params query) (sd_ParamOIDs stmtDesc)))"

definition prepareTypes :: "unicode \<Rightarrow> pg_conn \<Rightarrow> SourceQuery \<Rightarrow> column_cache
    \<Rightarrow> (pg_infer_error + pgtype InputParam list \<times> pgtype OutputColumn list) \<times> column_cache" where
  "prepareTypes U conn query cache =
     (case pg_prepare conn (sq_prepared query) of
        Inl (Inl pgErr) \<Rightarrow> (Inl (PrepareError (prepare_message U query pgErr)), cache)
      | Inl (Inr e) \<Rightarrow> (Inl (PrepareOther e), cache)
      | Inr stmtDesc \<Rightarrow>
          (case describe_inputs conn query stmtDesc of
             Inl e \<Rightarrow> (Inl e, cache)
           | Inr inputs \<Rightarrow>
               (case fetch_types conn (map fd_TypeOID (sd_Fields stmtDesc)) of
                  Inl e \<Rightarrow> (Inl e, cache)
                | Inr types \<Rightarrow>
                    (case inferOutputNullability U conn query (sd_Fields stmtDesc) cache of
                       (Inl e, cache1) \<Rightarrow> (Inl e, cache1)
                     | (Inr nullables, cache1) \<Rightarrow>
                         (map_res (\<lambda>outputs. (inputs, outputs)) (output_columns types (sd_Fields stmtDesc) nullables),
                          cache1)))))"

definition countVoids :: "pgtype OutputColumn list \<Rightarrow> nat" where
  "countVoids outputs = length (filter (\<lambda>out. oc_type out = PgVoid) outputs)"

definition pg_InferTypes :: "unicode \<Rightarrow> pg_conn \<Rightarrow> SourceQuery \<Rightarrow> column_cache
    \<Rightarrow> (pg_infer_error + pgtype TypedQuery) \<times> column_cache" where
  "pg_InferTypes U conn query cache =
     (case prepareTypes U conn query cache of
        (Inl e, cache1) \<Rightarrow> (Inl e, cache1)
      | (Inr (inputs, outputs), cache1) \<Rightarrow>
          (if sq_kind query \<noteq> ResultKindExec \<and> outputs = [] then Inl (NoPgColumns (sq_name query) (sq_kind query))
           else if sq_kind query \<noteq> ResultKindExec \<and> countVoids outputs = length outputs
           then Inl (OnlyVoid (sq_name query) (sq_kind query))
           else Inr (typed_query query inputs outputs), cache1))"

end
