(* ===== verification/Generate.thy ===== *)
theory Generate
  imports Connect Paths TypeResolver PgInfer QueryParser
begin

text \<open>
  A run of the generator: \<^verbatim>\<open>generate.go\<close>, \<^verbatim>\<open>internal/codegen/golang/generate.go\<close> and \<^verbatim>\<open>GenerateGo\<close> of
  \<^verbatim>\<open>internal/cli/cli.go\<close>. The record \<open>world\<close> is what a run meets: the file system, the container and the
  driver, the two servers, the tables of the Unicode package and the OID constants of pgx, and whether a
  file can be written from its template. A parser that does not return is the value \<open>None\<close>. The texts of
  errors are left out, and with them the container's log that \<^verbatim>\<open>errEnricher\<close> adds.
\<close>

record world =
  w_files :: files
  w_driver :: driver
  w_pg :: pg_conn
  w_ch :: ch_conn
  w_unicode :: unicode
  w_letter :: "int \<Rightarrow> bool"
  w_word :: "int \<Rightarrow> bool"
  w_oids :: pgx_oids
  w_emit :: "string \<Rightarrow> TemplatedFile \<Rightarrow> bool"

record GenerateOptions =
  Language :: string
  opt_Dialect :: string
  ConnString :: string
  QueryFiles :: "string list"
  SchemaFiles :: "string list"
  GoPackage :: string
  OutputDir :: string
  opt_Acronyms :: "string \<rightharpoonup> string"
  TypeOverrides :: "(string \<times> string) list"
  InlineParamCount :: int

datatype resolver_error = PgResolverError pg_error | ChResolverError resolve_error

datatype inferrer_error = PgInferError pg_infer_error | ChInferError infer_error

datatype gen_error =
    NoLanguage
  | NoQueryFiles
  | NoOutput
  | ConnectError connect_error
  | NoAbsPath string
  | ReadFile string
  | ParseErrors "parse_msg file_error list"
  | ParsedBad
  | DuplicateName string
  | ArgOfClickHouse string string
  | InferError string inferrer_error
  | TemplateError "resolver_error tm_error"
  | EmitError string
  | BadLanguage string
  | CloseError
  | JoinedError gen_error gen_error

subsection \<open>Inferrers\<close>

definition sql_query :: "('t \<Rightarrow> sqltype) \<Rightarrow> 't TypedQuery \<Rightarrow> sqltype TypedQuery" where
  "sql_query f q =
     \<lparr>tq_name = tq_name q, tq_kind = tq_kind q, tq_doc = tq_doc q, tq_sql = tq_sql q,
      tq_inputs = map (\<lambda>i. \<lparr>ip_name = ip_name i, ip_type = f (ip_type i)\<rparr>) (tq_inputs q),
      tq_outputs = map (\<lambda>c. \<lparr>oc_name = oc_name c, oc_type = f (oc_type c), oc_nullable = oc_nullable c\<rparr>) (tq_outputs q),
      tq_proto = tq_proto q, tq_output = tq_output q, tq_const = tq_const q, tq_group = tq_group q,
      tq_variant = tq_variant q\<rparr>"

text \<open>The interface \<^verbatim>\<open>Inferrer\<close>: the Postgres one keeps a cache of columns from call to call.\<close>

type_synonym inferrer = "SourceQuery \<Rightarrow> column_cache \<Rightarrow> (inferrer_error + sqltype TypedQuery) \<times> column_cache"

definition pg_inferrer :: "world \<Rightarrow> inferrer" where
  "pg_inferrer w query cache =
     (case pg_InferTypes (w_unicode w) (w_pg w) query cache of
        (Inl e, cache1) \<Rightarrow> (Inl (PgInferError e), cache1)
      | (Inr q, cache1) \<Rightarrow> (Inr (sql_query PgT q), cache1))"

definition ch_inferrer :: "world \<Rightarrow> inferrer" where
  "ch_inferrer w query cache =
     (case ch_InferTypes (w_ch w) query of
        Inl e \<Rightarrow> (Inl (ChInferError e), cache)
      | Inr q \<Rightarrow> (Inr (sql_query ChT q), cache))"

definition connectInferrer :: "world \<Rightarrow> GenerateOptions \<Rightarrow> (connect_error + inferrer \<times> bool) \<times> action list" where
  "connectInferrer w opts =
     (if opt_Dialect opts = DialectPostgres then
        (case connectPostgres (w_driver w) (ConnString opts) (SchemaFiles opts) of
           (r, acts) \<Rightarrow> (map_res (\<lambda>container. (pg_inferrer w, container)) r, acts))
      else if opt_Dialect opts = DialectClickHouse then
        (case connectClickHouse (w_driver w) (ConnString opts) (SchemaFiles opts) of
           (r, acts) \<Rightarrow> (map_res (\<lambda>container. (ch_inferrer w, container)) r, acts))
      else (Inl (BadDialect (opt_Dialect opts)), []))"

subsection \<open>Parsing query files\<close>

fun check_queries :: "string \<Rightarrow> Query list \<Rightarrow> string set \<Rightarrow> SourceQuery list \<Rightarrow> gen_error + SourceQuery list" where
  "check_queries dialect [] seenNames srcQueries = Inr srcQueries"
| "check_queries dialect (query # queries) seenNames srcQueries =
     (case query of
        BadQuery a b \<Rightarrow> Inl ParsedBad
      | SourceQ sq \<Rightarrow>
          if sq_name sq \<in> seenNames then Inl (DuplicateName (sq_name sq))
          else if dialect = DialectClickHouse \<and> sq_params sq \<noteq> [] then Inl (ArgOfClickHouse (sq_name sq) (hd (sq_params sq)))
          else check_queries dialect queries (insert (sq_name sq) seenNames) (srcQueries @ [sq]))"

fun infer_queries :: "inferrer \<Rightarrow> SourceQuery list \<Rightarrow> sqltype TypedQuery list \<Rightarrow> column_cache
    \<Rightarrow> (gen_error + sqltype TypedQuery list) \<times> column_cache" where
  "infer_queries infer [] queries cache = (Inr queries, cache)"
| "infer_queries infer (sq # sqs) queries cache =
     (case infer sq cache of
        (Inl e, cache1) \<Rightarrow> (Inl (InferError (sq_name sq) e), cache1)
      | (Inr typedQuery, cache1) \<Rightarrow> infer_queries infer sqs (queries @ [typedQuery]) cache1)"

text \<open>What follows the parser.\<close>

definition type_file :: "string \<Rightarrow> inferrer \<Rightarrow> string \<Rightarrow> column_cache \<Rightarrow> File \<Rightarrow> (gen_error + QueryFile) \<times> column_cache" where
  "type_file srcPath infer dialect cache astFile =
     (case check_queries dialect (f_queries astFile) {} [] of
        Inl e \<Rightarrow> (Inl e, cache)
      | Inr srcQueries \<Rightarrow>
          (case infer_queries infer srcQueries [] cache of
             (Inl e, cache1) \<Rightarrow> (Inl e, cache1)
           | (Inr queries, cache1) \<Rightarrow> (Inr \<lparr>qf_SourcePath = srcPath, qf_Queries = queries\<rparr>, cache1)))"

text \<open>\<open>n\<close> is the fuel of the parser.\<close>

definition parseQueries :: "world \<Rightarrow> nat \<Rightarrow> string \<Rightarrow> inferrer \<Rightarrow> string \<Rightarrow> column_cache
    \<Rightarrow> ((gen_error + QueryFile) \<times> column_cache) option" where
  "parseQueries w n srcPath infer dialect cache =
     (let placeholder = (if dialect = DialectClickHouse then ClickHousePlaceholder else PostgresPlaceholder) in
      case fs_read (w_files w) srcPath of
        None \<Rightarrow> Some (Inl (ReadFile srcPath), cache)
      | Some src \<Rightarrow>
          (case ParseFileDialect (w_letter w) (w_word w) n placeholder srcPath src of
             None \<Rightarrow> None
           | Some (astFile, errs) \<Rightarrow>
               Some (if errs \<noteq> [] then (Inl (ParseErrors errs), cache) else type_file srcPath infer dialect cache astFile)))"

fun parseQueryFiles :: "world \<Rightarrow> nat \<Rightarrow> string list \<Rightarrow> inferrer \<Rightarrow> string \<Rightarrow> QueryFile list \<Rightarrow> column_cache
    \<Rightarrow> (gen_error + QueryFile list) option" where
  "parseQueryFiles w n [] infer dialect files cache = Some (Inr files)"
| "parseQueryFiles w n (f # queryFiles) infer dialect files cache =
     (case path_Abs (fs_wd (w_files w)) f of
        None \<Rightarrow> Some (Inl (NoAbsPath f))
      | Some srcPath \<Rightarrow>
          (case parseQueries w n srcPath infer dialect cache of
             None \<Rightarrow> None
           | Some (Inl e, cache1) \<Rightarrow> Some (Inl e)
           | Some (Inr queryFile, cache1) \<Rightarrow> parseQueryFiles w n queryFiles infer dialect (files @ [queryFile]) cache1))"

subsection \<open>Generating Go\<close>

definition the_resolver :: "world \<Rightarrow> Caser \<Rightarrow> string \<Rightarrow> (string \<times> string) list \<Rightarrow> sqltype \<Rightarrow> bool \<Rightarrow> string
    \<Rightarrow> resolver_error + gotype" where
  "the_resolver w cs dialect overrides t nullable pkgPath =
     (if dialect = DialectClickHouse then
        (case ch_Resolve (map_of overrides) t nullable pkgPath of Inl e \<Rightarrow> Inl (ChResolverError e) | Inr g \<Rightarrow> Inr g)
      else
        (case pg_Resolve (w_oids w) (w_unicode w) cs (NewPgTypeResolver overrides) t nullable pkgPath of
           Inl e \<Rightarrow> Inl (PgResolverError e) | Inr g \<Rightarrow> Inr g))"

definition guess :: "files \<Rightarrow> string \<Rightarrow> string option" where
  "guess fs p = (case GuessPackage fs p of Some (Inr pkg) \<Rightarrow> Some pkg | _ \<Rightarrow> None)"

definition the_templater :: "world \<Rightarrow> GenerateOptions \<Rightarrow> resolver_error Templater" where
  "the_templater w opts =
     (let pkgName = (if GoPackage opts = [] then path_Base (OutputDir opts) else GoPackage opts);
          caser = AddAcronyms (opt_Acronyms opts) NewCaser
      in \<lparr>tm_caser = caser, tm_resolver = the_resolver w caser (opt_Dialect opts) (TypeOverrides opts),
          tm_guess = guess (w_files w), tm_pkg = pkgName, tm_inline = InlineParamCount opts,
          tm_dialect = opt_Dialect opts\<rparr>)"

text \<open>What is written, by names in the output directory.\<close>

fun emit_files :: "(string \<Rightarrow> TemplatedFile \<Rightarrow> bool) \<Rightarrow> (string \<times> TemplatedFile) list
    \<Rightarrow> gen_error option \<times> (string \<times> TemplatedFile) list" where
  "emit_files emit [] = (None, [])"
| "emit_files emit ((out, tf) # tfs) =
     (if emit out tf then (case emit_files emit tfs of (e, written) \<Rightarrow> (e, (out, tf) # written))
      else (Some (EmitError out), []))"

definition EmitAllQueryFiles :: "(string \<Rightarrow> TemplatedFile \<Rightarrow> bool) \<Rightarrow> TemplatedFile list
    \<Rightarrow> gen_error option \<times> (string \<times> TemplatedFile) list" where
  "EmitAllQueryFiles emit tfs = emit_files emit (zip (chooseOutputFiles (map tf_SourcePath tfs)) tfs)"

text \<open>The sort is stable here; the order of one file given twice is not fixed by the code.\<close>

definition golang_Generate :: "world \<Rightarrow> GenerateOptions \<Rightarrow> QueryFile list
    \<Rightarrow> gen_error option \<times> (string \<times> TemplatedFile) list" where
  "golang_Generate w opts queryFiles =
     (case TemplateAll (w_unicode w) (the_templater w opts) queryFiles of
        Inl e \<Rightarrow> (Some (TemplateError e), [])
      | Inr templatedFiles \<Rightarrow>
          EmitAllQueryFiles (w_emit w) (sort_key tf_SourcePath templatedFiles))"

subsection \<open>A run\<close>

text \<open>\<^verbatim>\<open>errs.Capture\<close>, for a function that fails or not.\<close>

definition Capture :: "gen_error option \<Rightarrow> gen_error option \<Rightarrow> gen_error option" where
  "Capture err fErr =
     (case fErr of
        None \<Rightarrow> err
      | Some f \<Rightarrow> (case err of None \<Rightarrow> Some f | Some e \<Rightarrow> Some (JoinedError e f)))"

type_synonym gen_result = "gen_error option \<times> (string \<times> TemplatedFile) list"

definition generate_code :: "world \<Rightarrow> GenerateOptions \<Rightarrow> gen_error + QueryFile list \<Rightarrow> gen_result" where
  "generate_code w opts queryFiles =
     (case queryFiles of
        Inl e \<Rightarrow> (Some e, [])
      | Inr qfs \<Rightarrow>
          let acronyms = (if opt_Acronyms opts ''id'' = None then (opt_Acronyms opts)(''id'' \<mapsto> ''ID'') else opt_Acronyms opts) in
          if Language opts = ''go'' then golang_Generate w (opts\<lparr>opt_Acronyms := acronyms\<rparr>) qfs
          else (Some (BadLanguage (Language opts)), []))"

definition default_dialect :: "GenerateOptions \<Rightarrow> GenerateOptions" where
  "default_dialect opts = (if opt_Dialect opts = [] then opts\<lparr>opt_Dialect := DialectPostgres\<rparr> else opts)"

text \<open>The end of a run, with the deferred cleanup.\<close>

definition finish_run :: "world \<Rightarrow> GenerateOptions \<Rightarrow> bool \<Rightarrow> action list \<Rightarrow> gen_error + QueryFile list
    \<Rightarrow> gen_result \<times> action list" where
  "finish_run w opts container acts queryFiles =
     (let r = generate_code w opts queryFiles;
          closeErr = (if cleanup_fails (w_driver w) container then Some CloseError else None)
      in ((Capture (fst r) closeErr, snd r), acts @ cleanup_actions container))"

definition Generate :: "world \<Rightarrow> nat \<Rightarrow> GenerateOptions \<Rightarrow> (gen_result \<times> action list) option" where
  "Generate w n opts0 =
     (if Language opts0 = [] then Some ((Some NoLanguage, []), [])
      else if QueryFiles opts0 = [] then Some ((Some NoQueryFiles, []), [])
      else if OutputDir opts0 = [] then Some ((Some NoOutput, []), [])
      else let opts = default_dialect opts0 in
        case connectInferrer w opts of
          (Inl e, acts) \<Rightarrow> Some ((Some (ConnectError e), []), acts)
        | (Inr (infer, container), acts) \<Rightarrow>
            map_option (finish_run w opts container acts)
              (parseQueryFiles w n (QueryFiles opts) infer (opt_Dialect opts) [] Map.empty))"

subsection \<open>The command line\<close>

record GenFlags =
  gf_outputDir :: string
  gf_queryGlobs :: "string list"
  gf_schemaGlobs :: "string list"
  gf_acronyms :: "string list"
  gf_goTypes :: "string list"
  gf_inlineParamCount :: int

datatype cli_error =
    NoQueryGlob
  | PathError path_error
  | FlagError flag_error
  | GenError gen_error

definition lift_path :: "path_error + 'a \<Rightarrow> cli_error + 'a" where
  "lift_path r = (case r of Inl e \<Rightarrow> Inl (PathError e) | Inr x \<Rightarrow> Inr x)"

definition lift_flag :: "flag_error + 'a \<Rightarrow> cli_error + 'a" where
  "lift_flag r = (case r of Inl e \<Rightarrow> Inl (FlagError e) | Inr x \<Rightarrow> Inr x)"

definition flag_options :: "world \<Rightarrow> GenFlags \<Rightarrow> string \<Rightarrow> string \<Rightarrow> cli_error + GenerateOptions" where
  "flag_options w f dialect connString =
     (if gf_queryGlobs f = [] then Inl NoQueryGlob
      else
        res_bind (lift_path (ExpandSortGlobs (w_files w) (gf_queryGlobs f))) (\<lambda>queries.
        res_bind (lift_path (ExpandSortGlobs (w_files w) (gf_schemaGlobs f))) (\<lambda>schemas.
        res_bind (lift_flag (DeduceOutputDir (fs_wd (w_files w)) (gf_outputDir f) queries)) (\<lambda>outDir.
        res_bind (lift_flag (ParseAcronyms (w_unicode w) (gf_acronyms f))) (\<lambda>acronyms.
        map_res (\<lambda>typeOverrides.
            \<lparr>Language = ''go'', opt_Dialect = dialect, ConnString = connString, QueryFiles = queries, SchemaFiles = schemas,
             GoPackage = [], OutputDir = outDir, opt_Acronyms = acronyms, TypeOverrides = typeOverrides,
             InlineParamCount = gf_inlineParamCount f\<rparr>)
          (lift_flag (ParseGoTypes (gf_goTypes f))))))))"

definition generated_message :: "nat \<Rightarrow> string" where
  "generated_message n = ''generated '' @ itoa (int n) @ '' query '' @ (if n = 1 then ''file'' else ''files'') @ [CHR 0x0A]"

definition GenerateGo :: "world \<Rightarrow> nat \<Rightarrow> GenFlags \<Rightarrow> string \<Rightarrow> string
    \<Rightarrow> ((cli_error + string) \<times> (string \<times> TemplatedFile) list \<times> action list) option" where
  "GenerateGo w n f dialect connString =
     (case flag_options w f dialect connString of
        Inl e \<Rightarrow> Some (Inl e, [], [])
      | Inr opts \<Rightarrow>
          map_option (\<lambda>((err, written), acts).
              (case err of Some e \<Rightarrow> Inl (GenError e) | None \<Rightarrow> Inr (generated_message (length (QueryFiles opts))), written, acts))
            (Generate w n opts))"

end
