(* ===== verification/GenerateProps.thy ===== *)
theory GenerateProps
  imports Generate "HOL-Library.Multiset"
begin

text \<open>
  What holds of a whole run: resources are released on every path, the templater does not panic, and the
  files of a run are in the order of their sources, with the first as the leader.
\<close>

subsection \<open>Resources\<close>

lemma connectInferrer_lifecycle:
  "case connectInferrer w opts of
     (Inl e, acts) \<Rightarrow> lifecycle (False, False) acts = Some (False, False)
   | (Inr (infer, container), acts) \<Rightarrow> lifecycle (False, False) acts = Some (container, True)"
  using connectPostgres_connected [of "w_driver w" "ConnString opts" "SchemaFiles opts"]
    connectClickHouse_connected [of "w_driver w" "ConnString opts" "SchemaFiles opts"]
  by (auto simp: connectInferrer_def connected_def split: prod.splits sum.splits)


subsection \<open>The contract of the templater\<close>

lemma the_resolver_named:
  "the_resolver w cs dialect overrides t nullable pkgPath = Inr g \<Longrightarrow> p \<in> pkgs g \<Longrightarrow> p = pkgPath \<or> short_ok p"
  by (auto simp: the_resolver_def dest: ch_res.named pg_res.named split: if_splits sum.splits)

interpretation run_res: type_resolver "the_resolver w cs dialect overrides" for w cs dialect overrides
  by unfold_locales (rule the_resolver_named)

lemma slash_short: "slash \<in> set p \<Longrightarrow> short_ok p"
  by (rule IsImportPath_short) (auto simp: IsImportPath_def list_ex_iff)

lemma guess_has_slash: "guess fs path = Some pkg \<Longrightarrow> slash \<in> set pkg"
  by (auto simp: guess_def GuessPackage_def split: option.splits sum.splits)

lemma the_templater_guess_ok: "guess_ok (the_templater w opts)"
  by (auto simp: guess_ok_def the_templater_def Let_def slash_short guess_has_slash)

subsection \<open>The leader\<close>

lemma leader_loop_Some: "\<exists>k. leader_loop ps i (Some j) firstName = Some k"
  by (induction ps arbitrary: i j firstName) auto

lemma leader_loop_least:
  assumes "leader_loop ps i firstIndex firstName = Some k"
  shows "(firstIndex = Some k \<and> (\<forall>q \<in> set ps. \<not> q < firstName)) \<or>
    (i \<le> k \<and> k < i + length ps \<and> ps ! (k - i) < firstName \<and> (\<forall>q \<in> set ps. \<not> q < ps ! (k - i)) \<and>
     (\<forall>j < k - i. ps ! (k - i) < ps ! j))"
  using assms
proof (induction ps arbitrary: i firstIndex firstName)
  case (Cons p ps)
  show ?case
  proof (cases "p < firstName")
    case True
    then have "leader_loop ps (Suc i) (Some i) p = Some k" using Cons.prems by simp
    from Cons.IH [OF this] consider "k = i" "\<forall>q \<in> set ps. \<not> q < p"
      | "Suc i \<le> k" "k < Suc i + length ps" "ps ! (k - Suc i) < p" "\<forall>q \<in> set ps. \<not> q < ps ! (k - Suc i)"
        "\<forall>j < k - Suc i. ps ! (k - Suc i) < ps ! j" by auto
    then show ?thesis
    proof cases
      case 2
      then obtain d where d: "k = Suc (i + d)" by (metis add_Suc less_eqE)
      have "\<forall>j < Suc d. ps ! d < (p # ps) ! j" using 2(3,5) d by (auto simp: nth_Cons split: nat.split)
      then show ?thesis using 2 True d by (auto intro: less_trans dest: order.asym)
    qed (use True in auto)
  next
    case False
    then have "leader_loop ps (Suc i) firstIndex firstName = Some k" using Cons.prems by simp
    from Cons.IH [OF this] consider "firstIndex = Some k" "\<forall>q \<in> set ps. \<not> q < firstName"
      | "Suc i \<le> k" "k < Suc i + length ps" "ps ! (k - Suc i) < firstName" "\<forall>q \<in> set ps. \<not> q < ps ! (k - Suc i)"
        "\<forall>j < k - Suc i. ps ! (k - Suc i) < ps ! j" by auto
    then show ?thesis
    proof cases
      case 2
      then obtain d where d: "k = Suc (i + d)" by (metis add_Suc less_eqE)
      have "ps ! d < p" using 2(3) d False by auto
      then have "\<forall>j < Suc d. ps ! d < (p # ps) ! j" using 2(5) d by (auto simp: nth_Cons split: nat.split)
      then show ?thesis using 2 \<open>ps ! d < p\<close> d by (auto dest: order.asym)
    qed (use False in auto)
  qed
qed simp

lemma abs_path_below: "abs_path xs < EncodeRune 0x10FFFF"
proof -
  have "EncodeRune 0x10FFFF = [CHR 0xF4, CHR 0x8F, CHR 0xBF, CHR 0xBF]" by code_simp
  moreover have "slash < CHR 0xF4" by code_simp
  ultimately show ?thesis by (simp add: abs_path_def)
qed

lemma leader_index_Some:
  assumes "ps \<noteq> []" "\<And>p. p \<in> set ps \<Longrightarrow> p < EncodeRune 0x10FFFF"
  shows "\<exists>k. leader_index ps = Some k"
  using assms leader_loop_Some by (cases ps) (auto simp: leader_index_def)

lemma first_of_filter:
  assumes "k < length xs" "P (xs ! k)" "\<And>j. j < k \<Longrightarrow> \<not> P (xs ! j)"
  shows "filter P xs \<noteq> [] \<and> hd (filter P xs) = xs ! k"
  using assms
proof (induction xs arbitrary: k)
  case (Cons x xs)
  show ?case
  proof (cases k)
    case (Suc j)
    have "\<not> P x" using Cons.prems(3) [of 0] Suc by simp
    moreover have "filter P xs \<noteq> [] \<and> hd (filter P xs) = xs ! j"
      using Cons.prems(3) [of "Suc _"] Cons.prems(1,2) Suc by (intro Cons.IH) auto
    ultimately show ?thesis using Suc by simp
  qed (use Cons.prems in auto)
qed simp

lemma sort_key_hd:
  fixes f :: "'a \<Rightarrow> 'b :: linorder"
  assumes "k < length xs" "\<And>x. x \<in> set xs \<Longrightarrow> \<not> f x < f (xs ! k)" "\<And>j. j < k \<Longrightarrow> f (xs ! k) < f (xs ! j)"
  shows "hd (sort_key f xs) = xs ! k"
proof -
  define ys where "ys = sort_key f xs"
  have ne: "ys \<noteq> []" using assms(1) by (metis ys_def length_0_conv length_sort not_less_zero)
  have "xs ! k \<in> set ys" using assms(1) by (simp add: ys_def)
  then have "f (hd ys) \<le> f (xs ! k)"
    using sorted_sort_key [of f xs] ne by (cases ys) (auto simp: ys_def [symmetric])
  moreover have "hd ys \<in> set xs" using hd_in_set [OF ne] by (simp add: ys_def)
  ultimately have key: "f (hd ys) = f (xs ! k)" using assms(2) by (metis order.not_eq_order_implies_strict)
  have "hd ys = hd (filter (\<lambda>y. f y = f (xs ! k)) ys)" using ne key by (cases ys) auto
  also have "\<dots> = hd (filter (\<lambda>y. f y = f (xs ! k)) xs)" by (simp add: ys_def sort_key_stable)
  also have "\<dots> = xs ! k" using first_of_filter [of k xs "\<lambda>y. f y = f (xs ! k)"] assms(1,3) by fastforce
  finally show ?thesis by (simp add: ys_def)
qed

lemma one_index: "k < length xs \<Longrightarrow> (\<And>i. i < length xs \<Longrightarrow> P (xs ! i) \<longleftrightarrow> i = k) \<Longrightarrow> length (filter P xs) = 1"
proof -
  assume a: "k < length xs" "\<And>i. i < length xs \<Longrightarrow> P (xs ! i) \<longleftrightarrow> i = k"
  then have "{i. i < length xs \<and> P (xs ! i)} = {k}" by auto
  then show ?thesis by (simp add: length_filter_conv_card)
qed

lemma length_filter_sort: "length (filter P (sort_key f xs)) = length (filter P xs)"
proof -
  have "mset (filter P (sort_key f xs)) = mset (filter P xs)" by simp
  then show ?thesis by (metis size_mset)
qed

lemma no_more_leaders: "length (filter P xs) = 1 \<Longrightarrow> xs \<noteq> [] \<Longrightarrow> P (hd xs) \<Longrightarrow> map P xs = True # replicate (length xs - 1) False"
  by (cases xs) (auto simp: filter_empty_conv intro!: nth_equalityI)

lemma sorted_leader:
  assumes "TemplateAll U tm files = Inr out" "leader_index (map qf_SourcePath files) = Some k"
  shows "map tf_IsLeader (sort_key tf_SourcePath out) = True # replicate (length files - 1) False"
    and "mset (map tf_SourcePath out) = mset (map qf_SourcePath files)"
proof -
  note nth = TemplateAll_nth [OF assms(1)]
  have each: "tf_IsLeader (out ! i) = (i = k)" "tf_SourcePath (out ! i) = qf_SourcePath (files ! i)" if "i < length files" for i
    using nth(2) [OF that] assms(2) by (auto simp: keeps_file_def templateFile_path)
  have paths: "map tf_SourcePath out = map qf_SourcePath files" using nth(1) each(2) by (auto intro: nth_equalityI)
  then show "mset (map tf_SourcePath out) = mset (map qf_SourcePath files)" by simp
  have k: "k < length files" and least: "\<forall>q \<in> set (map qf_SourcePath files). \<not> q < map qf_SourcePath files ! k"
    and first: "\<forall>j < k. map qf_SourcePath files ! k < map qf_SourcePath files ! j"
    using leader_loop_least [OF assms(2) [unfolded leader_index_def]] by auto
  have "hd (sort_key tf_SourcePath out) = out ! k"
    using k nth(1) least first each(2) by (intro sort_key_hd) (auto simp: paths [symmetric])
  then have "tf_IsLeader (hd (sort_key tf_SourcePath out))" using each(1) [OF k] by simp
  moreover have "length (filter tf_IsLeader (sort_key tf_SourcePath out)) = 1"
    using one_index [of k out tf_IsLeader] k each(1) nth(1) by (simp add: length_filter_sort)
  moreover have "sort_key tf_SourcePath out \<noteq> []" using k nth(1) by (metis length_0_conv length_sort not_less_zero)
  ultimately show "map tf_IsLeader (sort_key tf_SourcePath out) = True # replicate (length files - 1) False"
    using no_more_leaders [of tf_IsLeader "sort_key tf_SourcePath out"] nth(1) by simp
qed

subsection \<open>The query files of a run\<close>

lemma type_file_path: "type_file srcPath infer dialect cache f = (Inr qf, cache1) \<Longrightarrow> qf_SourcePath qf = srcPath"
  by (auto simp: type_file_def split: sum.splits prod.splits)

lemma parseQueries_path:
  "parseQueries w n srcPath infer dialect cache = Some (Inr qf, cache1) \<Longrightarrow> qf_SourcePath qf = srcPath"
  by (auto simp: parseQueries_def Let_def type_file_path split: option.splits if_splits)

lemma parseQueryFiles_paths:
  "parseQueryFiles w n queryFiles infer dialect files cache = Some (Inr qfs) \<Longrightarrow>
     map (Some \<circ> qf_SourcePath) qfs = map (Some \<circ> qf_SourcePath) files @ map (path_Abs (fs_wd (w_files w))) queryFiles"
proof (induction queryFiles arbitrary: files cache)
  case (Cons f queryFiles)
  then obtain srcPath qf cache1 where
    "path_Abs (fs_wd (w_files w)) f = Some srcPath" "parseQueries w n srcPath infer dialect cache = Some (Inr qf, cache1)"
    "parseQueryFiles w n queryFiles infer dialect (files @ [qf]) cache1 = Some (Inr qfs)"
    by (auto split: option.splits prod.splits sum.splits)
  with Cons.IH [OF this(3)] parseQueries_path [OF this(2)] show ?case by simp
qed auto

lemma parsed_leader:
  assumes "parseQueryFiles w n queryFiles infer dialect [] cache = Some (Inr qfs)" "queryFiles \<noteq> []"
  shows "\<exists>k. leader_index (map qf_SourcePath qfs) = Some k"
proof (rule leader_index_Some)
  note p = parseQueryFiles_paths [OF assms(1)]
  show "map qf_SourcePath qfs \<noteq> []" using p assms(2) by auto
  fix s
  assume "s \<in> set (map qf_SourcePath qfs)"
  then have "Some s \<in> set (map (Some \<circ> qf_SourcePath) qfs)" by auto
  then obtain q where "path_Abs (fs_wd (w_files w)) q = Some s" unfolding p by auto
  from path_Abs_clean [OF this] show "s < EncodeRune 0x10FFFF" by (auto simp: abs_path_below)
qed

subsection \<open>A run does not panic\<close>

fun panics :: "gen_error \<Rightarrow> bool" where
  "panics (TemplateError e) \<longleftrightarrow> e = TmPanic"
| "panics (JoinedError e f) \<longleftrightarrow> panics e \<or> panics f"
| "panics e \<longleftrightarrow> False"

lemma emit_files_no_panic: "emit_files emit tfs = (Some e, written) \<Longrightarrow> \<not> panics e"
  by (induction emit tfs arbitrary: written rule: emit_files.induct) (auto split: if_splits prod.splits)

lemma golang_Generate_no_panic:
  assumes "leader_index (map qf_SourcePath qfs) = Some k" "golang_Generate w opts qfs = (Some e, written)"
  shows "\<not> panics e"
proof -
  have "TemplateAll (w_unicode w) (the_templater w opts) qfs \<noteq> Inl TmPanic"
    by (rule run_res.TemplateAll_no_panic [OF _ the_templater_guess_ok]) (simp_all add: the_templater_def Let_def assms(1))
  then show ?thesis
    using assms(2) emit_files_no_panic by (fastforce simp: golang_Generate_def EmitAllQueryFiles_def split: sum.splits)
qed

lemma infer_queries_no_panic: "infer_queries infer sqs queries cache = (Inl e, cache1) \<Longrightarrow> \<not> panics e"
  by (induction infer sqs queries cache rule: infer_queries.induct) (auto split: prod.splits sum.splits)

lemma check_queries_no_panic: "check_queries dialect queries seen sqs = Inl e \<Longrightarrow> \<not> panics e"
  by (induction dialect queries seen sqs rule: check_queries.induct) (auto split: Query.splits if_splits)

lemma type_file_no_panic: "type_file srcPath infer dialect cache f = (Inl e, cache1) \<Longrightarrow> \<not> panics e"
  by (auto simp: type_file_def dest: infer_queries_no_panic check_queries_no_panic split: sum.splits prod.splits)

lemma parseQueries_no_panic: "parseQueries w n srcPath infer dialect cache = Some (Inl e, cache1) \<Longrightarrow> \<not> panics e"
  by (auto simp: parseQueries_def Let_def type_file_no_panic split: option.splits if_splits)

lemma parseQueryFiles_no_panic: "parseQueryFiles w n queryFiles infer dialect files cache = Some (Inl e) \<Longrightarrow> \<not> panics e"
  by (induction w n queryFiles infer dialect files cache rule: parseQueryFiles.induct)
    (auto dest: parseQueries_no_panic split: option.splits prod.splits sum.splits)

text \<open>How a run ends: early, or with the cleanup after the query files have been parsed.\<close>

lemma Generate_cases:
  assumes "Generate w n opts = Some ((err, written), acts)"
  obtains (early) e where "err = Some e" "\<not> panics e" "written = []"
  | (run) infer container acts0 r where "QueryFiles opts \<noteq> []"
      "parseQueryFiles w n (QueryFiles opts) infer (opt_Dialect (default_dialect opts)) [] Map.empty = Some r"
      "finish_run w (default_dialect opts) container acts0 r = ((err, written), acts)"
proof -
  have q: "QueryFiles (default_dialect opts) = QueryFiles opts" by (simp add: default_dialect_def)
  obtain res acts0 where c: "connectInferrer w (default_dialect opts) = (res, acts0)" by fastforce
  show thesis
  proof (cases "Language opts = [] \<or> QueryFiles opts = [] \<or> OutputDir opts = []")
    case True
    then show ?thesis using assms by (intro early [of "the err"]) (auto simp: Generate_def split: if_splits)
  next
    case False
    show ?thesis
    proof (cases res)
      case (Inl e)
      then show ?thesis using assms False c by (intro early [of "the err"]) (auto simp: Generate_def Let_def)
    next
      case (Inr r)
      then show ?thesis using assms False c q by (cases r) (auto simp: Generate_def Let_def intro: run)
    qed
  qed
qed

lemma finish_run_error:
  assumes "finish_run w opts container acts0 r = ((Some e, written), acts)" "panics e"
  shows "\<exists>e1. generate_code w opts r = (Some e1, written) \<and> panics e1"
  using assms by (cases "generate_code w opts r")
    (auto simp: finish_run_def Let_def Capture_def split: option.splits if_splits)

lemma generate_code_no_panic:
  assumes "parseQueryFiles w n queryFiles infer dialect [] cache = Some r" "queryFiles \<noteq> []"
    "generate_code w opts r = (Some e, written)"
  shows "\<not> panics e"
proof (cases r)
  case (Inl e2)
  then show ?thesis using assms parseQueryFiles_no_panic by (auto simp: generate_code_def)
next
  case (Inr qfs)
  with parsed_leader assms(1,2) obtain k where "leader_index (map qf_SourcePath qfs) = Some k" by blast
  from golang_Generate_no_panic [OF this] show ?thesis
    using assms(3) Inr by (auto simp: generate_code_def Let_def split: if_splits)
qed


subsection \<open>The files of a run\<close>

lemma emit_files_all: "emit_files emit tfs = (None, written) \<Longrightarrow> written = tfs"
  by (induction emit tfs arbitrary: written rule: emit_files.induct) (auto split: if_splits prod.splits)

lemma length_choose_loop: "length (choose_loop outs used idx names) = length names + length outs"
  by (induction outs arbitrary: used idx names) (simp_all add: Let_def split: option.split)

lemma length_chooseOutputFiles [simp]: "length (chooseOutputFiles ps) = length ps"
  by (simp add: chooseOutputFiles_def length_choose_loop)

lemma golang_Generate_files:
  assumes "golang_Generate w opts qfs = (None, written)" "leader_index (map qf_SourcePath qfs) = Some k"
  shows "map (tf_IsLeader \<circ> snd) written = True # replicate (length qfs - 1) False"
    and "map (tf_SourcePath \<circ> snd) written = sort (map qf_SourcePath qfs)"
    and "map fst written = chooseOutputFiles (map (tf_SourcePath \<circ> snd) written)"
proof -
  obtain out where out: "TemplateAll (w_unicode w) (the_templater w opts) qfs = Inr out"
    and e: "EmitAllQueryFiles (w_emit w) (sort_key tf_SourcePath out) = (None, written)"
    using assms(1) by (auto simp: golang_Generate_def split: sum.splits)
  define tfs where "tfs = sort_key tf_SourcePath out"
  have wr: "written = zip (chooseOutputFiles (map tf_SourcePath tfs)) tfs"
    using emit_files_all e by (simp add: EmitAllQueryFiles_def tfs_def)
  then have snd: "map snd written = tfs" and fst: "map fst written = chooseOutputFiles (map tf_SourcePath tfs)" by simp_all
  note l = sorted_leader [OF out assms(2)]
  show "map (tf_IsLeader \<circ> snd) written = True # replicate (length qfs - 1) False"
    using l(1) snd tfs_def by (metis map_map)
  show "map (tf_SourcePath \<circ> snd) written = sort (map qf_SourcePath qfs)"
  proof (rule properties_for_sort [symmetric])
    show "mset (map (tf_SourcePath \<circ> snd) written) = mset (map qf_SourcePath qfs)"
      using l(2) snd by (metis map_map mset_map mset_sort tfs_def)
    show "sorted (map (tf_SourcePath \<circ> snd) written)" using snd by (metis map_map sorted_sort_key tfs_def)
  qed
  show "map fst written = chooseOutputFiles (map (tf_SourcePath \<circ> snd) written)" using fst snd by (metis map_map)
qed

text \<open>C3: a run without an error writes one file for each query file, in the order of the absolute source
  paths and under the names chosen for them; the first of these files, and no other, is the leader.\<close>

theorem Generate_files:
  assumes "Generate w n opts = Some ((None, written), acts)"
  shows "map (tf_IsLeader \<circ> snd) written = True # replicate (length (QueryFiles opts) - 1) False \<and>
    (\<exists>paths. map (path_Abs (fs_wd (w_files w))) (QueryFiles opts) = map Some paths \<and>
       map (tf_SourcePath \<circ> snd) written = sort paths) \<and>
    map fst written = chooseOutputFiles (map (tf_SourcePath \<circ> snd) written)"
proof -
  obtain infer container acts0 r where ne: "QueryFiles opts \<noteq> []"
    and parsed: "parseQueryFiles w n (QueryFiles opts) infer (opt_Dialect (default_dialect opts)) [] Map.empty = Some r"
    and fin: "finish_run w (default_dialect opts) container acts0 r = ((None, written), acts)"
    using assms by (rule Generate_cases) auto
  from fin have code: "generate_code w (default_dialect opts) r = (None, written)"
    by (cases "generate_code w (default_dialect opts) r") (auto simp: finish_run_def Let_def Capture_def split: option.splits)
  then obtain qfs opts1 where r: "r = Inr qfs" and g: "golang_Generate w opts1 qfs = (None, written)"
    by (auto simp: generate_code_def Let_def split: sum.splits if_splits)
  obtain k where k: "leader_index (map qf_SourcePath qfs) = Some k" using parsed_leader [OF parsed [unfolded r] ne] by blast
  have paths: "map (Some \<circ> qf_SourcePath) qfs = map (path_Abs (fs_wd (w_files w))) (QueryFiles opts)"
    using parseQueryFiles_paths [OF parsed [unfolded r]] by simp
  then have len: "length qfs = length (QueryFiles opts)" by (metis length_map)
  with golang_Generate_files [OF g k] paths show ?thesis by (auto intro!: exI [of _ "map qf_SourcePath qfs"])
qed

subsection \<open>An example\<close>

text \<open>Two empty ClickHouse query files over a connection that is given, the later name first.\<close>

definition sample_world :: world where
  "sample_world =
     \<lparr>w_files = \<lparr>fs_wd = Some ''/q'', fs_stat = (\<lambda>_. Absent),
        fs_read = (\<lambda>_. Some []),
        fs_glob = Map.empty, fs_modulePath = (\<lambda>_. [])\<rparr>,
      w_driver = \<lparr>dr_start = (\<lambda>_. False), dr_connString = None, dr_parse = (\<lambda>_. True), dr_open = (\<lambda>_. True), dr_ping = True,
        dr_exec = (\<lambda>_. True), dr_close = True, dr_stop = True, dr_read = Map.empty\<rparr>,
      w_pg = \<lparr>pg_prepare = (\<lambda>_. Inl (Inr [])), pg_explain = (\<lambda>_ _. Inl []), pg_columns = (\<lambda>_. Inl []), pg_types = (\<lambda>_. Inl [])\<rparr>,
      w_ch = (\<lambda>_ _. Inr \<lparr>r_Columns = [], r_cells = [], r_Err = None\<rparr>),
      w_unicode = latin1, w_letter = (\<lambda>_. False), w_word = (\<lambda>_. False), w_oids = (\<lambda>_. 0), w_emit = (\<lambda>_ _. True)\<rparr>"

definition sample_opts :: GenerateOptions where
  "sample_opts =
     \<lparr>Language = ''go'', opt_Dialect = ''clickhouse'', ConnString = ''clickhouse://host'', QueryFiles = [''b.sql'', ''a.sql''],
      SchemaFiles = [], GoPackage = [], OutputDir = ''/q/out'', opt_Acronyms = Map.empty, TypeOverrides = [], InlineParamCount = 2\<rparr>"

lemma sample_run:
  "case Generate sample_world 4 sample_opts of
     Some ((None, written), acts) \<Rightarrow>
       map (\<lambda>(out, f). (out, tf_SourcePath f, tf_GoPkg f, tf_IsLeader f)) written =
         [(''a.sql.go'', ''/q/a.sql'', ''out'', True), (''b.sql.go'', ''/q/b.sql'', ''out'', False)] \<and> acts = [Open, Close]
   | _ \<Rightarrow> False"
  by code_simp

theorem Generate_files_witness:
  "case Generate sample_world 4 sample_opts of
     Some ((None, written), acts) \<Rightarrow>
       map (tf_IsLeader \<circ> snd) written = [True, False] \<and> map fst written = chooseOutputFiles [''/q/a.sql'', ''/q/b.sql'']
   | _ \<Rightarrow> False"
proof -
  obtain written acts where run: "Generate sample_world 4 sample_opts = Some ((None, written), acts)"
    and w: "map (\<lambda>(out, f). (out, tf_SourcePath f, tf_GoPkg f, tf_IsLeader f)) written =
      [(''a.sql.go'', ''/q/a.sql'', ''out'', True), (''b.sql.go'', ''/q/b.sql'', ''out'', False)]"
    using sample_run by (auto split: option.splits prod.splits)
  have "map (tf_SourcePath \<circ> snd) written = [''/q/a.sql'', ''/q/b.sql'']" using w by auto
  moreover have "length (QueryFiles sample_opts) = 2" by (simp add: sample_opts_def)
  ultimately show ?thesis using Generate_files [OF run] by (simp add: run)
qed

end
