(* ===== verification/PgInferProps.thy ===== *)
theory PgInferProps
  imports PgInfer
begin

text \<open>
  Nullability of Postgres columns: a column of a table that may be NULL is never declared as one that
  may not, whatever was cached before.
\<close>

subsection \<open>The cache of columns\<close>

definition row_key :: "oid \<times> string \<times> string \<times> 16 word \<times> bool \<Rightarrow> ColumnKey" where
  "row_key row = (case row of (table, tableName, name, number, notNull) \<Rightarrow> \<lparr>ck_TableOID = table, ck_Number = number\<rparr>)"

definition row_not_null :: "oid \<times> string \<times> string \<times> 16 word \<times> bool \<Rightarrow> bool" where
  "row_not_null row = (case row of (table, tableName, name, number, notNull) \<Rightarrow> notNull)"

text \<open>The catalog answers with a row for each column asked for; \<open>nulls\<close> are the columns without a NOT NULL constraint.\<close>

definition catalog_ok :: "ColumnKey set \<Rightarrow> (string \<Rightarrow> column_rows) \<Rightarrow> ColumnKey list \<Rightarrow> bool" where
  "catalog_ok nulls conn keys \<longleftrightarrow>
     (\<forall>rows. conn (column_query keys) = Inr rows \<longrightarrow>
        (\<forall>row \<in> set rows. row_not_null row = (row_key row \<notin> nulls)) \<and> set keys \<subseteq> row_key ` set rows)"

definition cache_ok :: "ColumnKey set \<Rightarrow> column_cache \<Rightarrow> bool" where
  "cache_ok nulls cache \<longleftrightarrow> (\<forall>key c. cache key = Some c \<longrightarrow> cl_Null c = (key \<in> nulls))"

lemma add_column_ok:
  "cache_ok nulls cache \<Longrightarrow> row_not_null row = (row_key row \<notin> nulls) \<Longrightarrow> cache_ok nulls (add_column row cache)"
  by (cases row rule: prod_cases5) (auto simp: cache_ok_def add_column_def row_key_def row_not_null_def)

lemma add_column_key: "key = row_key row \<or> cache key \<noteq> None \<Longrightarrow> add_column row cache key \<noteq> None"
  by (cases row rule: prod_cases5) (auto simp: add_column_def row_key_def)

lemma fold_add_column:
  assumes "cache_ok nulls cache" "\<forall>row \<in> set rows. row_not_null row = (row_key row \<notin> nulls)"
  shows "cache_ok nulls (fold add_column rows cache)"
    and "key \<in> row_key ` set rows \<or> cache key \<noteq> None \<Longrightarrow> fold add_column rows cache key \<noteq> None"
  using assms
proof (induction rows arbitrary: cache)
  case (Cons row rows)
  {
    case 1
    then show ?case using Cons.IH(1) [of "add_column row cache"] add_column_ok by simp
  next
    case 2
    then have "key \<in> row_key ` set rows \<or> add_column row cache key \<noteq> None"
      using add_column_key [of key row cache] by auto
    then show ?case using Cons.IH(2) [of "add_column row cache"] add_column_ok 2 by simp
  }
qed auto

lemma FetchColumns_ok:
  assumes "catalog_ok nulls conn (uncached_keys cache keys)" "cache_ok nulls cache" "FetchColumns conn keys cache = (Inr cols, cache1)"
  shows "cache_ok nulls cache1"
    and "length cols = length keys"
    and "i < length keys \<Longrightarrow> ck_TableOID (keys ! i) > 0 \<Longrightarrow> cl_Null (cols ! i) = (keys ! i \<in> nulls)"
proof -
  define unc where "unc = uncached_keys cache keys"
  have main: "cache_ok nulls cache1 \<and> length cols = length keys \<and>
    (\<forall>i < length keys. ck_TableOID (keys ! i) > 0 \<longrightarrow> cl_Null (cols ! i) = (keys ! i \<in> nulls))"
  proof (cases "keys = []")
    case True
    then show ?thesis using assms by (simp add: FetchColumns_def)
  next
    case False
    then obtain ok: "cache_ok nulls cache1" and known: "\<forall>key \<in> set keys. ck_TableOID key > 0 \<longrightarrow> cache1 key \<noteq> None"
      and cols: "cols = map (\<lambda>key. case cache1 key of None \<Rightarrow> zero_column | Some c \<Rightarrow> c) keys"
    proof (cases "unc = []")
      case True
      then have "cache1 = cache" "cols = map (\<lambda>key. case cache1 key of None \<Rightarrow> zero_column | Some c \<Rightarrow> c) keys"
        using False assms(3) by (auto simp: FetchColumns_def unc_def [symmetric] fetchCachedColumns_total)
      moreover have "\<forall>key \<in> set keys. ck_TableOID key > 0 \<longrightarrow> cache key \<noteq> None"
        using True by (auto simp: unc_def uncached_keys_def filter_empty_conv)
      ultimately show thesis using that assms(2) by metis
    next
      case unc: False
      then obtain rows where rows: "conn (column_query unc) = Inr rows" and c1: "cache1 = fold add_column rows cache"
        and cols: "cols = map (\<lambda>key. case cache1 key of None \<Rightarrow> zero_column | Some c \<Rightarrow> c) keys"
        using assms(3) False by (auto simp: FetchColumns_def unc_def [symmetric] fetchCachedColumns_total Let_def split: sum.splits)
      have r: "\<forall>row \<in> set rows. row_not_null row = (row_key row \<notin> nulls)" "set unc \<subseteq> row_key ` set rows"
        using assms(1) rows by (auto simp: catalog_ok_def unc_def)
      have "cache1 key \<noteq> None" if "key \<in> set keys" "ck_TableOID key > 0" for key
      proof -
        have "key \<in> row_key ` set rows \<or> cache key \<noteq> None" using r(2) that by (auto simp: unc_def uncached_keys_def)
        then show ?thesis unfolding c1 by (rule fold_add_column(2) [OF assms(2) r(1)])
      qed
      with that [OF _ _ cols] fold_add_column(1) [OF assms(2) r(1)] show thesis by (auto simp: c1)
    qed
    have "cl_Null (cols ! i) = (keys ! i \<in> nulls)" if "i < length keys" "ck_TableOID (keys ! i) > 0" for i
    proof -
      from known that obtain c where c: "cache1 (keys ! i) = Some c" by fastforce
      with ok show ?thesis using that by (simp add: cols cache_ok_def)
    qed
    with ok show ?thesis by (simp add: cols)
  qed
  then show "cache_ok nulls cache1" "length cols = length keys"
    "i < length keys \<Longrightarrow> ck_TableOID (keys ! i) > 0 \<Longrightarrow> cl_Null (cols ! i) = (keys ! i \<in> nulls)" by auto
qed

subsection \<open>Columns that may be NULL\<close>

lemma nullable_loop_nth:
  "length (nullable_loop U query plan outs cols) = length cols"
  "i < length cols \<Longrightarrow> nullable_loop U query plan outs cols ! i \<longleftrightarrow>
     (i < length outs \<longrightarrow> isColNullable U query plan (outs ! i) (cols ! i))"
proof (induction U query plan outs cols arbitrary: i rule: nullable_loop.induct)
  case (1 U query plan out outs col cols)
  {
    case 1
    then show ?case using "1.IH"(1) by simp
  next
    case 2
    then show ?case using "1.IH"(2) by (cases i) auto
  }
qed auto

lemma output_columns_nth:
  "output_columns types descs ns = Inr cs \<Longrightarrow> length descs = length ns \<Longrightarrow>
     length cs = length ns \<and> (\<forall>i < length ns. oc_nullable (cs ! i) = ns ! i)"
proof (induction types descs ns arbitrary: cs rule: output_columns.induct)
  case (1 types desc descs n ns)
  then show ?case by (fastforce simp: nth_Cons split: option.splits nat.splits)
qed auto

text \<open>An output of the plan that is not a literal.\<close>

definition not_literal :: "unicode \<Rightarrow> string \<Rightarrow> bool" where
  "not_literal U out \<longleftrightarrow> out \<noteq> [] \<and> hd out \<noteq> CHR 0x27 \<and> \<not> IsDigit U (int (byte_val (hd out)))"

lemma isColNullable_null: "not_literal U out \<Longrightarrow> cl_Null col \<Longrightarrow> isColNullable U query plan out col"
  by (cases out) (auto simp: isColNullable_def not_literal_def)

text \<open>C13: a column of a table without a NOT NULL constraint is inferred as nullable, and the cache stays in
  agreement with the catalog, so that this holds for the next query too.
\<close>

theorem table_column_nullable:
  assumes "pg_InferTypes U conn query cache = (Inr tq, cache1)"
    and "pg_prepare conn (sq_prepared query) = Inr stmt" "explainQuery conn query = Inr plan"
    and "catalog_ok nulls (pg_columns conn) (uncached_keys cache (map column_key (sd_Fields stmt)))" "cache_ok nulls cache"
    and "i < length (sd_Fields stmt)" "fd_TableOID (sd_Fields stmt ! i) > 0" "column_key (sd_Fields stmt ! i) \<in> nulls"
    and "i < length (pl_Outputs plan) \<Longrightarrow> not_literal U (pl_Outputs plan ! i)"
  shows "cache_ok nulls cache1 \<and> i < length (tq_outputs tq) \<and> oc_nullable (tq_outputs tq ! i)"
proof -
  obtain inputs types ns outputs where
    ns: "inferOutputNullability U conn query (sd_Fields stmt) cache = (Inr ns, cache1)" and
    outputs: "output_columns types (sd_Fields stmt) ns = Inr outputs" and tq: "tq = typed_query query inputs outputs"
    using assms(1,2) unfolding pg_InferTypes_def prepareTypes_def
    by (auto split: sum.splits prod.splits if_splits)
  obtain cols where cols: "FetchColumns (pg_columns conn) (map column_key (sd_Fields stmt)) cache = (Inr cols, cache1)"
    and ns_eq: "ns = nullable_loop U query plan (pl_Outputs plan) cols"
    using ns assms(3,6) by (auto simp: inferOutputNullability_def split: prod.splits sum.splits if_splits)
  note fetch = FetchColumns_ok [OF assms(4,5) cols]
  have len: "length ns = length (sd_Fields stmt)" using fetch(2) by (simp add: ns_eq nullable_loop_nth)
  have "cl_Null (cols ! i)" using fetch(3) [of i] assms(6,7,8) by (simp add: column_key_def)
  then have "ns ! i" using assms(6,9) fetch(2) isColNullable_null by (simp add: ns_eq nullable_loop_nth)
  with output_columns_nth [OF outputs] len assms(6) fetch(1) show ?thesis by (simp add: tq typed_query_def)
qed

text \<open>An author with an optional suffix.\<close>

definition suffix_field :: FieldDescription where
  "suffix_field = \<lparr>fd_Name = ''suffix'', fd_TableOID = 16400, fd_Attr = 3, fd_TypeOID = 25\<rparr>"

definition author_conn :: pg_conn where
  "author_conn =
     \<lparr>pg_prepare = (\<lambda>sql. Inr \<lparr>sd_ParamOIDs = [], sd_Fields = [suffix_field]\<rparr>),
      pg_explain = (\<lambda>sql args. Inr [[(''Node Type'', JStr ''Limit''), (''Output'', JArr [JStr ''suffix''])]]),
      pg_columns = (\<lambda>sql. Inr [(16400, ''author'', ''suffix'', 3, False)]),
      pg_types = (\<lambda>oids. Inr [25 \<mapsto> PgBase 25 ''text''])\<rparr>"

definition suffix_query :: SourceQuery where
  "suffix_query =
     \<lparr>sq_name = ''FindSuffix'', sq_doc = None, sq_start = 0, sq_sql = ''SELECT suffix FROM author LIMIT 1'',
      sq_prepared = ''SELECT suffix FROM author LIMIT 1'', sq_params = [], sq_kind = ResultKindOne,
      sq_pragmas = no_pragmas, sq_semi = 0, sq_group = [], sq_variant = no_variant\<rparr>"

theorem table_column_nullable_witness:
  "case pg_InferTypes latin1 author_conn suffix_query Map.empty of
     (Inl e, cache1) \<Rightarrow> False
   | (Inr tq, cache1) \<Rightarrow> cache_ok {column_key suffix_field} cache1 \<and> 0 < length (tq_outputs tq) \<and> oc_nullable (tq_outputs tq ! 0)"
proof -
  let ?stmt = "\<lparr>sd_ParamOIDs = [], sd_Fields = [suffix_field]\<rparr>"
  let ?plan = "\<lparr>pl_Type = ''Limit'', pl_Relation = [], pl_Outputs = [''suffix'']\<rparr>"
  have "case fst (pg_InferTypes latin1 author_conn suffix_query Map.empty) of Inl e \<Rightarrow> False | Inr tq \<Rightarrow> True" by code_simp
  then obtain tq cache1 where tq: "pg_InferTypes latin1 author_conn suffix_query Map.empty = (Inr tq, cache1)"
    by (cases "pg_InferTypes latin1 author_conn suffix_query Map.empty") (auto split: sum.splits)
  have plan: "explainQuery author_conn suffix_query = Inr ?plan"
    by (simp add: explainQuery_def parse_plan_def author_conn_def)
  have key: "row_key (16400, ''author'', ''suffix'', 3, False) = column_key suffix_field"
    by (simp add: row_key_def column_key_def suffix_field_def)
  have "catalog_ok {column_key suffix_field} (pg_columns author_conn) (uncached_keys Map.empty (map column_key (sd_Fields ?stmt)))"
    by (simp add: catalog_ok_def author_conn_def key row_not_null_def uncached_keys_def)
  moreover have "not_literal latin1 ''suffix''" by code_simp
  moreover have "pg_prepare author_conn (sq_prepared suffix_query) = Inr ?stmt" by (simp add: author_conn_def)
  moreover have "cache_ok {column_key suffix_field} Map.empty" by (simp add: cache_ok_def)
  moreover have "fd_TableOID suffix_field > 0" by (simp add: suffix_field_def)
  ultimately have "cache_ok {column_key suffix_field} cache1 \<and> 0 < length (tq_outputs tq) \<and> oc_nullable (tq_outputs tq ! 0)"
    using table_column_nullable [OF tq _ plan, of ?stmt "{column_key suffix_field}" 0] by simp
  then show ?thesis by (simp add: tq)
qed

text \<open>
  A column that is computed belongs to no table, so what the cache gives for it is the zero column, which
  counts as one with a NOT NULL constraint: the column of \<^verbatim>\<open>SELECT NULL\<close> is inferred as not nullable.
\<close>

definition null_conn :: pg_conn where
  "null_conn =
     \<lparr>pg_prepare = (\<lambda>sql. Inr \<lparr>sd_ParamOIDs = [],
        sd_Fields = [\<lparr>fd_Name = ''x'', fd_TableOID = 0, fd_Attr = 0, fd_TypeOID = 25\<rparr>]\<rparr>),
      pg_explain = (\<lambda>sql args. Inr [[(''Node Type'', JStr ''Result''), (''Output'', JArr [JStr ''NULL::text''])]]),
      pg_columns = (\<lambda>sql. Inr []), pg_types = (\<lambda>oids. Inr [25 \<mapsto> PgBase 25 ''text''])\<rparr>"

lemma null_literal_not_nullable:
  "case fst (pg_InferTypes latin1 null_conn (suffix_query\<lparr>sq_prepared := ''SELECT NULL::text AS x''\<rparr>) Map.empty) of
     Inl e \<Rightarrow> False | Inr tq \<Rightarrow> map oc_nullable (tq_outputs tq) = [False]"
  by code_simp

end
