(* ===== verification/TypeFetcher.thy ===== *)
theory TypeFetcher
  imports PgKnown
begin

text \<open>
  Postgres types by OID, \<^verbatim>\<open>internal/pg/type_fetcher.go\<close> and \<^verbatim>\<open>type_cache.go\<close>. A composite type holds the slice
  of its column types by reference, and every copy of the type shares it: \<^verbatim>\<open>resolvePlaceholderTypes\<close> writes
  to these slices. So a composite type here has the address of a slice in a heap. The catalog queries
  are a parameter; their condition \<^verbatim>\<open>oid = ANY (...)\<close> depends on the set of OIDs only. The order in which Go
  ranges over a map is the parameter \<open>visit\<close>. Cached types are never removed, and the mutex is left out.
\<close>

subsection \<open>Types with shared columns\<close>

datatype ftype =
    FLeaf pgtype
  | FArray oid string ftype
  | FComp oid string "string list" nat
  | FHole oid

type_synonym heap = "ftype list list"

fun f_OID :: "ftype \<Rightarrow> oid" where
  "f_OID (FLeaf t) = pg_OID t"
| "f_OID (FArray i n e) = i"
| "f_OID (FComp i n cs a) = i"
| "f_OID (FHole i) = i"

record typeFetcher =
  tf_cache :: "oid \<rightharpoonup> ftype"
  tf_heap :: heap

definition newTypeCache :: "pgx_oids \<Rightarrow> typeFetcher" where
  "newTypeCache oidof = \<lparr>tf_cache = map_option FLeaf \<circ> map_of (defaultKnownTypes oidof), tf_heap = []\<rparr>"

definition getOIDs :: "typeFetcher \<Rightarrow> oid list \<Rightarrow> (oid \<rightharpoonup> ftype) \<times> oid set" where
  "getOIDs tf oids = (tf_cache tf |` set oids, {i \<in> set oids. tf_cache tf i = None})"

definition getOID :: "typeFetcher \<Rightarrow> oid \<Rightarrow> ftype option" where
  "getOID tf i = tf_cache tf i"

definition addType :: "ftype \<Rightarrow> typeFetcher \<Rightarrow> typeFetcher" where
  "addType t tf = tf\<lparr>tf_cache := (tf_cache tf)(f_OID t \<mapsto> t)\<rparr>"

subsection \<open>The catalog\<close>

record EnumRow =
  er_OID :: oid
  er_TypeName :: string
  er_ChildOIDs :: "int list"
  er_Labels :: "string list"

record CompositeRow =
  cr_TypeOID :: oid
  cr_TableName :: "string option"
  cr_ColNames :: "string list"
  cr_ColOIDs :: "int list"

record ArrayRow =
  ar_OID :: oid
  ar_TypeName :: string
  ar_ElemOID :: oid

record NameRow =
  nr_OID :: oid
  nr_Name :: "string option"
  nr_Kind :: TypeKind

record catalog =
  ct_descendants :: "oid list \<Rightarrow> oid list option"
  ct_enums :: "oid set \<Rightarrow> EnumRow list option"
  ct_composites :: "oid set \<Rightarrow> CompositeRow list option"
  ct_arrays :: "oid set \<Rightarrow> ArrayRow list option"
  ct_names :: "oid set \<Rightarrow> NameRow list option"

datatype fetch_error =
    DescendantsFailed
  | EnumsFailed
  | CompositesFailed
  | ArraysFailed
  | NamesFailed
  | NoColumnName oid
  | NoElemType string oid
  | Unresolved oid
  | Unclassified "oid set"

subsection \<open>Rows to types\<close>

definition enum_type :: "EnumRow \<Rightarrow> ftype" where
  "enum_type row = FLeaf (PgEnum (er_OID row) (er_TypeName row) (er_Labels row) (map word_of_int (er_ChildOIDs row)))"

definition unknown_type :: "NameRow \<Rightarrow> ftype" where
  "unknown_type row = FLeaf (PgUnknown (nr_OID row) (case nr_Name row of None \<Rightarrow> [] | Some n \<Rightarrow> n) (nr_Kind row))"

definition column_type :: "typeFetcher \<Rightarrow> int \<Rightarrow> ftype" where
  "column_type tf colOID = (case getOID tf (word_of_int colOID) of Some t \<Rightarrow> t | None \<Rightarrow> FHole (word_of_int colOID))"

text \<open>One round of the loop: a slice is made for the columns, which are read from the cache as it is by now.
  Reading a column name that the row does not have would panic.\<close>

definition composite_step :: "CompositeRow \<Rightarrow> typeFetcher \<Rightarrow> fetch_error + ftype \<times> typeFetcher" where
  "composite_step row tf =
     (let n = length (cr_ColOIDs row) in
      if length (cr_ColNames row) < n then Inl (NoColumnName (cr_TypeOID row))
      else
        let typ = FComp (cr_TypeOID row) (case cr_TableName row of None \<Rightarrow> [] | Some t \<Rightarrow> t) (take n (cr_ColNames row))
                    (length (tf_heap tf))
        in Inr (typ, addType typ (tf\<lparr>tf_heap := tf_heap tf @ [map (column_type tf) (cr_ColOIDs row)]\<rparr>)))"

text \<open>The index runs through the rows once: the loop ends when there are as many types as rows.\<close>

fun composite_types :: "CompositeRow list \<Rightarrow> typeFetcher \<Rightarrow> fetch_error + ftype list \<times> typeFetcher" where
  "composite_types [] tf = Inr ([], tf)"
| "composite_types (row # rows) tf =
     res_bind (composite_step row tf) (\<lambda>(t, tf1). map_res (\<lambda>(ts, tf2). (t # ts, tf2)) (composite_types rows tf1))"

definition array_type :: "typeFetcher \<Rightarrow> ArrayRow \<Rightarrow> fetch_error + ftype" where
  "array_type tf row =
     (case getOID tf (ar_ElemOID row) of
        None \<Rightarrow> Inl (NoElemType (ar_TypeName row) (ar_OID row))
      | Some e \<Rightarrow> Inr (FArray (ar_OID row) (ar_TypeName row) e))"

definition findEnumTypes :: "catalog \<Rightarrow> oid set \<Rightarrow> fetch_error + ftype list" where
  "findEnumTypes cat uncached = (case ct_enums cat uncached of None \<Rightarrow> Inl EnumsFailed | Some rows \<Rightarrow> Inr (map enum_type rows))"

definition findCompositeTypes :: "catalog \<Rightarrow> oid set \<Rightarrow> typeFetcher \<Rightarrow> fetch_error + ftype list \<times> typeFetcher" where
  "findCompositeTypes cat uncached tf =
     (case ct_composites cat uncached of None \<Rightarrow> Inl CompositesFailed | Some rows \<Rightarrow> composite_types rows tf)"

definition findArrayTypes :: "catalog \<Rightarrow> oid set \<Rightarrow> typeFetcher \<Rightarrow> fetch_error + ftype list" where
  "findArrayTypes cat uncached tf =
     (case ct_arrays cat uncached of None \<Rightarrow> Inl ArraysFailed | Some rows \<Rightarrow> seq_res (map (array_type tf) rows))"

definition findUnknownTypes :: "catalog \<Rightarrow> oid set \<Rightarrow> fetch_error + ftype list" where
  "findUnknownTypes cat uncached = (case ct_names cat uncached of None \<Rightarrow> Inl NamesFailed | Some rows \<Rightarrow> Inr (map unknown_type rows))"

subsection \<open>Placeholders\<close>

type_synonym resolved = "((fetch_error + ftype) \<times> heap) option"

text \<open>The loop over the columns of the slice at \<open>a\<close>; each column is read when its turn comes.\<close>

fun resolve_cols :: "(ftype \<Rightarrow> heap \<Rightarrow> resolved) \<Rightarrow> nat \<Rightarrow> nat list \<Rightarrow> heap \<Rightarrow> ((fetch_error + unit) \<times> heap) option" where
  "resolve_cols f a [] h = Some (Inr (), h)"
| "resolve_cols f a (i # is) h =
     (case f (h ! a ! i) h of
        None \<Rightarrow> None
      | Some (Inl e, h1) \<Rightarrow> Some (Inl e, h1)
      | Some (Inr newType, h1) \<Rightarrow> resolve_cols f a is (h1[a := (h1 ! a)[i := newType]]))"

text \<open>\<^verbatim>\<open>resolveType\<close>: the recursion goes through the heap and has fuel.\<close>

primrec resolveType :: "nat \<Rightarrow> (oid \<rightharpoonup> ftype) \<Rightarrow> ftype \<Rightarrow> heap \<Rightarrow> resolved" where
  "resolveType 0 knownTypes typ h = None"
| "resolveType (Suc n) knownTypes typ h =
     (case typ of
        FComp i name cols a \<Rightarrow>
          (case resolve_cols (resolveType n knownTypes) a [0..<length (h ! a)] h of
             None \<Rightarrow> None
           | Some (Inl e, h1) \<Rightarrow> Some (Inl e, h1)
           | Some (Inr u, h1) \<Rightarrow> Some (Inr typ, h1))
      | FArray i name el \<Rightarrow>
          (case resolveType n knownTypes el h of
             None \<Rightarrow> None
           | Some (Inl e, h1) \<Rightarrow> Some (Inl e, h1)
           | Some (Inr newType, h1) \<Rightarrow> Some (Inr (FArray i name newType), h1))
      | FHole i \<Rightarrow> (case knownTypes i of None \<Rightarrow> Some (Inl (Unresolved i), h) | Some t \<Rightarrow> Some (Inr t, h))
      | FLeaf t \<Rightarrow> Some (Inr typ, h))"

text \<open>The loop over the map, in the order given.\<close>

fun resolvePlaceholderTypes :: "nat \<Rightarrow> oid list \<Rightarrow> (oid \<rightharpoonup> ftype) \<Rightarrow> heap \<Rightarrow> ((fetch_error + (oid \<rightharpoonup> ftype)) \<times> heap) option" where
  "resolvePlaceholderTypes n [] knownTypes h = Some (Inr knownTypes, h)"
| "resolvePlaceholderTypes n (i # is) knownTypes h =
     (case knownTypes i of
        None \<Rightarrow> resolvePlaceholderTypes n is knownTypes h
      | Some typ \<Rightarrow>
          (case resolveType n knownTypes typ h of
             None \<Rightarrow> None
           | Some (Inl e, h1) \<Rightarrow> Some (Inl e, h1)
           | Some (Inr newType, h1) \<Rightarrow> resolvePlaceholderTypes n is (knownTypes(i \<mapsto> newType)) h1))"

subsection \<open>FindTypesByOIDs\<close>

text \<open>The three assignments of each loop over found types.\<close>

definition note_types :: "ftype list \<Rightarrow> (oid \<rightharpoonup> ftype) \<times> oid set \<times> typeFetcher \<Rightarrow> (oid \<rightharpoonup> ftype) \<times> oid set \<times> typeFetcher" where
  "note_types ts st =
     fold (\<lambda>t (types, uncached, tf). (types(f_OID t \<mapsto> t), uncached - {f_OID t}, addType t tf)) ts st"

definition classify :: "catalog \<Rightarrow> (oid \<rightharpoonup> ftype) \<times> oid set \<times> typeFetcher
    \<Rightarrow> fetch_error + (oid \<rightharpoonup> ftype) \<times> oid set \<times> typeFetcher" where
  "classify cat st0 =
     res_bind (findEnumTypes cat (fst (snd st0))) (\<lambda>enums.
       let st1 = note_types enums st0 in
     res_bind (findCompositeTypes cat (fst (snd st1)) (snd (snd st1))) (\<lambda>(comps, tf1).
       let st2 = note_types comps (fst st1, fst (snd st1), tf1) in
     res_bind (findArrayTypes cat (fst (snd st2)) (snd (snd st2))) (\<lambda>arrs.
       let st3 = note_types arrs st2 in
     res_bind (findUnknownTypes cat (fst (snd st3))) (\<lambda>unknowns.
       Inr (note_types unknowns st3)))))"

definition FindTypesByOIDs :: "nat \<Rightarrow> (oid set \<Rightarrow> oid list) \<Rightarrow> catalog \<Rightarrow> oid list \<Rightarrow> typeFetcher
    \<Rightarrow> (fetch_error + (oid \<rightharpoonup> ftype) \<times> typeFetcher) option" where
  "FindTypesByOIDs n visit cat oids tf =
     (case getOIDs tf oids of (cached, uncached0) \<Rightarrow>
        if uncached0 = {} then Some (Inr (cached, tf))
        else case ct_descendants cat oids of
          None \<Rightarrow> Some (Inl DescendantsFailed)
        | Some allOIDs \<Rightarrow>
            (case getOIDs tf allOIDs of (types0, uncached1) \<Rightarrow>
               (case classify cat (types0, uncached1, tf) of
                  Inl e \<Rightarrow> Some (Inl e)
                | Inr (types, uncached, tf1) \<Rightarrow>
                    (case resolvePlaceholderTypes n (visit (dom types)) types (tf_heap tf1) of
                       None \<Rightarrow> None
                     | Some (Inl e, h) \<Rightarrow> Some (Inl e)
                     | Some (Inr types1, h) \<Rightarrow>
                         if uncached \<noteq> {} then Some (Inl (Unclassified uncached))
                         else Some (Inr (types1, tf1\<lparr>tf_heap := h\<rparr>))))))"

end
