(* ===== verification/TypeFetcherProps.thy ===== *)
theory TypeFetcherProps
  imports TypeFetcher
begin

text \<open>
  What \<^verbatim>\<open>FindTypesByOIDs\<close> returns has no placeholder left in it, at any depth, although placeholders are
  replaced in place, in slices that several types share, and in the random order of a Go map. It returns
  when the types of the catalog are not cyclic.
\<close>

subsection \<open>Types in the heap\<close>

fun is_hole :: "ftype \<Rightarrow> bool" where
  "is_hole (FHole i) = True"
| "is_hole t = False"

fun solid :: "ftype \<Rightarrow> bool" where
  "solid (FHole i) = False"
| "solid (FArray i n e) = solid e"
| "solid t = True"

fun addrs :: "ftype \<Rightarrow> nat set" where
  "addrs (FComp i n cs a) = {a}"
| "addrs (FArray i n e) = addrs e"
| "addrs t = {}"

text \<open>A type and what can be read from it: elements of arrays and columns of composite types.\<close>

inductive reaches :: "heap \<Rightarrow> ftype \<Rightarrow> ftype \<Rightarrow> bool" for h where
  self: "reaches h t t"
| elem: "reaches h t (FArray i n e) \<Longrightarrow> reaches h t e"
| column: "reaches h t (FComp i n cs a) \<Longrightarrow> c \<in> set (h ! a) \<Longrightarrow> reaches h t c"

definition known_addrs :: "(oid \<rightharpoonup> ftype) \<Rightarrow> nat set" where
  "known_addrs K = (\<Union>t \<in> ran K. addrs t)"

text \<open>A column that is fine: no placeholder, and its columns are in \<open>V\<close> or belong to a known type.\<close>

definition good :: "(oid \<rightharpoonup> ftype) \<Rightarrow> nat set \<Rightarrow> ftype \<Rightarrow> bool" where
  "good K V c \<longleftrightarrow> solid c \<and> addrs c \<subseteq> V \<union> known_addrs K"

definition closed :: "(oid \<rightharpoonup> ftype) \<Rightarrow> heap \<Rightarrow> nat set \<Rightarrow> bool" where
  "closed K h V \<longleftrightarrow> V \<subseteq> {..<length h} \<and> (\<forall>a \<in> V. \<forall>c \<in> set (h ! a). good K V c)"

definition valid :: "heap \<Rightarrow> ftype \<Rightarrow> bool" where
  "valid h c \<longleftrightarrow> (solid c \<or> is_hole c) \<and> addrs c \<subseteq> {..<length h}"

definition heap_ok :: "heap \<Rightarrow> bool" where
  "heap_ok h \<longleftrightarrow> (\<forall>a < length h. \<forall>c \<in> set (h ! a). valid h c)"

definition known_ok :: "(oid \<rightharpoonup> ftype) \<Rightarrow> heap \<Rightarrow> bool" where
  "known_ok K h \<longleftrightarrow> (\<forall>i t. K i = Some t \<longrightarrow> f_OID t = i \<and> solid t \<and> addrs t \<subseteq> {..<length h})"

text \<open>The OIDs of the columns; resolving never changes them.\<close>

definition col_oids :: "heap \<Rightarrow> oid list list" where
  "col_oids h = map (map f_OID) h"

lemma col_oids_length: "col_oids h' = col_oids h \<Longrightarrow> length h' = length h"
  by (metis col_oids_def length_map)

lemma col_oids_slice: "col_oids h' = col_oids h \<Longrightarrow> a < length h \<Longrightarrow> map f_OID (h' ! a) = map f_OID (h ! a)"
  by (metis col_oids_def col_oids_length nth_map)

lemma col_oids_cols: "col_oids h' = col_oids h \<Longrightarrow> a < length h \<Longrightarrow> length (h' ! a) = length (h ! a)"
  by (metis col_oids_slice length_map)

lemma good_mono: "good K V c \<Longrightarrow> V \<subseteq> V' \<Longrightarrow> good K V' c"
  by (auto simp: good_def)

lemma known_good: "known_ok K h \<Longrightarrow> K i = Some t \<Longrightarrow> good K V t"
  by (auto simp: good_def known_ok_def known_addrs_def ran_def)

subsection \<open>What resolving does\<close>

text \<open>From a heap with closed set \<open>V\<close> to one with closed set \<open>V'\<close>: slices only change by getting fine columns.\<close>

definition ext :: "(oid \<rightharpoonup> ftype) \<Rightarrow> nat set \<Rightarrow> heap \<Rightarrow> nat set \<Rightarrow> heap \<Rightarrow> bool" where
  "ext K V h V' h' \<longleftrightarrow> V \<subseteq> V' \<and> closed K h' V' \<and> heap_ok h' \<and> col_oids h' = col_oids h \<and>
     (\<forall>a < length h. \<forall>j < length (h ! a). h' ! a ! j = h ! a ! j \<or> good K V' (h' ! a ! j))"

lemma ext_length: "ext K V h V' h' \<Longrightarrow> length h' = length h"
  unfolding ext_def by (blast intro: col_oids_length)

lemma ext_cols: "ext K V h V' h' \<Longrightarrow> a < length h \<Longrightarrow> length (h' ! a) = length (h ! a)"
  unfolding ext_def by (blast intro: col_oids_cols)

lemma ext_slice: "ext K V h V' h' \<Longrightarrow> a < length h \<Longrightarrow> map f_OID (h' ! a) = map f_OID (h ! a)"
  unfolding ext_def by (blast intro: col_oids_slice)

lemma ext_refl: "closed K h V \<Longrightarrow> heap_ok h \<Longrightarrow> ext K V h V h"
  by (simp add: ext_def)

lemma ext_trans:
  assumes "ext K V h V1 h1" "ext K V1 h1 V2 h2"
  shows "ext K V h V2 h2"
proof -
  have "h2 ! a ! j = h ! a ! j \<or> good K V2 (h2 ! a ! j)" if "a < length h" "j < length (h ! a)" for a j
  proof -
    have "a < length h1" "j < length (h1 ! a)"
      using that ext_length [OF assms(1)] ext_cols [OF assms(1)] by simp_all
    then have "h2 ! a ! j = h1 ! a ! j \<or> good K V2 (h2 ! a ! j)" using assms(2) by (auto simp: ext_def)
    moreover have "h1 ! a ! j = h ! a ! j \<or> good K V1 (h1 ! a ! j)" using that assms(1) by (auto simp: ext_def)
    ultimately show ?thesis using assms(2) good_mono [of K V1 _ V2] by (metis ext_def)
  qed
  then show ?thesis using assms by (auto simp: ext_def)
qed

lemma ext_keeps_good:
  assumes "ext K V h V' h'" "good K V (h ! a ! j)" "a < length h" "j < length (h ! a)"
  shows "good K V' (h' ! a ! j)"
  using assms good_mono by (metis ext_def)

lemma write_ext:
  assumes "closed K h V" "heap_ok h" "good K V c" "valid h c" "a < length h" "j < length (h ! a)" "f_OID c = f_OID (h ! a ! j)"
  shows "ext K V h V (h[a := (h ! a)[j := c]])"
proof -
  let ?h = "h[a := (h ! a)[j := c]]"
  have sub: "set (?h ! b) \<subseteq> insert c (set (h ! b))" for b
    using assms(5) set_update_subset_insert [of "h ! a" j c] by (cases "b = a") (auto simp: nth_list_update)
  have v: "valid ?h t = valid h t" for t by (simp add: valid_def)
  have "closed K ?h V" using assms(1,3) sub by (fastforce simp: closed_def)
  moreover have "heap_ok ?h" using assms(2,4) sub by (fastforce simp: heap_ok_def v)
  moreover have "col_oids ?h = col_oids h"
    using assms(5-7) by (auto simp: col_oids_def list_eq_iff_nth_eq nth_list_update)
  moreover have "?h ! b ! i = h ! b ! i \<or> good K V (?h ! b ! i)" for b i
    using assms(3,5,6) by (cases "b = a"; cases "i = j") auto
  ultimately show ?thesis by (auto simp: ext_def)
qed

text \<open>What a call of \<^verbatim>\<open>resolveType\<close> promises.\<close>

definition resolves :: "(oid \<rightharpoonup> ftype) \<Rightarrow> (ftype \<Rightarrow> heap \<Rightarrow> resolved) \<Rightarrow> bool" where
  "resolves K f \<longleftrightarrow> (\<forall>t h V t' h'. f t h = Some (Inr t', h') \<longrightarrow> known_ok K h \<longrightarrow> heap_ok h \<longrightarrow> valid h t \<longrightarrow> closed K h V \<longrightarrow>
     (\<exists>V'. ext K V h V' h' \<and> good K V' t' \<and> f_OID t' = f_OID t \<and> (solid t \<longrightarrow> t' = t \<and> addrs t \<subseteq> V')))"

lemma resolvesD:
  assumes "resolves K f" "f t h = Some (Inr t', h')" "known_ok K h" "heap_ok h" "valid h t" "closed K h V"
  obtains V' where "ext K V h V' h'" "good K V' t'" "f_OID t' = f_OID t" "solid t \<longrightarrow> t' = t \<and> addrs t \<subseteq> V'"
  using assms unfolding resolves_def by meson

lemma known_ok_cong: "length h' = length h \<Longrightarrow> known_ok K h' = known_ok K h"
  by (simp add: known_ok_def)

lemma good_valid: "good K V t \<Longrightarrow> known_ok K h \<Longrightarrow> V \<subseteq> {..<length h} \<Longrightarrow> valid h t"
  by (fastforce simp: good_def valid_def known_ok_def known_addrs_def ran_def)

lemma resolve_cols_resolves:
  assumes f: "resolves K f" and "resolve_cols f a is h = Some (Inr u, h')" "known_ok K h" "heap_ok h" "closed K h V"
    "a < length h" "\<forall>i \<in> set is. i < length (h ! a)"
  shows "\<exists>V'. ext K V h V' h' \<and> (\<forall>i \<in> set is. good K V' (h' ! a ! i))"
  using assms(2-)
proof (induction "is" arbitrary: h V)
  case Nil
  then show ?case using ext_refl by (auto intro!: exI [of _ V])
next
  case (Cons i "is")
  from Cons.prems(1) obtain newType h1 where step: "f (h ! a ! i) h = Some (Inr newType, h1)"
    and rest: "resolve_cols f a is (h1[a := (h1 ! a)[i := newType]]) = Some (Inr u, h')"
    by (auto split: option.splits sum.splits)
  have i: "i < length (h ! a)" using Cons.prems(6) by simp
  have "valid h (h ! a ! i)" using Cons.prems(3,5) i by (auto simp: heap_ok_def)
  from resolvesD [OF f step Cons.prems(2,3) this Cons.prems(4)] obtain V1
    where e1: "ext K V h V1 h1" and g1: "good K V1 newType" "f_OID newType = f_OID (h ! a ! i)"
      and "solid (h ! a ! i) \<longrightarrow> newType = h ! a ! i \<and> addrs (h ! a ! i) \<subseteq> V1" .
  let ?h2 = "h1[a := (h1 ! a)[i := newType]]"
  have len: "length h1 = length h" "length (h1 ! a) = length (h ! a)" "map f_OID (h1 ! a) = map f_OID (h ! a)"
    using ext_length [OF e1] ext_cols [OF e1 Cons.prems(5)] ext_slice [OF e1 Cons.prems(5)] by simp_all
  have cl1: "closed K h1 V1" "heap_ok h1" using e1 by (simp_all add: ext_def)
  have k1: "known_ok K h1" using Cons.prems(2) known_ok_cong [OF len(1)] by simp
  have w: "ext K V1 h1 V1 ?h2"
  proof (rule write_ext [OF cl1 g1(1)])
    show "valid h1 newType" using good_valid [OF g1(1) k1] cl1(1) by (simp add: closed_def)
    show "f_OID newType = f_OID (h1 ! a ! i)" using g1(2) len(2,3) i by (metis nth_map)
  qed (use Cons.prems(5) i len in auto)
  have "\<exists>V'. ext K V1 ?h2 V' h' \<and> (\<forall>i \<in> set is. good K V' (h' ! a ! i))"
  proof (rule Cons.IH [OF rest])
    show "known_ok K ?h2" using k1 known_ok_cong [of ?h2 h1] by simp
    show "heap_ok ?h2" "closed K ?h2 V1" using w by (simp_all add: ext_def)
  qed (use Cons.prems(5,6) len in auto)
  then obtain V' where e2: "ext K V1 ?h2 V' h'" and gs: "\<forall>i \<in> set is. good K V' (h' ! a ! i)" by blast
  have "good K V1 (?h2 ! a ! i)" using g1(1) len i Cons.prems(5) by simp
  then have "good K V' (h' ! a ! i)" using ext_keeps_good [OF e2] len i Cons.prems(5) by simp
  with gs ext_trans [OF ext_trans [OF e1 w] e2] show ?case by auto
qed

lemma resolveType_resolves: "resolves K (resolveType n K)"
proof (induction n)
  case (Suc n)
  show ?case unfolding resolves_def
  proof (intro allI impI)
    fix t h V t' h'
    assume r: "resolveType (Suc n) K t h = Some (Inr t', h')" and k: "known_ok K h" and h: "heap_ok h"
      and t: "valid h t" and V: "closed K h V"
    show "\<exists>V'. ext K V h V' h' \<and> good K V' t' \<and> f_OID t' = f_OID t \<and> (solid t \<longrightarrow> t' = t \<and> addrs t \<subseteq> V')"
    proof (cases t)
      case (FLeaf x)
      then show ?thesis using r ext_refl [OF V h] by (auto simp: good_def intro!: exI [of _ V])
    next
      case (FHole i)
      then have "K i = Some t'" "h' = h" using r by (auto split: option.splits)
      then show ?thesis using FHole ext_refl [OF V h] known_good [OF k] k by (auto simp: known_ok_def intro!: exI [of _ V])
    next
      case (FArray i name el)
      then have el: "solid el" "valid h el" using t by (auto simp: valid_def)
      from r FArray obtain el' where el': "resolveType n K el h = Some (Inr el', h')" and t': "t' = FArray i name el'"
        by (auto split: option.splits sum.splits)
      from resolvesD [OF Suc.IH el' k h el(2) V] obtain V' where "ext K V h V' h'" "good K V' el'" "f_OID el' = f_OID el"
        "solid el \<longrightarrow> el' = el \<and> addrs el \<subseteq> V'" .
      then show ?thesis using el(1) FArray t' by (intro exI [of _ V']) (simp add: good_def)
    next
      case (FComp i name cols a)
      then have a: "a < length h" using t by (simp add: valid_def)
      from r FComp obtain u where c: "resolve_cols (resolveType n K) a [0..<length (h ! a)] h = Some (Inr u, h')" and t': "t' = t"
        by (auto split: option.splits sum.splits)
      obtain V' where e: "ext K V h V' h'" and g: "\<forall>i < length (h ! a). good K V' (h' ! a ! i)"
        using resolve_cols_resolves [OF Suc.IH c k h V a] by auto
      have len: "length h' = length h" "length (h' ! a) = length (h ! a)"
        using ext_length [OF e] ext_cols [OF e a] by simp_all
      have cols: "\<forall>c \<in> set (h' ! a). good K V' c" using g len(2) by (auto simp: in_set_conv_nth)
      have "closed K h' (insert a V')" using e cols a len(1) good_mono [of K V' _ "insert a V'"]
        by (fastforce simp: ext_def closed_def)
      then have "ext K V h (insert a V') h'" using e good_mono [of K V' _ "insert a V'"] by (fastforce simp: ext_def)
      moreover have "good K (insert a V') t'" using FComp t' by (simp add: good_def)
      ultimately show ?thesis using FComp t' by (intro exI [of _ "insert a V'"]) auto
    qed
  qed
qed (simp add: resolves_def)

lemma resolvePlaceholderTypes_closed:
  assumes "resolvePlaceholderTypes n is K h = Some (Inr K', h')" "known_ok K h" "heap_ok h" "closed K h V"
  shows "K' = K \<and> (\<exists>V'. ext K V h V' h' \<and> (\<forall>i \<in> set is. \<forall>t. K i = Some t \<longrightarrow> addrs t \<subseteq> V'))"
  using assms
proof (induction "is" arbitrary: h V)
  case Nil
  then show ?case using ext_refl by (auto intro!: exI [of _ V])
next
  case (Cons i "is")
  show ?case
  proof (cases "K i")
    case None
    then show ?thesis using Cons by simp
  next
    case (Some t)
    with Cons.prems(1) obtain t' h1 where r: "resolveType n K t h = Some (Inr t', h1)"
      and rest: "resolvePlaceholderTypes n is (K(i \<mapsto> t')) h1 = Some (Inr K', h')"
      by (auto split: option.splits sum.splits)
    have t: "solid t" "valid h t" using Cons.prems(2) Some by (auto simp: known_ok_def valid_def)
    from resolvesD [OF resolveType_resolves r Cons.prems(2,3) t(2) Cons.prems(4)] obtain V1
      where e1: "ext K V h V1 h1" and "good K V1 t'" "f_OID t' = f_OID t" "solid t \<longrightarrow> t' = t \<and> addrs t \<subseteq> V1" .
    then have t': "t' = t" "addrs t \<subseteq> V1" using t(1) by simp_all
    have same: "K(i \<mapsto> t') = K" using Some t' by auto
    have "known_ok K h1" using Cons.prems(2) known_ok_cong [OF ext_length [OF e1]] by simp
    moreover have "heap_ok h1" "closed K h1 V1" using e1 by (simp_all add: ext_def)
    ultimately have *: "known_ok K h1" "heap_ok h1" "closed K h1 V1" by blast+
    from Cons.IH [OF rest [unfolded same] *] obtain V' where "K' = K" and e2: "ext K V1 h1 V' h'"
      and rest': "\<forall>i \<in> set is. \<forall>t. K i = Some t \<longrightarrow> addrs t \<subseteq> V'" by blast
    moreover have "addrs t \<subseteq> V'" using t'(2) e2 by (auto simp: ext_def)
    ultimately show ?thesis using ext_trans [OF e1 e2] Some by auto
  qed
qed

subsection \<open>Resolving ends\<close>

text \<open>A rank of OIDs that falls from a type to its elements and columns; \<open>S\<close> has the OIDs of the columns.\<close>

fun ranked :: "(oid \<Rightarrow> nat) \<Rightarrow> oid list list \<Rightarrow> ftype \<Rightarrow> bool" where
  "ranked rk S (FComp i n cs a) = (\<forall>c \<in> set (S ! a). rk c < rk i)"
| "ranked rk S (FArray i n e) = (rk (f_OID e) < rk i \<and> ranked rk S e)"
| "ranked rk S t = True"

definition heap_ranked :: "(oid \<Rightarrow> nat) \<Rightarrow> heap \<Rightarrow> bool" where
  "heap_ranked rk h \<longleftrightarrow> (\<forall>a < length h. \<forall>c \<in> set (h ! a). ranked rk (col_oids h) c)"

definition steady :: "(oid \<Rightarrow> nat) \<Rightarrow> oid list list \<Rightarrow> heap \<Rightarrow> bool" where
  "steady rk S h \<longleftrightarrow> col_oids h = S \<and> heap_ok h \<and> heap_ranked rk h"

definition ends :: "(oid \<Rightarrow> nat) \<Rightarrow> oid list list \<Rightarrow> nat \<Rightarrow> (ftype \<Rightarrow> heap \<Rightarrow> resolved) \<Rightarrow> bool" where
  "ends rk S n f \<longleftrightarrow> (\<forall>t h. rk (f_OID t) < n \<longrightarrow> steady rk S h \<longrightarrow> valid h t \<longrightarrow> ranked rk S t \<longrightarrow>
     (\<exists>r h'. f t h = Some (r, h') \<and> (\<forall>t'. r = Inr t' \<longrightarrow>
        steady rk S h' \<and> valid h' t' \<and> ranked rk S t' \<and> f_OID t' = f_OID t \<and> (solid t \<longrightarrow> t' = t))))"

lemma endsD:
  assumes "ends rk S n f" "rk (f_OID t) < n" "steady rk S h" "valid h t" "ranked rk S t"
  obtains (error) e h' where "f t h = Some (Inl e, h')"
  | (result) t' h' where "f t h = Some (Inr t', h')" "steady rk S h'" "valid h' t'" "ranked rk S t'" "f_OID t' = f_OID t"
      "solid t \<longrightarrow> t' = t"
proof -
  from assms obtain r h' where r: "f t h = Some (r, h')" "\<forall>t'. r = Inr t' \<longrightarrow>
        steady rk S h' \<and> valid h' t' \<and> ranked rk S t' \<and> f_OID t' = f_OID t \<and> (solid t \<longrightarrow> t' = t)"
    unfolding ends_def by meson
  then show ?thesis using error result by (cases r) auto
qed

lemma steady_length: "steady rk S h \<Longrightarrow> length h = length S"
  by (auto simp: steady_def col_oids_def)

lemma steady_slice: "steady rk S h \<Longrightarrow> a < length h \<Longrightarrow> map f_OID (h ! a) = S ! a"
  by (auto simp: steady_def col_oids_def)

lemma steady_column:
  assumes "steady rk S h" "a < length h" "i < length (h ! a)"
  shows "valid h (h ! a ! i)" "ranked rk S (h ! a ! i)" "f_OID (h ! a ! i) = S ! a ! i"
proof -
  show "valid h (h ! a ! i)" "ranked rk S (h ! a ! i)" using assms by (auto simp: steady_def heap_ok_def heap_ranked_def)
  show "f_OID (h ! a ! i) = S ! a ! i" using steady_slice [OF assms(1,2)] assms(3) by (metis nth_map)
qed

lemma steady_write:
  assumes "steady rk S h" "valid h c" "ranked rk S c" "a < length h" "i < length (h ! a)" "f_OID c = S ! a ! i"
  shows "steady rk S (h[a := (h ! a)[i := c]])"
proof -
  let ?h = "h[a := (h ! a)[i := c]]"
  have sub: "set (?h ! b) \<subseteq> insert c (set (h ! b))" for b
    using assms(4) set_update_subset_insert [of "h ! a" i c] by (cases "b = a") (auto simp: nth_list_update)
  have S: "col_oids ?h = S"
    using assms steady_slice [OF assms(1), of a]
    by (auto simp: steady_def col_oids_def list_eq_iff_nth_eq nth_list_update)
  have v: "valid ?h t = valid h t" for t by (simp add: valid_def)
  have "heap_ok ?h" using assms(1,2) sub by (fastforce simp: steady_def heap_ok_def v)
  moreover have "heap_ranked rk ?h" using assms(1,3) sub S by (fastforce simp: steady_def heap_ranked_def)
  ultimately show ?thesis using S by (simp add: steady_def)
qed

lemma resolve_cols_ends:
  assumes f: "ends rk S n f" and "steady rk S h" "a < length h"
    "\<forall>i \<in> set is. i < length (h ! a) \<and> rk (S ! a ! i) < n"
  shows "\<exists>r h'. resolve_cols f a is h = Some (r, h') \<and> (\<forall>u. r = Inr u \<longrightarrow> steady rk S h')"
  using assms(2-)
proof (induction "is" arbitrary: h)
  case (Cons i "is")
  have i: "i < length (h ! a)" "rk (S ! a ! i) < n" using Cons.prems(3) by auto
  note col = steady_column [OF Cons.prems(1,2) i(1)]
  have rk: "rk (f_OID (h ! a ! i)) < n" using col(3) i(2) by simp
  from f rk Cons.prems(1) col(1,2) show ?case
  proof (cases rule: endsD)
    case (result t' h')
    have len: "length h' = length h" using steady_length result(2) Cons.prems(1) by metis
    have slice: "map f_OID (h' ! a) = S ! a" "length (h' ! a) = length (h ! a)"
      using steady_slice [OF result(2), of a] steady_slice [OF Cons.prems(1,2)] Cons.prems(2) len
      by (simp, metis length_map)
    have "steady rk S (h'[a := (h' ! a)[i := t']])"
      using result Cons.prems(2) len slice i col(3) by (intro steady_write) auto
    then have "\<exists>r h2. resolve_cols f a is (h'[a := (h' ! a)[i := t']]) = Some (r, h2) \<and> (\<forall>u. r = Inr u \<longrightarrow> steady rk S h2)"
      using Cons.prems(2,3) len slice(2) by (intro Cons.IH) auto
    then show ?thesis using result(1) by simp
  qed auto
qed auto

lemma resolveType_ends:
  assumes K: "\<And>h. length h = length S \<Longrightarrow> known_ok K h" "\<And>i t. K i = Some t \<Longrightarrow> ranked rk S t"
  shows "ends rk S n (resolveType n K)"
proof (induction n)
  case (Suc n)
  show ?case unfolding ends_def
  proof (intro allI impI)
    fix t h
    assume n: "rk (f_OID t) < Suc n" and h: "steady rk S h" and t: "valid h t" and r: "ranked rk S t"
    have k: "known_ok K h" using K(1) steady_length [OF h] by simp
    show "\<exists>r h'. resolveType (Suc n) K t h = Some (r, h') \<and> (\<forall>t'. r = Inr t' \<longrightarrow>
        steady rk S h' \<and> valid h' t' \<and> ranked rk S t' \<and> f_OID t' = f_OID t \<and> (solid t \<longrightarrow> t' = t))"
    proof (cases t)
      case (FHole i)
      then show ?thesis using h k K(2) by (cases "K i") (auto simp: known_ok_def valid_def)
    next
      case (FArray i name el)
      have el: "rk (f_OID el) < n" "valid h el" "ranked rk S el" "solid el" using FArray n t r by (auto simp: valid_def)
      from Suc.IH el(1) h el(2,3) show ?thesis
      proof (cases rule: endsD)
        case (result t' h')
        then show ?thesis using FArray el(4) t r by (auto simp: valid_def)
      qed (use FArray in auto)
    next
      case (FComp i name cols a)
      have a: "a < length h" using FComp t by (simp add: valid_def)
      have "\<forall>j \<in> set [0..<length (h ! a)]. j < length (h ! a) \<and> rk (S ! a ! j) < n"
      proof
        fix j
        assume "j \<in> set [0..<length (h ! a)]"
        then have j: "j < length (h ! a)" by simp
        then have "S ! a ! j \<in> set (S ! a)" using steady_slice [OF h a] by (metis length_map nth_mem)
        then show "j < length (h ! a) \<and> rk (S ! a ! j) < n" using j r FComp n by fastforce
      qed
      from resolve_cols_ends [OF Suc.IH h a this] obtain r1 h' where
        c: "resolve_cols (resolveType n K) a [0..<length (h ! a)] h = Some (r1, h')" "\<forall>u. r1 = Inr u \<longrightarrow> steady rk S h'" by blast
      have "length h' = length h" if "r1 = Inr u" for u using c(2) that steady_length h by metis
      with c FComp t r show ?thesis by (cases r1) (auto simp: valid_def)
    qed (use h t r in auto)
  qed
qed (simp add: ends_def)

lemma resolvePlaceholderTypes_ends:
  assumes "\<And>h. length h = length S \<Longrightarrow> known_ok K h" "\<And>i t. K i = Some t \<Longrightarrow> ranked rk S t" "\<And>i. rk i < n" "steady rk S h"
  shows "\<exists>r h'. resolvePlaceholderTypes n is K h = Some (r, h') \<and> (\<forall>K'. r = Inr K' \<longrightarrow> steady rk S h')"
  using assms(4)
proof (induction "is" arbitrary: h)
  case (Cons i "is")
  show ?case
  proof (cases "K i")
    case (Some t)
    have k: "known_ok K h" using assms(1) steady_length [OF Cons.prems] by simp
    have t: "solid t" "valid h t" "ranked rk S t" using k Some assms(2) by (auto simp: known_ok_def valid_def)
    have "ends rk S n (resolveType n K)" using resolveType_ends assms(1,2) by blast
    from this assms(3) [of "f_OID t"] Cons.prems t(2,3) show ?thesis
    proof (cases rule: endsD)
      case (result t' h')
      then have "t' = t" using t(1) by simp
      then have "K(i \<mapsto> t') = K" using Some by auto
      then show ?thesis using result Some Cons.IH [of h'] by simp
    qed (use Some in auto)
  qed (use Cons in auto)
qed simp

subsection \<open>Fetching\<close>

definition noted :: "(oid \<rightharpoonup> ftype) \<Rightarrow> ftype list \<Rightarrow> oid \<rightharpoonup> ftype" where
  "noted m ts = fold (\<lambda>t m. m(f_OID t \<mapsto> t)) ts m"

lemma noted_simps [simp]: "noted m [] = m" "noted m (t # ts) = noted (m(f_OID t \<mapsto> t)) ts"
  by (simp_all add: noted_def)

lemma noted_cases: "noted m ts i = Some t \<Longrightarrow> t \<in> set ts \<and> f_OID t = i \<or> m i = Some t"
proof (induction ts arbitrary: m)
  case (Cons u ts)
  have "noted (m(f_OID u \<mapsto> u)) ts i = Some t" using Cons.prems by simp
  from Cons.IH [OF this] show ?case by (auto split: if_splits)
qed simp

lemma noted_agree: "m i = Some t \<longrightarrow> P \<or> m' i = Some t \<Longrightarrow> noted m ts i = Some t \<Longrightarrow> P \<or> noted m' ts i = Some t"
proof (induction ts arbitrary: m m')
  case (Cons u ts)
  have n: "noted (m(f_OID u \<mapsto> u)) ts i = Some t" using Cons.prems(2) by simp
  have "(m(f_OID u \<mapsto> u)) i = Some t \<longrightarrow> P \<or> (m'(f_OID u \<mapsto> u)) i = Some t" using Cons.prems(1) by auto
  then show ?case using Cons.IH [of "m(f_OID u \<mapsto> u)" "m'(f_OID u \<mapsto> u)"] n by (simp del: fun_upd_apply)
qed auto

lemma dom_noted [simp]: "dom (noted m ts) = dom m \<union> f_OID ` set ts"
  by (induction ts arbitrary: m) auto

lemma noted_other: "i \<notin> f_OID ` set ts \<Longrightarrow> noted m ts i = m i"
  by (induction ts arbitrary: m) auto

lemma noted_same: "i \<in> f_OID ` set ts \<Longrightarrow> noted m ts i = noted m' ts i"
proof (induction ts arbitrary: m m')
  case (Cons u ts)
  show ?case
  proof (cases "i \<in> f_OID ` set ts")
    case True
    from Cons.IH [OF this] show ?thesis by simp
  next
    case False
    then show ?thesis using Cons.prems by (auto simp: noted_other)
  qed
qed simp

lemma noted_idem [simp]: "noted (noted m ts) ts = noted m ts"
proof
  fix i
  show "noted (noted m ts) ts i = noted m ts i"
    by (cases "i \<in> f_OID ` set ts") (simp_all add: noted_other noted_same [of i ts "noted m ts" m])
qed

lemma note_types_eq:
  "note_types ts (types, uncached, tf) =
     (noted types ts, uncached - f_OID ` set ts, tf\<lparr>tf_cache := noted (tf_cache tf) ts\<rparr>)"
proof (induction ts arbitrary: types uncached tf)
  case (Cons t ts)
  have "note_types (t # ts) (types, uncached, tf) =
      note_types ts (types(f_OID t \<mapsto> t), uncached - {f_OID t}, addType t tf)"
    by (simp add: note_types_def)
  then show ?case unfolding Cons.IH by (auto simp: addType_def)
qed (simp add: note_types_def)

text \<open>The state while types are collected: \<open>W\<close> has the slices of earlier calls, in which no placeholder is left.
  A cached type is of an earlier call or is among the types collected.\<close>

definition fetch_inv :: "(oid \<Rightarrow> nat) \<Rightarrow> nat set \<Rightarrow> (oid \<rightharpoonup> ftype) \<Rightarrow> typeFetcher \<Rightarrow> bool" where
  "fetch_inv rk W types tf \<longleftrightarrow>
     heap_ok (tf_heap tf) \<and> heap_ranked rk (tf_heap tf) \<and> closed Map.empty (tf_heap tf) W \<and>
     known_ok types (tf_heap tf) \<and> known_ok (tf_cache tf) (tf_heap tf) \<and>
     (\<forall>i t. types i = Some t \<or> tf_cache tf i = Some t \<longrightarrow> ranked rk (col_oids (tf_heap tf)) t) \<and>
     (\<forall>i t. tf_cache tf i = Some t \<longrightarrow> addrs t \<subseteq> W \<or> types i = Some t)"

definition fresh_ok :: "(oid \<Rightarrow> nat) \<Rightarrow> heap \<Rightarrow> ftype \<Rightarrow> bool" where
  "fresh_ok rk h t \<longleftrightarrow> solid t \<and> addrs t \<subseteq> {..<length h} \<and> ranked rk (col_oids h) t"

lemma known_ok_noted:
  "known_ok m h \<Longrightarrow> (\<And>t. t \<in> set ts \<Longrightarrow> solid t \<and> addrs t \<subseteq> {..<length h}) \<Longrightarrow> known_ok (noted m ts) h"
  unfolding known_ok_def by (meson noted_cases)

lemma note_inv:
  assumes "fetch_inv rk W types tf" "\<And>t. t \<in> set ts \<Longrightarrow> fresh_ok rk (tf_heap tf) t"
  shows "fetch_inv rk W (noted types ts) (tf\<lparr>tf_cache := noted (tf_cache tf) ts\<rparr>)"
proof -
  have "addrs t \<subseteq> W \<or> noted types ts i = Some t" if "noted (tf_cache tf) ts i = Some t" for i t
    using noted_agree [of "tf_cache tf" i t "addrs t \<subseteq> W" types ts] that assms(1) by (simp add: fetch_inv_def)
  moreover have "ranked rk (col_oids (tf_heap tf)) t"
    if "noted types ts i = Some t \<or> noted (tf_cache tf) ts i = Some t" for i t
    using that noted_cases assms unfolding fetch_inv_def fresh_ok_def by meson
  ultimately show ?thesis
    using assms known_ok_noted [of _ "tf_heap tf" ts] by (simp add: fetch_inv_def fresh_ok_def)
qed

lemma col_oids_append: "col_oids (h @ hs) = col_oids h @ col_oids hs"
  by (simp add: col_oids_def)

lemma ranked_append: "addrs t \<subseteq> {..<length S} \<Longrightarrow> ranked rk (S @ S') t = ranked rk S t"
  by (induction t) (auto simp: nth_append)

lemma valid_append: "valid h t \<Longrightarrow> valid (h @ hs) t"
  by (auto simp: valid_def)

lemma column_type_ok:
  assumes "known_ok (tf_cache tf) (tf_heap tf)"
    "\<forall>i t. tf_cache tf i = Some t \<longrightarrow> ranked rk (col_oids (tf_heap tf)) t"
  shows "f_OID (column_type tf c) = word_of_int c" "valid (tf_heap tf) (column_type tf c)"
    "ranked rk (col_oids (tf_heap tf)) (column_type tf c)"
  using assms by (auto simp: column_type_def getOID_def known_ok_def valid_def split: option.splits)

text \<open>What the fetcher has of an invariant alone, without the types collected.\<close>

definition store_ok :: "(oid \<Rightarrow> nat) \<Rightarrow> typeFetcher \<Rightarrow> bool" where
  "store_ok rk tf \<longleftrightarrow> heap_ok (tf_heap tf) \<and> heap_ranked rk (tf_heap tf) \<and> known_ok (tf_cache tf) (tf_heap tf) \<and>
     (\<forall>i t. tf_cache tf i = Some t \<longrightarrow> ranked rk (col_oids (tf_heap tf)) t)"

lemma append_slice:
  assumes "heap_ok h" "heap_ranked rk h" "\<And>c. c \<in> set cs \<Longrightarrow> valid h c \<and> ranked rk (col_oids h) c"
  shows "heap_ok (h @ [cs])" "heap_ranked rk (h @ [cs])"
proof -
  have len: "length (col_oids h) = length h" by (simp add: col_oids_def)
  show "heap_ok (h @ [cs])" using assms(1,3) valid_append by (fastforce simp: heap_ok_def nth_append less_Suc_eq)
  have "ranked rk (col_oids (h @ [cs])) c" if "valid h c" "ranked rk (col_oids h) c" for c
    using that len by (simp add: col_oids_append ranked_append valid_def)
  then show "heap_ranked rk (h @ [cs])"
    using assms by (fastforce simp: heap_ranked_def heap_ok_def nth_append less_Suc_eq)
qed

lemma known_append: "known_ok m h \<Longrightarrow> known_ok m (h @ hs)"
  by (fastforce simp: known_ok_def)

lemma composite_step_ok:
  assumes "composite_step row tf = Inr (t, tf1)" "store_ok rk tf" "\<forall>c \<in> set (cr_ColOIDs row). rk (word_of_int c) < rk (cr_TypeOID row)"
  shows "store_ok rk tf1 \<and> tf_cache tf1 = (tf_cache tf)(f_OID t \<mapsto> t) \<and> (\<exists>cs. tf_heap tf1 = tf_heap tf @ [cs]) \<and>
    fresh_ok rk (tf_heap tf1) t"
proof -
  let ?cs = "map (column_type tf) (cr_ColOIDs row)"
  obtain name names where t: "t = FComp (cr_TypeOID row) name names (length (tf_heap tf))"
    and tf1: "tf1 = addType t (tf\<lparr>tf_heap := tf_heap tf @ [?cs]\<rparr>)"
    using assms(1) by (auto simp: composite_step_def Let_def split: if_splits)
  have st: "heap_ok (tf_heap tf)" "heap_ranked rk (tf_heap tf)" "known_ok (tf_cache tf) (tf_heap tf)"
    "\<forall>i t. tf_cache tf i = Some t \<longrightarrow> ranked rk (col_oids (tf_heap tf)) t" using assms(2) by (simp_all add: store_ok_def)
  note col = column_type_ok [OF st(3,4)]
  have len: "length (col_oids (tf_heap tf)) = length (tf_heap tf)" by (simp add: col_oids_def)
  have h: "heap_ok (tf_heap tf @ [?cs])" "heap_ranked rk (tf_heap tf @ [?cs])"
    using append_slice [OF st(1,2), of ?cs] col(2,3) by auto
  have S: "col_oids (tf_heap tf @ [?cs]) = col_oids (tf_heap tf) @ [map word_of_int (cr_ColOIDs row)]"
    by (simp add: col_oids_def col(1))
  have fresh: "fresh_ok rk (tf_heap tf @ [?cs]) t" using assms(3) len by (simp add: fresh_ok_def t S nth_append)
  have "ranked rk (col_oids (tf_heap tf @ [?cs])) u" if "tf_cache tf i = Some u" for i u
    using st(3,4) that len by (simp add: S ranked_append known_ok_def)
  then have "store_ok rk tf1"
    using h fresh known_append [OF st(3), of "[?cs]"]
    by (auto simp: store_ok_def tf1 addType_def known_ok_def fresh_ok_def)
  then show ?thesis using fresh by (auto simp: tf1 addType_def)
qed

lemma composite_types_ok:
  assumes "composite_types rows tf = Inr (ts, tf1)" "store_ok rk tf"
    "\<forall>row \<in> set rows. \<forall>c \<in> set (cr_ColOIDs row). rk (word_of_int c) < rk (cr_TypeOID row)"
  shows "store_ok rk tf1 \<and> tf_cache tf1 = noted (tf_cache tf) ts \<and> (\<exists>hs. tf_heap tf1 = tf_heap tf @ hs) \<and>
    (\<forall>t \<in> set ts. fresh_ok rk (tf_heap tf1) t)"
  using assms
proof (induction rows arbitrary: tf ts)
  case (Cons row rows)
  from Cons.prems(1) obtain t tf2 ts2 where step: "composite_step row tf = Inr (t, tf2)"
    and rest: "composite_types rows tf2 = Inr (ts2, tf1)" and ts: "ts = t # ts2" by auto
  have row: "\<forall>c \<in> set (cr_ColOIDs row). rk (word_of_int c) < rk (cr_TypeOID row)" using Cons.prems(3) by simp
  obtain cs where s: "store_ok rk tf2" "tf_cache tf2 = (tf_cache tf)(f_OID t \<mapsto> t)" "tf_heap tf2 = tf_heap tf @ [cs]"
    "fresh_ok rk (tf_heap tf2) t" using composite_step_ok [OF step Cons.prems(2) row] by blast
  have rows: "\<forall>row \<in> set rows. \<forall>c \<in> set (cr_ColOIDs row). rk (word_of_int c) < rk (cr_TypeOID row)" using Cons.prems(3) by simp
  obtain hs where r: "store_ok rk tf1" "tf_cache tf1 = noted (tf_cache tf2) ts2" "tf_heap tf1 = tf_heap tf2 @ hs"
    "\<forall>t \<in> set ts2. fresh_ok rk (tf_heap tf1) t" using Cons.IH [OF rest s(1) rows] by blast
  have "fresh_ok rk (tf_heap tf1) t"
    using s(4) r(3) by (auto simp: fresh_ok_def col_oids_append ranked_append col_oids_def)
  then show ?case using r s ts by auto
qed auto

text \<open>The catalog has no cyclic types.\<close>

definition cat_ranked :: "(oid \<Rightarrow> nat) \<Rightarrow> catalog \<Rightarrow> bool" where
  "cat_ranked rk cat \<longleftrightarrow>
     (\<forall>U rows row c. ct_composites cat U = Some rows \<longrightarrow> row \<in> set rows \<longrightarrow> c \<in> set (cr_ColOIDs row) \<longrightarrow>
        rk (word_of_int c) < rk (cr_TypeOID row)) \<and>
     (\<forall>U rows row. ct_arrays cat U = Some rows \<longrightarrow> row \<in> set rows \<longrightarrow> rk (ar_ElemOID row) < rk (ar_OID row))"

lemma store_of_inv: "fetch_inv rk W types tf \<Longrightarrow> store_ok rk tf"
  by (simp add: fetch_inv_def store_ok_def)

lemma composites_inv:
  assumes "findCompositeTypes cat U tf = Inr (ts, tf1)" "cat_ranked rk cat" "fetch_inv rk W types tf"
  shows "fetch_inv rk W (noted types ts) (tf1\<lparr>tf_cache := noted (tf_cache tf1) ts\<rparr>)"
proof -
  obtain rows where rows: "ct_composites cat U = Some rows" "composite_types rows tf = Inr (ts, tf1)"
    using assms(1) by (auto simp: findCompositeTypes_def split: option.splits)
  have "\<forall>row \<in> set rows. \<forall>c \<in> set (cr_ColOIDs row). rk (word_of_int c) < rk (cr_TypeOID row)"
    using assms(2) rows(1) unfolding cat_ranked_def by blast
  from composite_types_ok [OF rows(2) store_of_inv [OF assms(3)] this] obtain hs where
    st: "store_ok rk tf1" "tf_cache tf1 = noted (tf_cache tf) ts" "tf_heap tf1 = tf_heap tf @ hs"
    and fresh: "\<forall>t \<in> set ts. fresh_ok rk (tf_heap tf1) t" by blast
  have len: "length (col_oids (tf_heap tf)) = length (tf_heap tf)" by (simp add: col_oids_def)
  have inv: "closed Map.empty (tf_heap tf) W" "known_ok types (tf_heap tf)"
    "\<And>i t. types i = Some t \<Longrightarrow> ranked rk (col_oids (tf_heap tf)) t"
    "\<And>i t. tf_cache tf i = Some t \<Longrightarrow> addrs t \<subseteq> W \<or> types i = Some t"
    using assms(3) by (auto simp: fetch_inv_def)
  have "closed Map.empty (tf_heap tf1) W" using inv(1) by (fastforce simp: closed_def st(3) nth_append)
  moreover have "known_ok types (tf_heap tf1)" using known_append [OF inv(2)] st(3) by simp
  moreover have "ranked rk (col_oids (tf_heap tf1)) t" if "types i = Some t" for i t
    using inv(2,3) that len by (simp add: st(3) col_oids_append ranked_append known_ok_def)
  moreover have "known_ok (tf_cache tf) (tf_heap tf1)" "\<And>i t. tf_cache tf i = Some t \<Longrightarrow> ranked rk (col_oids (tf_heap tf1)) t"
    using assms(3) known_append [of "tf_cache tf" "tf_heap tf" hs] len
    by (auto simp: fetch_inv_def st(3) col_oids_append ranked_append known_ok_def)
  ultimately have base: "fetch_inv rk W types (tf1\<lparr>tf_cache := tf_cache tf\<rparr>)"
    using st(1) inv(4) by (auto simp: fetch_inv_def store_ok_def)
  from note_inv [OF this, of ts] fresh show ?thesis by (simp add: st(2))
qed

lemma arrays_fresh:
  assumes "findArrayTypes cat U tf = Inr ts" "cat_ranked rk cat" "fetch_inv rk W types tf" "t \<in> set ts"
  shows "fresh_ok rk (tf_heap tf) t"
proof -
  obtain rows where rows: "ct_arrays cat U = Some rows" "map (array_type tf) rows = map Inr ts"
    using assms(1) by (auto simp: findArrayTypes_def seq_res_Inr split: option.splits)
  have "(Inr t :: fetch_error + ftype) \<in> set (map (array_type tf) rows)" unfolding rows(2) using assms(4) by simp
  then obtain row where row: "row \<in> set rows" "array_type tf row = Inr t" by auto
  then have "rk (ar_ElemOID row) < rk (ar_OID row)" using assms(2) rows(1) unfolding cat_ranked_def by blast
  moreover obtain e where e: "tf_cache tf (ar_ElemOID row) = Some e" and t: "t = FArray (ar_OID row) (ar_TypeName row) e"
    using row(2) by (auto simp: array_type_def getOID_def split: option.splits)
  moreover have "f_OID e = ar_ElemOID row" "solid e" "addrs e \<subseteq> {..<length (tf_heap tf)}" "ranked rk (col_oids (tf_heap tf)) e"
    using assms(3) e unfolding fetch_inv_def known_ok_def by blast+
  ultimately show ?thesis by (simp add: fresh_ok_def)
qed

lemma leaf_fresh: "fresh_ok rk h (enum_type er)" "fresh_ok rk h (unknown_type nr)"
  by (simp_all add: fresh_ok_def enum_type_def unknown_type_def)

lemma classify_inv:
  assumes "classify cat (types0, uncached0, tf0) = Inr (types, uncached, tf)" "cat_ranked rk cat" "fetch_inv rk W types0 tf0"
  shows "fetch_inv rk W types tf \<and> dom types0 \<union> uncached0 \<subseteq> dom types \<union> uncached \<and> (finite (dom types0) \<longrightarrow> finite (dom types))"
proof -
  obtain enums where enums: "findEnumTypes cat uncached0 = Inr enums"
    using assms(1) by (auto simp: classify_def)
  define types1 uncached1 tf1 where "types1 = noted types0 enums" and "uncached1 = uncached0 - f_OID ` set enums"
    and "tf1 = tf0\<lparr>tf_cache := noted (tf_cache tf0) enums\<rparr>"
  obtain comps tf1' where comps: "findCompositeTypes cat uncached1 tf1 = Inr (comps, tf1')"
    using assms(1) enums by (auto simp: classify_def note_types_eq Let_def types1_def uncached1_def tf1_def)
  define types2 uncached2 tf2 where "types2 = noted types1 comps" and "uncached2 = uncached1 - f_OID ` set comps"
    and "tf2 = tf1'\<lparr>tf_cache := noted (tf_cache tf1') comps\<rparr>"
  obtain arrs where arrs: "findArrayTypes cat uncached2 tf2 = Inr arrs"
    using assms(1) enums comps
    by (auto simp: classify_def note_types_eq Let_def types1_def uncached1_def tf1_def types2_def uncached2_def tf2_def)
  define types3 uncached3 tf3 where "types3 = noted types2 arrs" and "uncached3 = uncached2 - f_OID ` set arrs"
    and "tf3 = tf2\<lparr>tf_cache := noted (tf_cache tf2) arrs\<rparr>"
  obtain unks where unks: "findUnknownTypes cat uncached3 = Inr unks"
    and res: "types = noted types3 unks" "uncached = uncached3 - f_OID ` set unks" "tf = tf3\<lparr>tf_cache := noted (tf_cache tf3) unks\<rparr>"
    using assms(1) enums comps arrs
    by (auto simp: classify_def note_types_eq Let_def types1_def uncached1_def tf1_def types2_def uncached2_def tf2_def
        types3_def uncached3_def tf3_def)
  have "fetch_inv rk W types1 tf1" unfolding types1_def tf1_def
    using enums by (intro note_inv [OF assms(3)]) (auto simp: findEnumTypes_def leaf_fresh split: option.splits)
  from composites_inv [OF comps assms(2) this] have i2: "fetch_inv rk W types2 tf2" by (simp add: types2_def tf2_def)
  have "fetch_inv rk W types3 tf3" unfolding types3_def tf3_def
    using arrays_fresh [OF arrs assms(2) i2] by (intro note_inv [OF i2])
  then have "fetch_inv rk W types tf" unfolding res
    using unks by (intro note_inv) (auto simp: findUnknownTypes_def leaf_fresh split: option.splits)
  then show ?thesis
    by (auto simp: res types3_def types2_def types1_def uncached3_def uncached2_def uncached1_def)
qed

subsection \<open>No placeholder is left\<close>

text \<open>The state between calls.\<close>

definition tf_ok :: "(oid \<Rightarrow> nat) \<Rightarrow> typeFetcher \<Rightarrow> bool" where
  "tf_ok rk tf \<longleftrightarrow> (\<exists>W. fetch_inv rk W Map.empty tf)"

definition no_placeholder :: "heap \<Rightarrow> (oid \<rightharpoonup> ftype) \<Rightarrow> bool" where
  "no_placeholder h types \<longleftrightarrow> (\<forall>i t u. types i = Some t \<longrightarrow> reaches h t u \<longrightarrow> f_OID t = i \<and> \<not> is_hole u)"

lemma closed_reaches:
  assumes "reaches h t u" "closed Map.empty h V" "solid t" "addrs t \<subseteq> V"
  shows "solid u \<and> addrs u \<subseteq> V"
  using assms
proof (induction rule: reaches.induct)
  case (column t i n cs a c)
  then show ?case by (auto simp: closed_def good_def known_addrs_def)
qed auto

lemma good_empty: "good Map.empty W c \<Longrightarrow> good K W c"
  by (auto simp: good_def known_addrs_def)

lemma solid_not_hole: "solid t \<Longrightarrow> \<not> is_hole t"
  by (cases t) auto

lemma closed_no_placeholder:
  assumes "closed Map.empty h V" "known_ok types h" "\<And>i t. types i = Some t \<Longrightarrow> addrs t \<subseteq> V"
  shows "no_placeholder h types"
  unfolding no_placeholder_def
proof (intro allI impI conjI)
  fix i t u
  assume t: "types i = Some t" and r: "reaches h t u"
  have ok: "f_OID t = i" "solid t" using assms(2) t by (auto simp: known_ok_def)
  show "f_OID t = i" by (rule ok(1))
  show "\<not> is_hole u" using closed_reaches [OF r assms(1) ok(2) assms(3) [OF t]] solid_not_hole by blast
qed

lemma newTypeCache_ok: "tf_ok rk (newTypeCache oidof)"
proof -
  have keys: "list_all (\<lambda>(i, t). pg_OID t = i) (defaultKnownTypes oidof)"
    unfolding defaultKnownTypes_def by (simp only: list.pred_inject split pg_OID.simps simp_thms)
  have "pg_OID t = i" if "map_of (defaultKnownTypes oidof) i = Some t" for i t
    using map_of_SomeD [OF that] keys unfolding list_all_iff by blast
  then have "known_ok (tf_cache (newTypeCache oidof)) []"
    by (auto simp: known_ok_def newTypeCache_def)
  then have "fetch_inv rk {} Map.empty (newTypeCache oidof)"
    by (auto simp: fetch_inv_def newTypeCache_def heap_ok_def heap_ranked_def closed_def known_ok_def)
  then show ?thesis by (auto simp: tf_ok_def)
qed

text \<open>The end of a call, after the types have been collected.\<close>

lemma resolved_types:
  assumes inv: "fetch_inv rk W types tf" and rk: "\<And>i. rk i < n" and visited: "set is = dom types"
  shows "\<exists>r h. resolvePlaceholderTypes n is types (tf_heap tf) = Some (r, h) \<and>
    (\<forall>types'. r = Inr types' \<longrightarrow> types' = types \<and> no_placeholder h types \<and> tf_ok rk (tf\<lparr>tf_heap := h\<rparr>))"
proof -
  let ?h = "tf_heap tf" and ?S = "col_oids (tf_heap tf)"
  have k: "known_ok types ?h" "heap_ok ?h" "heap_ranked rk ?h" "closed Map.empty ?h W" "known_ok (tf_cache tf) ?h"
    "\<And>i t. types i = Some t \<Longrightarrow> ranked rk ?S t" "\<And>i t. tf_cache tf i = Some t \<Longrightarrow> ranked rk ?S t"
    "\<And>i t. tf_cache tf i = Some t \<Longrightarrow> addrs t \<subseteq> W \<or> types i = Some t"
    using inv unfolding fetch_inv_def by blast+
  have cl: "closed types ?h W" using k(4) good_empty unfolding closed_def by blast
  have st: "steady rk ?S ?h" using k(2,3) by (simp add: steady_def)
  have len: "length ?S = length ?h" by (simp add: col_oids_def)
  have kn: "known_ok types h" if "length h = length ?S" for h using k(1) known_ok_cong [of h ?h types] that len by simp
  have "\<exists>r h. resolvePlaceholderTypes n is types ?h = Some (r, h) \<and> (\<forall>types'. r = Inr types' \<longrightarrow> steady rk ?S h)"
    by (rule resolvePlaceholderTypes_ends) (erule kn, erule k(6), rule rk, rule st)
  then obtain r h where r: "resolvePlaceholderTypes n is types ?h = Some (r, h)"
    and sh: "\<forall>types'. r = Inr types' \<longrightarrow> steady rk ?S h" by blast
  moreover have "types' = types \<and> no_placeholder h types \<and> tf_ok rk (tf\<lparr>tf_heap := h\<rparr>)" if "r = Inr types'" for types'
  proof -
    from resolvePlaceholderTypes_closed [OF r [unfolded that] k(1,2) cl] obtain V where same: "types' = types"
      and e: "ext types W ?h V h" and a: "\<forall>i \<in> set is. \<forall>t. types i = Some t \<longrightarrow> addrs t \<subseteq> V" by blast
    have all: "addrs t \<subseteq> V" if "types i = Some t" for i t using a visited that by blast
    then have "known_addrs types \<subseteq> V" by (auto simp: known_addrs_def ran_def)
    then have cV: "closed Map.empty h V" using e by (fastforce simp: ext_def closed_def good_def)
    have kh: "known_ok m h = known_ok m ?h" for m using known_ok_cong [OF ext_length [OF e]] .
    have "no_placeholder h types" using closed_no_placeholder [OF cV] k(1) all kh by blast
    moreover have "heap_ranked rk h" using sh that by (simp add: steady_def)
    moreover have S: "col_oids h = ?S" "heap_ok h" and WV: "W \<subseteq> V" using e by (simp_all add: ext_def)
    moreover have "addrs t \<subseteq> V" if "tf_cache tf i = Some t" for i t using k(8) [OF that] all WV by blast
    moreover have "known_ok (tf_cache tf) h" using kh k(5) by blast
    moreover have "known_ok Map.empty h" by (simp add: known_ok_def)
    ultimately have "no_placeholder h types" "fetch_inv rk V Map.empty (tf\<lparr>tf_heap := h\<rparr>)"
      using cV k(7) by (simp_all add: fetch_inv_def)
    then show ?thesis using same by (auto simp: tf_ok_def)
  qed
  ultimately show ?thesis by blast
qed

text \<open>Restricting the cache to the OIDs asked for.\<close>

lemma cached_inv:
  assumes "fetch_inv rk W Map.empty tf"
  shows "fetch_inv rk W (tf_cache tf |` U) tf"
  using assms unfolding fetch_inv_def known_ok_def restrict_map_def by (auto split: if_splits)

text \<open>C4: \<^verbatim>\<open>FindTypesByOIDs\<close> returns when the types of the catalog are not cyclic and, unless it returns an error,
  gives a type for each OID asked for, under that OID, with no placeholder anywhere inside, and keeps the
  cache fit for the next call. This holds for every order in which the map of types is visited, although
  placeholders are replaced in slices that types share.\<close>

theorem FindTypesByOIDs_resolved:
  assumes "tf_ok rk tf" "cat_ranked rk cat" "\<And>i. rk i < n" "\<And>S. finite S \<Longrightarrow> set (visit S) = S"
    and "\<And>ds. ct_descendants cat oids = Some ds \<Longrightarrow> set oids \<subseteq> set ds"
  shows "\<exists>r. FindTypesByOIDs n visit cat oids tf = Some r \<and>
    (case r of Inl e \<Rightarrow> True
     | Inr (types, tf') \<Rightarrow> set oids \<subseteq> dom types \<and> no_placeholder (tf_heap tf') types \<and> tf_ok rk tf')"
proof -
  obtain W where W: "fetch_inv rk W Map.empty tf" using assms(1) by (auto simp: tf_ok_def)
  show ?thesis
  proof (cases "{i \<in> set oids. tf_cache tf i = None} = {}")
    case True
    have inv: "closed Map.empty (tf_heap tf) W" "known_ok (tf_cache tf) (tf_heap tf)" "\<And>i t. tf_cache tf i = Some t \<Longrightarrow> addrs t \<subseteq> W"
      using W by (auto simp: fetch_inv_def)
    have "no_placeholder (tf_heap tf) (tf_cache tf |` set oids)"
      using inv(2,3) by (intro closed_no_placeholder [OF inv(1)]) (auto simp: known_ok_def restrict_map_def split: if_splits)
    moreover have "set oids \<subseteq> dom (tf_cache tf |` set oids)" using True by auto
    ultimately show ?thesis using True assms(1) by (simp add: FindTypesByOIDs_def getOIDs_def)
  next
    case False
    show ?thesis
    proof (cases "ct_descendants cat oids")
      case (Some ds)
      let ?types0 = "tf_cache tf |` set ds" and ?uncached0 = "{i \<in> set ds. tf_cache tf i = None}"
      have find: "FindTypesByOIDs n visit cat oids tf =
          (case classify cat (?types0, ?uncached0, tf) of
             Inl e \<Rightarrow> Some (Inl e)
           | Inr (types, uncached, tf1) \<Rightarrow>
               (case resolvePlaceholderTypes n (visit (dom types)) types (tf_heap tf1) of
                  None \<Rightarrow> None
                | Some (Inl e, h) \<Rightarrow> Some (Inl e)
                | Some (Inr types1, h) \<Rightarrow>
                    if uncached \<noteq> {} then Some (Inl (Unclassified uncached)) else Some (Inr (types1, tf1\<lparr>tf_heap := h\<rparr>))))"
        by (simp only: FindTypesByOIDs_def getOIDs_def prod.case False Some if_False option.case)
      show ?thesis
      proof (cases "classify cat (?types0, ?uncached0, tf)")
        case (Inr st)
        obtain types uncached tf1 where st: "st = (types, uncached, tf1)" by (cases st)
        from classify_inv [OF Inr [unfolded st] assms(2) cached_inv [OF W]]
        have inv: "fetch_inv rk W types tf1" "dom ?types0 \<union> ?uncached0 \<subseteq> dom types \<union> uncached" "finite (dom types)"
          by (auto intro: finite_subset [of _ "set ds"])
        have "set oids \<subseteq> dom ?types0 \<union> ?uncached0" using assms(5) [OF Some] by auto
        then have sub: "set oids \<subseteq> dom types \<union> uncached" using inv(2) by blast
        from resolved_types [OF inv(1) assms(3) assms(4) [OF inv(3)]] obtain r h where
          r: "resolvePlaceholderTypes n (visit (dom types)) types (tf_heap tf1) = Some (r, h)"
            "\<forall>types'. r = Inr types' \<longrightarrow> types' = types \<and> no_placeholder h types \<and> tf_ok rk (tf1\<lparr>tf_heap := h\<rparr>)" by blast
        then show ?thesis using find Inr st sub by (cases r) auto
      qed (use find in auto)
    qed (use False in \<open>auto simp: FindTypesByOIDs_def getOIDs_def\<close>)
  qed
qed

text \<open>An example: a composite type with a column of an array type, which is found after it, over a composite type.\<close>

definition point_catalog :: catalog where
  "point_catalog =
     \<lparr>ct_descendants = (\<lambda>_. Some [100, 101, 102, 103]), ct_enums = (\<lambda>_. Some []),
      ct_composites = (\<lambda>_. Some
        [\<lparr>cr_TypeOID = 100, cr_TableName = Some ''path'', cr_ColNames = [''points''], cr_ColOIDs = [101]\<rparr>,
         \<lparr>cr_TypeOID = 102, cr_TableName = Some ''point'', cr_ColNames = [''x'', ''y''], cr_ColOIDs = [103, 103]\<rparr>]),
      ct_arrays = (\<lambda>_. Some [\<lparr>ar_OID = 101, ar_TypeName = ''_point'', ar_ElemOID = 102\<rparr>]),
      ct_names = (\<lambda>_. Some [\<lparr>nr_OID = 103, nr_Name = Some ''money'', nr_Kind = KindBaseType\<rparr>])\<rparr>"

definition point_rank :: "oid \<Rightarrow> nat" where
  "point_rank i = (if i = 100 then 3 else if i = 101 then 2 else if i = 102 then 1 else 0)"

definition no_types :: typeFetcher where
  "no_types = \<lparr>tf_cache = Map.empty, tf_heap = []\<rparr>"

definition found :: "(fetch_error + (oid \<rightharpoonup> ftype) \<times> typeFetcher) option \<Rightarrow> ftype option list \<times> heap" where
  "found r = (case r of Some (Inr (types, tf)) \<Rightarrow> (map types [100, 101, 102, 103], tf_heap tf) | _ \<Rightarrow> ([], []))"

lemma point_catalog_found:
  "found (FindTypesByOIDs 4 (\<lambda>_. [102, 101, 100, 103]) point_catalog [100] no_types) =
     ([Some (FComp 100 ''path'' [''points''] 0), Some (FArray 101 ''_point'' (FComp 102 ''point'' [''x'', ''y''] 1)),
       Some (FComp 102 ''point'' [''x'', ''y''] 1), Some (FLeaf (PgUnknown 103 ''money'' KindBaseType))],
      [[FArray 101 ''_point'' (FComp 102 ''point'' [''x'', ''y''] 1)],
       [FLeaf (PgUnknown 103 ''money'' KindBaseType), FLeaf (PgUnknown 103 ''money'' KindBaseType)]])"
  by code_simp

theorem FindTypesByOIDs_resolved_witness:
  "\<exists>r. FindTypesByOIDs 4 sorted_list_of_set point_catalog [100] no_types = Some r \<and>
    (case r of Inl e \<Rightarrow> True
     | Inr (types, tf') \<Rightarrow> set [100] \<subseteq> dom types \<and> no_placeholder (tf_heap tf') types \<and> tf_ok point_rank tf')"
proof (rule FindTypesByOIDs_resolved)
  have "fetch_inv point_rank {} Map.empty no_types"
    by (simp add: fetch_inv_def no_types_def heap_ok_def heap_ranked_def closed_def known_ok_def)
  then show "tf_ok point_rank no_types" by (auto simp: tf_ok_def)
  show "cat_ranked point_rank point_catalog" by (simp add: cat_ranked_def point_catalog_def point_rank_def)
qed (auto simp: point_rank_def point_catalog_def)

text \<open>An array of a type that is found last, such as a domain, is an error, although the type alone is not.\<close>

definition domain_catalog :: catalog where
  "domain_catalog =
     \<lparr>ct_descendants = (\<lambda>_. Some [200, 201]), ct_enums = (\<lambda>_. Some []), ct_composites = (\<lambda>_. Some []),
      ct_arrays = (\<lambda>_. Some [\<lparr>ar_OID = 200, ar_TypeName = ''_email'', ar_ElemOID = 201\<rparr>]),
      ct_names = (\<lambda>_. Some [\<lparr>nr_OID = 201, nr_Name = Some ''email'', nr_Kind = KindDomainType\<rparr>])\<rparr>"

lemma domain_array_fails:
  "map_option (\<lambda>r. case r of Inl (NoElemType name i) \<Rightarrow> (name, i) | _ \<Rightarrow> ([], 0))
     (FindTypesByOIDs 4 (\<lambda>_. []) domain_catalog [200] no_types) = Some (''_email'', 200)"
  by code_simp

end
