(* ===== verification/Spec2Isabelle.thy ===== *)
theory Spec2Isabelle
  imports ChProps ChSqlProps ChInferProps ParserProps PaginateProps Keyset CasingProps GoTypeProps
    GeneratedQuery GenerateProps PgInferProps TypeFetcherProps Texts Containers
begin

text \<open>
  \<^bold>\<open>A verification library for pggen, a generator of Go code for SQL queries.\<close>

  \<^bold>\<open>The program.\<close> A run (\<^verbatim>\<open>generate.go\<close>) reads SQL files in which each query has a comment such as
  \<^verbatim>\<open>-- name: FindAuthor :one\<close>, connects to a Postgres or ClickHouse server, which may be a container started
  for the run, asks the server for the types of each query, maps these types to Go types and writes one
  Go file for each SQL file. Its parts, in the order in which a query passes through them:
  \<^item> the command line and the names of files (\<^verbatim>\<open>internal/cli\<close>, \<^verbatim>\<open>internal/paths\<close>, \<^verbatim>\<open>internal/gomod\<close>);
  \<^item> the scanner and the parser of query files (\<^verbatim>\<open>internal/scanner\<close>, \<^verbatim>\<open>internal/parser\<close>, \<^verbatim>\<open>internal/ast\<close>,
    \<^verbatim>\<open>internal/token\<close>), which also fans a paginated query out into one query for each sort order;
  \<^item> inference for Postgres (\<^verbatim>\<open>internal/pginfer\<close>, \<^verbatim>\<open>internal/pg\<close>) and for ClickHouse (\<^verbatim>\<open>internal/chinfer\<close>,
    \<^verbatim>\<open>internal/ch\<close>), both behind the interface \<^verbatim>\<open>Inferrer\<close>;
  \<^item> Go types, casing of identifiers and the two type resolvers (\<^verbatim>\<open>internal/codegen/golang/gotype\<close>,
    \<^verbatim>\<open>internal/casing\<close>, \<^verbatim>\<open>type_resolver.go\<close>, \<^verbatim>\<open>ch_type_resolver.go\<close>), behind the interface \<^verbatim>\<open>TypeResolver\<close>;
  \<^item> the templater, the declarers and the functions that print parts of a Go file, and the emitter
    (\<^verbatim>\<open>internal/codegen/golang\<close>).

  \<^bold>\<open>How the code is modelled.\<close> A Go string is a list of bytes, type \<open>string\<close>. A function that returns a
  value and an error gives a sum, \<open>Inl\<close> being the error; an error is a value of a datatype with a
  constructor for each message. A panic is an error value of its own where the source can panic. A loop
  is a recursive function; a loop that may run for ever has fuel or is a partial function, and not
  returning is then the value \<open>None\<close>. Integers that the source bounds are words or carry their range (\<open>oid\<close> is
  a word of 32 bits, attribute numbers have 16, enum values of ClickHouse are checked against 8 or 16
  bits). A Go map is a partial function, or an association list where its order can be seen. Objects that
  several values share are kept in an explicit store (array types of the table of known types, columns of
  composite types).

  \<^bold>\<open>Theories and sources.\<close>
  \<^item> \<open>GoPrelude\<close>, \<open>GoStrings\<close>, \<open>Utf8\<close>, \<open>Utf8Enc\<close>, \<open>GoQuote\<close>: the fragment of the Go standard library that the
    sources call: results, \<^verbatim>\<open>strconv\<close>, \<^verbatim>\<open>strings\<close>, \<^verbatim>\<open>unicode/utf8\<close>.
  \<^item> \<open>ChTypes\<close>, \<open>ChLex\<close>, \<open>ChParse\<close>, \<open>ChTypeText\<close>, \<open>ChParseFacts\<close>, \<open>ChReread\<close>, \<open>ChRoundTrip\<close>, \<open>ChProps\<close>:
    ClickHouse types and their parser (\<^verbatim>\<open>ch/types.go\<close>, \<^verbatim>\<open>parse.go\<close>, \<^verbatim>\<open>zero.go\<close>). What is read is what was
    printed, the recursion of the parser is bounded by the length of the text, keys identify types.
  \<^item> \<open>ChSql\<close>, \<open>ChInsert\<close>, \<open>ChSplitFacts\<close>, \<open>ChParamFacts\<close>, \<open>ChSqlProps\<close>: statements, parameters and INSERT targets
    of ClickHouse queries (\<^verbatim>\<open>ch/statements.go\<close>, \<^verbatim>\<open>params.go\<close>, \<^verbatim>\<open>insert.go\<close>). The rewriters are one scan with
    different actions; reading a rewritten query again gives the parameters that the rewriting promises.
  \<^item> \<open>ChInfer\<close>, \<open>ChInferProps\<close>: ClickHouse inference. Only DESCRIBE and EXPLAIN AST reach the server.
  \<^item> \<open>Ast\<close>, \<open>Scanner\<close>, \<open>ScannerFacts\<close>, \<open>ScanInv\<close>, \<open>QueryParser\<close>, \<open>ParserFacts\<close>, \<open>PrepareSql\<close>, \<open>ParserProps\<close>: tokens,
    the scanner with its errors, the parser of query files. Positions stay within the file and in order,
    the prepared text is the source with its arguments replaced, files without NUL bytes are parsed, a NUL
    byte in a second query makes the parser loop.
  \<^item> \<open>Paginate\<close>, \<open>PaginateProps\<close>, \<open>Keyset\<close>: pragmas, sort specifications, and the predicate that selects the next
    page. It is given a meaning over rows with NULLs and selects exactly the rows after the cursor.
  \<^item> \<open>Casing\<close>, \<open>CasingProps\<close>: Go identifiers from SQL names, rune by rune; the loop over bytes is the
    conversion of the words.
  \<^item> \<open>GoTypes\<close>, \<open>GoTypeProps\<close>: Go types, their spelling, and the imports of a file with their aliases.
  \<^item> \<open>SqlTypes\<close>, \<open>PgKnown\<close>, \<open>PgResolve\<close>, \<open>PgResolveProps\<close>, \<open>ChResolve\<close>: SQL types of both dialects and the
    resolvers. The locale \<open>type_resolver\<close> of the theory \<open>TypeResolver\<close> is what the templater relies on, and both
    resolvers interpret it.
  \<^item> \<open>TypeFetcher\<close>, \<open>TypeFetcherProps\<close>: Postgres types by OID (\<^verbatim>\<open>pg/type_fetcher.go\<close>). Composite types share the slices
    of their columns, kept in a heap, in which placeholders are replaced; none is left, whatever the order.
  \<^item> \<open>PgColumns\<close>, \<open>PgInfer\<close>, \<open>PgInferProps\<close>, \<open>Texts\<close>: Postgres inference with the cache of columns.
  \<^item> \<open>Templated\<close>, \<open>Declarers\<close>, \<open>ChIdentifiers\<close>, \<open>Templater\<close>, \<open>TemplaterProps\<close>, \<open>TemplaterImports\<close>, \<open>GeneratedQuery\<close>: the data
    for the templates and everything the templates call. \<open>GeneratedQuery\<close> follows the text of a ClickHouse query
    into the generated method, where identifiers are substituted at run time.
  \<^item> \<open>Emitter\<close>: names of the output files.
  \<^item> \<open>Connect\<close>, \<open>Paths\<close>, \<open>Generate\<close>, \<open>GenerateProps\<close>: a whole run. What it does to the container and the connection is a
    trace of actions, and an automaton says which traces are in order.
  \<^item> \<open>Containers\<close>: building an image, starting, awaiting and stopping the container (\<^verbatim>\<open>internal/dbdocker\<close> and the two
    packages on top of it). What \<open>Connect\<close> takes as one step, starting a container, is here the calls of the Docker
    client that it consists of, with what each failure leaves behind.

  \<^bold>\<open>Interfaces.\<close> What one part relies on in another is a locale: the recursive parser of nested ClickHouse types
  (\<open>type_parser\<close> and its extensions \<open>fueled_parser\<close> and \<open>brace_parser\<close>, \<open>wf_parser\<close>), what skips literals and comments
  (\<open>skipper\<close>), the scanner and an invariant of its state (\<open>scan_inv\<close>), the placeholders of a dialect (\<open>dialect\<close>),
  the conversion of a word (\<open>word_converter\<close>) and the type resolver (\<open>type_resolver\<close>). Each is interpreted on the
  definitions that model the code, and the properties rest on the facts of these interpretations.

  \<^bold>\<open>Bounds and fuel.\<close> The ClickHouse type parser has the length of its text, and one, as fuel, which is
  proved to be enough. The parser of query files has a fuel that the caller chooses; three more than the
  length of the file is proved to be enough for a file without NUL bytes and paginated queries, and no
  fuel is enough for a file with a NUL byte in its second query. The walk up to \<^verbatim>\<open>go.mod\<close> is a partial
  function that is proved to return on a clean absolute path. Replacing placeholders follows references
  through the heap and has fuel; more than the depth of the types of the catalog is proved to be enough.
  The loops that wait for a database are partial functions and are proved to return within 50 and 200 rounds.

  \<^bold>\<open>Parameters.\<close> Code outside the repository is an argument of the definitions that use it: the two
  servers and their drivers, the Docker client, the file system, the tables of Unicode (with what the
  standard says of them as a hypothesis, \<open>unicode_ok\<close>, which Latin-1 satisfies), the OID constants of pgx,
  \<^verbatim>\<open>doublestar.Glob\<close> and \<^verbatim>\<open>modfile.ModulePath\<close>.

  \<^bold>\<open>Not modelled.\<close> The templates are texts for \<^verbatim>\<open>text/template\<close>, whose language is not part of the repository
  (every function that they call is modelled). Executing a template and writing a file are one
  parameter, which says whether they succeed. \<^verbatim>\<open>internal/pg/query.sql.go\<close> and \<^verbatim>\<open>example\<close> are output of the
  program. Packages used by tests only are left out, and so is \<^verbatim>\<open>internal/pgplan\<close>, which no other package uses.
  Usage texts, flag registration, log levels, timeouts and mutexes are left out: a run has one goroutine.
\<close>

end
